(* ===== verification/Prelude.thy ===== *)
theory Prelude
  imports Complex_Main
begin

text \<open>
  What every component of the development shares: the values of the source language
  (JavaScript strings, numbers, results of a call that may throw), the string and number
  functions of its standard library that the sources use, and the list lemmas about them.

  A JavaScript string is the list of the bytes of its UTF-8 encoding, so a literal of the
  source is an Isabelle literal and a character outside ASCII is two to four bytes.  A
  JavaScript number is \<open>NaN\<close>, an infinity or an exact rational; rounding to the nearest
  double is not modelled, overflow to an infinity is.
\<close>

named_theorems js_simps \<open>evaluation rules of the language's operators\<close>

section \<open>Results of calls that may throw\<close>

datatype js_error = Js_error (message: string)

type_synonym 'a outcome = "js_error + 'a"

definition or_str :: "string \<Rightarrow> string \<Rightarrow> string" where
  "or_str a b = (if a = [] then b else a)"

definition or_list :: "'a list option \<Rightarrow> 'a list" where
  "or_list x = (case x of None \<Rightarrow> [] | Some xs \<Rightarrow> xs)"

lemma or_str_simps [simp]: "or_str [] b = b" "or_str (c # cs) b = c # cs"
  by (simp_all add: or_str_def)

lemma or_str_nonempty: "b \<noteq> [] \<Longrightarrow> or_str a b \<noteq> []"
  by (simp add: or_str_def)

lemma or_list_simps [simp]: "or_list None = []" "or_list (Some xs) = xs"
  by (simp_all add: or_list_def)

section \<open>Strings\<close>

text \<open>\<open>starts\<close> is \<open>String.startsWith\<close>; \<open>str_includes\<close> is \<open>String.includes\<close>.\<close>

fun starts :: "string \<Rightarrow> string \<Rightarrow> bool" where
  "starts s [] = True"
| "starts [] (p # ps) = False"
| "starts (c # cs) (p # ps) = (c = p \<and> starts cs ps)"

fun str_includes :: "string \<Rightarrow> string \<Rightarrow> bool" where
  "str_includes [] p = (p = [])"
| "str_includes (c # cs) p = (starts (c # cs) p \<or> str_includes cs p)"

lemma starts_iff: "starts s p \<longleftrightarrow> (\<exists>t. s = p @ t)"
  by (induction s p rule: starts.induct) auto

lemma starts_length: "starts s p \<Longrightarrow> length p \<le> length s"
  by (auto simp: starts_iff)

lemma str_includes_iff: "str_includes s p \<longleftrightarrow> (\<exists>u v. s = u @ p @ v)"
proof (induction s)
  case Nil
  then show ?case by simp
next
  case (Cons c cs)
  have "(\<exists>u v. c # cs = u @ p @ v) \<longleftrightarrow> (\<exists>v. c # cs = p @ v) \<or> (\<exists>u v. cs = u @ p @ v)"
    by (metis append_Cons append_Nil list.exhaust list.inject)
  with Cons show ?case by (simp add: starts_iff)
qed

text \<open>
  The white space of \<open>String.trim\<close>: tab, line feed, vertical tab, form feed, carriage
  return, space, the byte order mark, the line and paragraph separators and the category Zs,
  each as its UTF-8 bytes.
\<close>

definition ws_seqs :: "string list" where
  "ws_seqs =
     [[CHR 9], [CHR 10], [CHR 11], [CHR 12], [CHR 13], [CHR 32],
      [CHR 0xC2, CHR 0xA0], [CHR 0xE1, CHR 0x9A, CHR 0x80],
      [CHR 0xE2, CHR 0x80, CHR 0x80], [CHR 0xE2, CHR 0x80, CHR 0x81],
      [CHR 0xE2, CHR 0x80, CHR 0x82], [CHR 0xE2, CHR 0x80, CHR 0x83],
      [CHR 0xE2, CHR 0x80, CHR 0x84], [CHR 0xE2, CHR 0x80, CHR 0x85],
      [CHR 0xE2, CHR 0x80, CHR 0x86], [CHR 0xE2, CHR 0x80, CHR 0x87],
      [CHR 0xE2, CHR 0x80, CHR 0x88], [CHR 0xE2, CHR 0x80, CHR 0x89],
      [CHR 0xE2, CHR 0x80, CHR 0x8A], [CHR 0xE2, CHR 0x80, CHR 0xA8],
      [CHR 0xE2, CHR 0x80, CHR 0xA9], [CHR 0xE2, CHR 0x80, CHR 0xAF],
      [CHR 0xE2, CHR 0x81, CHR 0x9F], [CHR 0xE3, CHR 0x80, CHR 0x80],
      [CHR 0xEF, CHR 0xBB, CHR 0xBF]]"

fun drop_seqs :: "nat \<Rightarrow> string list \<Rightarrow> string \<Rightarrow> string" where
  "drop_seqs 0 ws s = s"
| "drop_seqs (Suc n) ws s =
     (case find (starts s) ws of None \<Rightarrow> s | Some w \<Rightarrow> drop_seqs n ws (drop (length w) s))"

definition trim_start :: "string \<Rightarrow> string" where
  "trim_start s = drop_seqs (length s) ws_seqs s"

definition trim_end :: "string \<Rightarrow> string" where
  "trim_end s = rev (drop_seqs (length s) (map rev ws_seqs) (rev s))"

definition trim :: "string \<Rightarrow> string" where
  "trim s = trim_end (trim_start s)"

lemma drop_seqs_Nil [simp]: "[] \<notin> set ws \<Longrightarrow> drop_seqs n ws [] = []"
proof (induction n)
  case (Suc n)
  have "find (starts []) ws = None"
    using Suc.prems by (auto simp: find_None_iff starts_iff)
  then show ?case by simp
qed simp

lemma Nil_notin_ws_seqs [simp]: "[] \<notin> set ws_seqs"
  by (simp add: ws_seqs_def)

lemma trim_Nil [simp]: "trim [] = []"
  by (simp add: trim_def trim_start_def trim_end_def)

lemma length_drop_seqs: "length (drop_seqs n ws s) \<le> length s"
proof (induction n arbitrary: s)
  case (Suc n)
  have "length (drop_seqs n ws (drop (length w) s)) \<le> length s" for w
    using Suc.IH [of "drop (length w) s"] by simp
  then show ?case by (auto split: option.splits)
qed simp

lemma length_trim: "length (trim s) \<le> length s"
proof -
  have "length (trim_end u) \<le> length u" for u
    using length_drop_seqs [of "length u" "map rev ws_seqs" "rev u"] by (simp add: trim_end_def)
  moreover have "length (trim_start s) \<le> length s"
    by (simp add: trim_start_def length_drop_seqs)
  ultimately show ?thesis unfolding trim_def by (rule order_trans)
qed

text \<open>A drop with enough fuel ends at a string that starts with no white space.\<close>

lemma drop_seqs_complete:
  assumes "[] \<notin> set ws" and "length s \<le> n" and "w \<in> set ws"
  shows "\<not> starts (drop_seqs n ws s) w"
  using assms(2)
proof (induction n arbitrary: s)
  case 0
  then show ?case using assms(1,3) by (cases w) auto
next
  case (Suc n)
  show ?case
  proof (cases "find (starts s) ws")
    case None
    then have "\<not> starts s w" using assms(3) by (simp add: find_None_iff)
    with None show ?thesis by simp
  next
    case (Some v)
    then have v: "v \<in> set ws" "starts s v"
      by (auto simp: find_Some_iff)
    then have "v \<noteq> []" using assms(1) by auto
    then have "length (drop (length v) s) \<le> n"
      using Suc.prems starts_length [OF v(2)] by (cases v) auto
    then show ?thesis using Some Suc.IH by simp
  qed
qed

text \<open>\<open>split(c)\<close> at a one-character separator.\<close>

fun split_on :: "char \<Rightarrow> string \<Rightarrow> string list" where
  "split_on c [] = [[]]"
| "split_on c (x # xs) =
     (if x = c then [] # split_on c xs
      else (case split_on c xs of [] \<Rightarrow> [[x]] | y # ys \<Rightarrow> (x # y) # ys))"

lemma split_on_nonempty [simp]: "split_on c s \<noteq> []"
  by (induction s) (auto split: list.splits)

lemma split_on_free: "c \<notin> set u \<Longrightarrow> split_on c u = [u]"
  by (induction u) auto

lemma split_on_append: "c \<notin> set u \<Longrightarrow> split_on c (u @ c # v) = u # split_on c v"
  by (induction u) auto

declare split_on.simps [simp del]

section \<open>Numbers\<close>

datatype jsnum = NaN | PosInf | NegInf | Fin rat

definition isNaN :: "jsnum \<Rightarrow> bool" where
  "isNaN x = (x = NaN)"

text \<open>The smallest magnitude that rounds to an infinity.\<close>

definition num_of_rat :: "rat \<Rightarrow> jsnum" where
  "num_of_rat q =
     (if q \<ge> 2 ^ 1024 - 2 ^ 970 then PosInf else if q \<le> - (2 ^ 1024 - 2 ^ 970) then NegInf else Fin q)"

text \<open>For evaluation: a small number is decided without the large powers.\<close>

lemma num_of_rat_small:
  assumes "- 1000000000000000 < q" and "q < 1000000000000000"
  shows "num_of_rat q = Fin q"
proof -
  have "(1000000000000000 :: rat) \<le> 2 ^ 1024 - 2 ^ 970" by simp
  then have "\<not> 2 ^ 1024 - 2 ^ 970 \<le> q" "\<not> q \<le> - (2 ^ 1024 - 2 ^ 970)"
    using assms by linarith+
  then show ?thesis by (simp only: num_of_rat_def if_False)
qed

lemma num_of_rat_code [code]:
  "num_of_rat q =
     (if - 1000000000000000 < q \<and> q < 1000000000000000 then Fin q
      else if q \<ge> 2 ^ 1024 - 2 ^ 970 then PosInf else if q \<le> - (2 ^ 1024 - 2 ^ 970) then NegInf else Fin q)"
proof (cases "- 1000000000000000 < q \<and> q < 1000000000000000")
  case True
  then show ?thesis using num_of_rat_small [of q] by (simp only: if_True simp_thms)
next
  case False
  then show ?thesis by (simp only: num_of_rat_def if_False)
qed

fun num_neg :: "jsnum \<Rightarrow> jsnum" where
  "num_neg NaN = NaN"
| "num_neg PosInf = NegInf"
| "num_neg NegInf = PosInf"
| "num_neg (Fin q) = Fin (- q)"

text \<open>\<open>x || d\<close> on numbers: zero and NaN are falsy.\<close>

definition or_num :: "jsnum \<Rightarrow> jsnum \<Rightarrow> jsnum" where
  "or_num x d = (if x = NaN \<or> x = Fin 0 then d else x)"

definition is_digit :: "char \<Rightarrow> bool" where
  "is_digit c = (48 \<le> (of_char c :: nat) \<and> (of_char c :: nat) \<le> 57)"

definition digit_val :: "char \<Rightarrow> nat" where
  "digit_val c = of_char c - 48"

definition digits_val :: "string \<Rightarrow> nat" where
  "digits_val ds = foldl (\<lambda>n c. 10 * n + digit_val c) 0 ds"

definition digit_char :: "nat \<Rightarrow> char" where
  "digit_char n = char_of (48 + n)"

fun nat_to_string :: "nat \<Rightarrow> string" where
  "nat_to_string n =
     (if n < 10 then [digit_char n] else nat_to_string (n div 10) @ [digit_char (n mod 10)])"

declare nat_to_string.simps [simp del]

definition int_to_string :: "int \<Rightarrow> string" where
  "int_to_string i = (if i < 0 then CHR ''-'' # nat_to_string (nat (- i)) else nat_to_string (nat i))"

lemma digit_val_char: "n < 10 \<Longrightarrow> digit_val (digit_char n) = n"
  by (simp add: digit_val_def digit_char_def)

lemma is_digit_char: "n < 10 \<Longrightarrow> is_digit (digit_char n)"
  by (simp add: is_digit_def digit_char_def)

lemma digits_val_snoc: "digits_val (ds @ [c]) = 10 * digits_val ds + digit_val c"
  by (simp add: digits_val_def)

lemma nat_to_string_digits: "\<forall>c \<in> set (nat_to_string n). is_digit c"
proof (induction n rule: nat_to_string.induct)
  case (1 n)
  then show ?case by (subst nat_to_string.simps) (auto simp: is_digit_char)
qed

lemma nat_to_string_nonempty [simp]: "nat_to_string n \<noteq> []"
  by (subst nat_to_string.simps) simp

lemma digits_val_nat_to_string [simp]: "digits_val (nat_to_string n) = n"
proof (induction n rule: nat_to_string.induct)
  case (1 n)
  show ?case
  proof (cases "n < 10")
    case True
    then show ?thesis
      by (subst nat_to_string.simps) (simp add: digits_val_def digit_val_char)
  next
    case False
    then have "digits_val (nat_to_string (n div 10)) = n div 10" by (rule "1.IH")
    with False show ?thesis
      by (subst nat_to_string.simps) (simp add: digits_val_snoc digit_val_char)
  qed
qed

lemma nat_to_string_inject: "nat_to_string m = nat_to_string n \<longleftrightarrow> m = n"
  by (metis digits_val_nat_to_string)

section \<open>Reading numbers\<close>

text \<open>
  An unsigned decimal literal: digits, an optional fraction, an optional exponent, as
  \<open>StrUnsignedDecimalLiteral\<close> of the language.  The reader takes the longest literal
  and returns its value and the rest; it needs a digit in the integer part or the fraction.
\<close>

definition scale10 :: "nat \<Rightarrow> int \<Rightarrow> rat" where
  "scale10 m e = (if 0 \<le> e then of_nat m * 10 ^ nat e else of_nat m / 10 ^ nat (- e))"

definition read_fraction :: "string \<Rightarrow> string \<times> string" where
  "read_fraction s =
     (case s of CHR ''.'' # r \<Rightarrow> (takeWhile is_digit r, dropWhile is_digit r) | _ \<Rightarrow> ([], s))"

definition read_exponent :: "string \<Rightarrow> int \<times> string" where
  "read_exponent s =
     (case s of
        [] \<Rightarrow> (0, s)
      | c # r \<Rightarrow>
          if c = CHR ''e'' \<or> c = CHR ''E'' then
            (let neg = (r \<noteq> [] \<and> hd r = CHR ''-'');
                 r' = (if r \<noteq> [] \<and> (hd r = CHR ''-'' \<or> hd r = CHR ''+'') then tl r else r);
                 ds = takeWhile is_digit r'
             in if ds = [] then (0, s)
                else (if neg then - int (digits_val ds) else int (digits_val ds),
                      dropWhile is_digit r'))
          else (0, s))"

definition read_decimal :: "string \<Rightarrow> (rat \<times> string) option" where
  "read_decimal s =
     (let ip = takeWhile is_digit s;
          (fp, r) = read_fraction (dropWhile is_digit s)
      in if ip = [] \<and> fp = [] then None
         else (let (e, r') = read_exponent r
               in Some (scale10 (digits_val (ip @ fp)) (e - int (length fp)), r')))"

definition read_signed :: "string \<Rightarrow> (jsnum \<times> string) option" where
  "read_signed s =
     (let neg = (s \<noteq> [] \<and> hd s = CHR ''-'');
          r = (if s \<noteq> [] \<and> (hd s = CHR ''-'' \<or> hd s = CHR ''+'') then tl s else s);
          sgn = (\<lambda>x. if neg then num_neg x else x)
      in if starts r ''Infinity'' then Some (sgn PosInf, drop 8 r)
         else map_option (\<lambda>(q, r'). (sgn (num_of_rat q), r')) (read_decimal r))"

fun radix_digit :: "char \<Rightarrow> nat" where
  "radix_digit c =
     (let n = of_char c :: nat
      in if 48 \<le> n \<and> n \<le> 57 then n - 48
         else if 97 \<le> n \<and> n \<le> 122 then n - 87
         else if 65 \<le> n \<and> n \<le> 90 then n - 55 else 99)"

definition radix_val :: "nat \<Rightarrow> string \<Rightarrow> nat" where
  "radix_val b ds = foldl (\<lambda>n c. b * n + radix_digit c) 0 ds"

definition read_radix :: "nat \<Rightarrow> string \<Rightarrow> jsnum" where
  "read_radix b ds =
     (if ds \<noteq> [] \<and> list_all (\<lambda>c. radix_digit c < b) ds then num_of_rat (of_nat (radix_val b ds)) else NaN)"

text \<open>\<open>Number(s)\<close>: the whole trimmed string is a literal, and the empty string is 0.\<close>

definition Number :: "string \<Rightarrow> jsnum" where
  "Number str =
     (let s = trim str
      in if s = [] then Fin 0
         else if starts s ''0x'' \<or> starts s ''0X'' then read_radix 16 (drop 2 s)
         else if starts s ''0o'' \<or> starts s ''0O'' then read_radix 8 (drop 2 s)
         else if starts s ''0b'' \<or> starts s ''0B'' then read_radix 2 (drop 2 s)
         else (case read_signed s of Some (x, []) \<Rightarrow> x | _ \<Rightarrow> NaN))"

text \<open>\<open>parseFloat(s)\<close>: the longest literal at the start of the trimmed string.\<close>

definition parseFloat :: "string \<Rightarrow> jsnum" where
  "parseFloat str = (case read_signed (trim_start str) of Some (x, _) \<Rightarrow> x | None \<Rightarrow> NaN)"

text \<open>\<open>parseInt(s)\<close> with the default radix.\<close>

definition parseInt :: "string \<Rightarrow> jsnum" where
  "parseInt str =
     (let s = trim_start str;
          neg = (s \<noteq> [] \<and> hd s = CHR ''-'');
          r = (if s \<noteq> [] \<and> (hd s = CHR ''-'' \<or> hd s = CHR ''+'') then tl s else s);
          (b, r') = (if starts r ''0x'' \<or> starts r ''0X'' then (16, drop 2 r) else (10, r));
          ds = takeWhile (\<lambda>c. radix_digit c < b) r'
      in if ds = [] then NaN
         else (let x = num_of_rat (of_nat (radix_val b ds)) in if neg then num_neg x else x))"

section \<open>Printing numbers\<close>

text \<open>
  \<open>x.toFixed(f)\<close> on a number below \<open>10 ^ 21\<close>: the integer nearest to \<open>x * 10 ^ f\<close>, the
  larger of two, with the point set before its last \<open>f\<close> digits.
\<close>

definition pad_zeros :: "nat \<Rightarrow> string \<Rightarrow> string" where
  "pad_zeros n s = replicate (n - length s) (CHR ''0'') @ s"

definition toFixed :: "nat \<Rightarrow> rat \<Rightarrow> string" where
  "toFixed f x =
     (let n = nat \<lfloor>\<bar>x\<bar> * 10 ^ f + 1 / 2\<rfloor>;
          ds = pad_zeros (Suc f) (nat_to_string n);
          k = length ds - f;
          body = (if f = 0 then ds else take k ds @ ''.'' @ drop k ds)
      in if x < 0 then CHR ''-'' # body else body)"

lemma toFixed_error:
  assumes "0 \<le> x"
  shows "\<bar>of_nat (nat \<lfloor>x * 10 ^ f + 1 / 2\<rfloor>) / 10 ^ f - x\<bar> \<le> (1 / 2 :: rat) / 10 ^ f"
proof -
  let ?n = "\<lfloor>x * 10 ^ f + 1 / 2\<rfloor>"
  have "0 \<le> ?n" using assms by simp
  then have n: "of_nat (nat ?n) = (of_int ?n :: rat)" by simp
  have "of_int ?n \<le> x * 10 ^ f + 1 / 2" "x * 10 ^ f + 1 / 2 < of_int ?n + 1"
    by linarith+
  then have "\<bar>of_int ?n - x * 10 ^ f\<bar> \<le> 1 / 2" by linarith
  moreover have "of_int ?n / 10 ^ f - x = (of_int ?n - x * 10 ^ f) / 10 ^ f"
    by (simp add: field_simps)
  ultimately have "\<bar>of_int ?n / 10 ^ f - x\<bar> \<le> 1 / 2 / 10 ^ f"
    by (simp only: abs_divide power_abs abs_numeral) (rule divide_right_mono, simp_all)
  then show ?thesis unfolding n .
qed

text \<open>
  \<open>Number::toString\<close>.  A terminating decimal is \<open>s / 10 ^ f\<close>; with \<open>ds\<close> the digits of
  \<open>s\<close> without trailing zeros and \<open>n\<close> the place of the point, the four layouts of the
  language are chosen by \<open>n\<close>.  A quotient that does not terminate, which no literal denotes,
  is printed to twenty places.
\<close>

fun count_factor :: "nat \<Rightarrow> nat \<Rightarrow> nat" where
  "count_factor p d = (if 1 < p \<and> 0 < d \<and> d mod p = 0 then Suc (count_factor p (d div p)) else 0)"

declare count_factor.simps [simp del]

definition strip_zeros :: "string \<Rightarrow> string" where
  "strip_zeros ds = rev (dropWhile (\<lambda>c. c = CHR ''0'') (rev ds))"

definition layout_digits :: "string \<Rightarrow> int \<Rightarrow> string" where
  "layout_digits ds n =
     (let k = int (length ds)
      in if k \<le> n \<and> n \<le> 21 then ds @ replicate (nat (n - k)) (CHR ''0'')
         else if 0 < n \<and> n \<le> 21 then take (nat n) ds @ ''.'' @ drop (nat n) ds
         else if - 6 < n \<and> n \<le> 0 then ''0.'' @ replicate (nat (- n)) (CHR ''0'') @ ds
         else take 1 ds @ (if k = 1 then [] else CHR ''.'' # drop 1 ds) @ ''e'' @
              (if n - 1 < 0 then ''-'' else ''+'') @ nat_to_string (nat \<bar>n - 1\<bar>))"

definition pos_to_string :: "rat \<Rightarrow> string" where
  "pos_to_string q =
     (let d = nat (snd (quotient_of q));
          f = max (count_factor 2 d) (count_factor 5 d)
      in if 10 ^ f mod d \<noteq> 0 then toFixed 20 q
         else (let ds = nat_to_string (nat \<lfloor>q * 10 ^ f\<rfloor>)
               in layout_digits (strip_zeros ds) (int (length ds) - int f)))"

definition num_to_string :: "jsnum \<Rightarrow> string" where
  "num_to_string x =
     (case x of NaN \<Rightarrow> ''NaN'' | PosInf \<Rightarrow> ''Infinity'' | NegInf \<Rightarrow> ''-Infinity''
      | Fin q \<Rightarrow> if q = 0 then ''0'' else if q < 0 then CHR ''-'' # pos_to_string (- q) else pos_to_string q)"

section \<open>Lists\<close>

text \<open>
  \<open>dedup\<close> is \<open>Array.from(new Set(xs))\<close>: the first occurrence of each element in order.
\<close>

fun dedup :: "'a list \<Rightarrow> 'a list" where
  "dedup [] = []"
| "dedup (x # xs) = x # filter (\<lambda>y. y \<noteq> x) (dedup xs)"

lemma set_dedup [simp]: "set (dedup xs) = set xs"
  by (induction xs) auto

lemma distinct_dedup [simp]: "distinct (dedup xs)"
  by (induction xs) auto

text \<open>\<open>slice(-n)\<close> keeps the last \<open>n\<close> elements.\<close>

definition last_n :: "nat \<Rightarrow> 'a list \<Rightarrow> 'a list" where
  "last_n n xs = drop (length xs - n) xs"

lemma length_last_n [simp]: "length (last_n n xs) = min n (length xs)"
  by (simp add: last_n_def)

lemma last_n_append_single: "last_n (Suc n) (xs @ [x]) = last_n n xs @ [x]"
  by (simp add: last_n_def Suc_diff_le)

end
