(* ===== verification/Json.thy ===== *)
theory Json
  imports Prelude
begin

text \<open>
  The JSON values the two front ends exchange with their servers, \<open>JSON.parse\<close> and
  \<open>JSON.stringify\<close> as the sources call them, property access, and the conversion
  \<open>String(v)\<close>.  An object is an association list in insertion order with distinct keys;
  setting a key that is there keeps its place, as the language does for string keys (integer
  keys, which the language moves to the front, are kept in place).
\<close>

datatype json =
    JNull
  | JBool bool
  | JNum jsnum
  | JStr string
  | JArr "json list"
  | JObj "(string \<times> json) list"

fun set_key :: "string \<Rightarrow> 'a \<Rightarrow> (string \<times> 'a) list \<Rightarrow> (string \<times> 'a) list" where
  "set_key k v [] = [(k, v)]"
| "set_key k v ((k', v') # kvs) = (if k' = k then (k, v) # kvs else (k', v') # set_key k v kvs)"

text \<open>\<open>obj.k\<close>: \<open>None\<close> is \<open>undefined\<close>.\<close>

fun get_key :: "json \<Rightarrow> string \<Rightarrow> json option" where
  "get_key (JObj kvs) k = map_of kvs k"
| "get_key _ _ = None"

text \<open>\<open>Object.keys\<close> of a document.\<close>

fun object_keys :: "json \<Rightarrow> string list" where
  "object_keys (JObj kvs) = map fst kvs"
| "object_keys _ = []"

text \<open>Truthiness; \<open>undefined\<close> is falsy.\<close>

fun truthy :: "json option \<Rightarrow> bool" where
  "truthy None = False"
| "truthy (Some JNull) = False"
| "truthy (Some (JBool b)) = b"
| "truthy (Some (JNum x)) = (x \<noteq> NaN \<and> x \<noteq> Fin 0)"
| "truthy (Some (JStr s)) = (s \<noteq> [])"
| "truthy (Some (JArr _)) = True"
| "truthy (Some (JObj _)) = True"

text \<open>\<open>String(v)\<close>: an array joins its elements, an object has no text of its own.\<close>

definition join :: "string \<Rightarrow> string list \<Rightarrow> string" where
  "join sep ss = (case ss of [] \<Rightarrow> [] | x # xs \<Rightarrow> x @ concat (map (\<lambda>y. sep @ y) xs))"

fun js_to_string :: "json \<Rightarrow> string" where
  "js_to_string JNull = ''null''"
| "js_to_string (JBool b) = (if b then ''true'' else ''false'')"
| "js_to_string (JNum x) = num_to_string x"
| "js_to_string (JStr s) = s"
| "js_to_string (JArr vs) = join '','' (map (\<lambda>v. case v of JNull \<Rightarrow> [] | _ \<Rightarrow> js_to_string v) vs)"
| "js_to_string (JObj kvs) = ''[object Object]''"

definition opt_to_string :: "json option \<Rightarrow> string" where
  "opt_to_string v = (case v of None \<Rightarrow> ''undefined'' | Some j \<Rightarrow> js_to_string j)"

lemma map_of_set_key [simp]: "map_of (set_key k v kvs) = (map_of kvs)(k \<mapsto> v)"
  by (induction kvs) auto

lemma keys_set_key: "map fst (set_key k v kvs) = (if k \<in> fst ` set kvs then map fst kvs else map fst kvs @ [k])"
  by (induction kvs) (force split: if_splits)+

lemma distinct_set_key: "distinct (map fst kvs) \<Longrightarrow> distinct (map fst (set_key k v kvs))"
  by (simp add: keys_set_key)

section \<open>Parsing\<close>

definition json_ws :: "char \<Rightarrow> bool" where
  "json_ws c = (c = CHR 32 \<or> c = CHR 9 \<or> c = CHR 10 \<or> c = CHR 13)"

definition skip_ws :: "string \<Rightarrow> string" where
  "skip_ws s = dropWhile json_ws s"

definition hex_digit :: "char \<Rightarrow> nat option" where
  "hex_digit c = (if radix_digit c < 16 then Some (radix_digit c) else None)"

fun read_hex4 :: "string \<Rightarrow> (nat \<times> string) option" where
  "read_hex4 (a # b # c # d # r) =
     (case (hex_digit a, hex_digit b, hex_digit c, hex_digit d) of
        (Some w, Some x, Some y, Some z) \<Rightarrow> Some (4096 * w + 256 * x + 16 * y + z, r)
      | _ \<Rightarrow> None)"
| "read_hex4 _ = None"

definition utf8 :: "nat \<Rightarrow> string" where
  "utf8 n =
     (if n < 0x80 then [char_of n]
      else if n < 0x800 then [char_of (0xC0 + n div 0x40), char_of (0x80 + n mod 0x40)]
      else if n < 0x10000 then
        [char_of (0xE0 + n div 0x1000), char_of (0x80 + n div 0x40 mod 0x40), char_of (0x80 + n mod 0x40)]
      else
        [char_of (0xF0 + n div 0x40000), char_of (0x80 + n div 0x1000 mod 0x40),
         char_of (0x80 + n div 0x40 mod 0x40), char_of (0x80 + n mod 0x40)])"

text \<open>
  The character after a backslash.  A high surrogate joins with the low surrogate escape
  that follows it; a lone one is kept as the three bytes of its code unit.
\<close>

definition read_escape :: "string \<Rightarrow> (string \<times> string) option" where
  "read_escape s =
     (case s of
        [] \<Rightarrow> None
      | c # r \<Rightarrow>
          if c = CHR 0x22 then Some ([CHR 0x22], r)
          else if c = CHR 0x5C then Some ([CHR 0x5C], r)
          else if c = CHR ''/'' then Some (''/'', r)
          else if c = CHR ''b'' then Some ([CHR 8], r)
          else if c = CHR ''f'' then Some ([CHR 12], r)
          else if c = CHR ''n'' then Some ([CHR 10], r)
          else if c = CHR ''r'' then Some ([CHR 13], r)
          else if c = CHR ''t'' then Some ([CHR 9], r)
          else if c = CHR ''u'' then
            (case read_hex4 r of
               None \<Rightarrow> None
             | Some (n, r') \<Rightarrow>
                 if 0xD800 \<le> n \<and> n < 0xDC00 \<and> starts r' [CHR 0x5C, CHR ''u''] then
                   (case read_hex4 (drop 2 r') of
                      Some (m, r'') \<Rightarrow>
                        if 0xDC00 \<le> m \<and> m < 0xE000
                        then Some (utf8 (0x10000 + 0x400 * (n - 0xD800) + (m - 0xDC00)), r'')
                        else Some (utf8 n, r')
                    | None \<Rightarrow> Some (utf8 n, r'))
                 else Some (utf8 n, r'))
          else None)"

lemma read_hex4_length: "read_hex4 s = Some (n, r) \<Longrightarrow> length r < length s"
  by (induction s rule: read_hex4.induct) (auto split: option.splits)

lemma read_escape_length: "read_escape s = Some (b, r) \<Longrightarrow> length r < length s"
proof (cases s)
  case (Cons c t)
  assume esc: "read_escape s = Some (b, r)"
  have hex: "read_hex4 u = Some (n, v) \<Longrightarrow> length u \<le> length t \<Longrightarrow> length v < length s" for u n v
    using Cons by (auto dest: read_hex4_length)
  show ?thesis
    using esc Cons
    by (auto simp: read_escape_def split: if_splits option.splits prod.splits
        dest!: read_hex4_length)
qed (simp add: read_escape_def)

text \<open>The body of a string, after its opening quote: control characters are refused.\<close>

function read_string :: "string \<Rightarrow> (string \<times> string) option" where
  "read_string s =
     (case s of
        [] \<Rightarrow> None
      | c # r \<Rightarrow>
          if c = CHR 0x22 then Some ([], r)
          else if c = CHR 0x5C then
            (case read_escape r of
               None \<Rightarrow> None
             | Some (b, r') \<Rightarrow> map_option (\<lambda>(t, u). (b @ t, u)) (read_string r'))
          else if (of_char c :: nat) < 32 then None
          else map_option (\<lambda>(t, u). (c # t, u)) (read_string r))"
  by pat_completeness auto
termination
  by (relation "measure length") (auto dest: read_escape_length)

declare read_string.simps [simp del]

text \<open>
  A JSON number: an optional minus, an integer part without leading zeros, an optional
  fraction with a digit, an optional exponent.
\<close>

definition read_number :: "string \<Rightarrow> (jsnum \<times> string) option" where
  "read_number s =
     (let neg = (s \<noteq> [] \<and> hd s = CHR ''-'');
          r = (if neg then tl s else s);
          ip = takeWhile is_digit r;
          r1 = dropWhile is_digit r
      in if ip = [] \<or> (hd ip = CHR ''0'' \<and> length ip > 1) then None
         else (let (fp, r2) = read_fraction r1
               in if fp = [] \<and> r2 \<noteq> r1 then None
                  else (let (e, r3) = read_exponent r2;
                            x = num_of_rat (scale10 (digits_val (ip @ fp)) (e - int (length fp)))
                        in if r3 = r2 \<and> r2 \<noteq> [] \<and> (hd r2 = CHR ''e'' \<or> hd r2 = CHR ''E'') then None
                           else Some (if neg then num_neg x else x, r3))))"

text \<open>
  Values, array elements and object members, each read after its leading white space.  The
  first argument bounds the depth of the calls; \<open>JSON_parse\<close> gives twice the length of the
  input, and each call but the one into a value at a new element consumes a character.
\<close>

fun parse_value :: "nat \<Rightarrow> string \<Rightarrow> (json \<times> string) option"
  and parse_elems :: "nat \<Rightarrow> string \<Rightarrow> (json list \<times> string) option"
  and parse_members :: "nat \<Rightarrow> (string \<times> json) list \<Rightarrow> string \<Rightarrow> ((string \<times> json) list \<times> string) option"
where
  "parse_value 0 s = None"
| "parse_value (Suc n) s =
     (let t = skip_ws s
      in case t of
           [] \<Rightarrow> None
         | c # r \<Rightarrow>
             if starts t ''null'' then Some (JNull, drop 4 t)
             else if starts t ''true'' then Some (JBool True, drop 4 t)
             else if starts t ''false'' then Some (JBool False, drop 5 t)
             else if c = CHR 0x22 then map_option (\<lambda>(b, u). (JStr b, u)) (read_string r)
             else if c = CHR ''['' then
               (if starts (skip_ws r) '']'' then Some (JArr [], tl (skip_ws r))
                else map_option (\<lambda>(vs, u). (JArr vs, u)) (parse_elems n r))
             else if c = CHR ''{'' then
               (if starts (skip_ws r) ''}'' then Some (JObj [], tl (skip_ws r))
                else map_option (\<lambda>(kvs, u). (JObj kvs, u)) (parse_members n [] r))
             else map_option (\<lambda>(x, u). (JNum x, u)) (read_number t))"
| "parse_elems 0 s = None"
| "parse_elems (Suc n) s =
     (case parse_value n s of
        None \<Rightarrow> None
      | Some (v, r) \<Rightarrow>
          (let t = skip_ws r
           in if starts t '','' then map_option (\<lambda>(vs, u). (v # vs, u)) (parse_elems n (tl t))
              else if starts t '']'' then Some ([v], tl t)
              else None))"
| "parse_members 0 acc s = None"
| "parse_members (Suc n) acc s =
     (let t = skip_ws s
      in if \<not> starts t [CHR 0x22] then None
         else (case read_string (tl t) of
                 None \<Rightarrow> None
               | Some (k, r) \<Rightarrow>
                   (let t' = skip_ws r
                    in if \<not> starts t' '':'' then None
                       else (case parse_value n (tl t') of
                               None \<Rightarrow> None
                             | Some (v, r') \<Rightarrow>
                                 (let t'' = skip_ws r'; acc' = set_key k v acc
                                  in if starts t'' '','' then parse_members n acc' (tl t'')
                                     else if starts t'' ''}'' then Some (acc', tl t'')
                                     else None)))))"

definition json_syntax_error :: js_error where
  "json_syntax_error = Js_error ''SyntaxError: JSON.parse''"

definition JSON_parse :: "string \<Rightarrow> json outcome" where
  "JSON_parse s =
     (case parse_value (2 * length s + 2) s of
        Some (v, r) \<Rightarrow> if skip_ws r = [] then Inr v else Inl json_syntax_error
      | None \<Rightarrow> Inl json_syntax_error)"

text \<open>Objects that come out of the parser have distinct keys.\<close>

fun wf_json :: "json \<Rightarrow> bool" where
  "wf_json (JArr vs) = list_all wf_json vs"
| "wf_json (JObj kvs) = (distinct (map fst kvs) \<and> list_all (\<lambda>kv. wf_json (snd kv)) kvs)"
| "wf_json _ = True"

lemma wf_set_key:
  "list_all (\<lambda>kv. wf_json (snd kv)) kvs \<Longrightarrow> wf_json v \<Longrightarrow> list_all (\<lambda>kv. wf_json (snd kv)) (set_key k v kvs)"
  by (induction kvs) auto

lemma parse_wf:
  "parse_value n s = Some (v, r) \<Longrightarrow> wf_json v"
  "parse_elems n s = Some (vs, r) \<Longrightarrow> list_all wf_json vs"
  "parse_members n acc s = Some (kvs, r) \<Longrightarrow>
     distinct (map fst acc) \<Longrightarrow> list_all (\<lambda>kv. wf_json (snd kv)) acc \<Longrightarrow>
     distinct (map fst kvs) \<and> list_all (\<lambda>kv. wf_json (snd kv)) kvs"
proof (induction n s and n s and n acc s arbitrary: v r and vs r and kvs r
       rule: parse_value_parse_elems_parse_members.induct)
  case (2 n s)
  then show ?case by (auto simp: Let_def split: list.splits if_splits option.splits)
next
  case (4 n s)
  then show ?case by (auto simp: Let_def split: if_splits option.splits)
next
  case (6 n acc s)
  then show ?case
    by (auto simp: Let_def distinct_set_key wf_set_key split: if_splits option.splits)
qed simp_all

lemma JSON_parse_wf: "JSON_parse s = Inr v \<Longrightarrow> wf_json v"
  by (auto simp: JSON_parse_def simp del: parse_value.simps split: option.splits if_splits
      dest: parse_wf(1))

section \<open>Printing\<close>

text \<open>\<open>JSON.stringify(v)\<close> and, with the gap of two spaces, \<open>JSON.stringify(v, null, 2)\<close>.\<close>

definition quote_char :: "char \<Rightarrow> string" where
  "quote_char c =
     (let n = of_char c :: nat
      in if c = CHR 0x22 then [CHR 0x5C, CHR 0x22]
         else if c = CHR 0x5C then [CHR 0x5C, CHR 0x5C]
         else if n = 8 then [CHR 0x5C, CHR ''b'']
         else if n = 12 then [CHR 0x5C, CHR ''f'']
         else if n = 10 then [CHR 0x5C, CHR ''n'']
         else if n = 13 then [CHR 0x5C, CHR ''r'']
         else if n = 9 then [CHR 0x5C, CHR ''t'']
         else if n < 32 then [CHR 0x5C, CHR ''u'', CHR ''0'', CHR ''0'', digit_char (n div 16),
           (if n mod 16 < 10 then digit_char (n mod 16) else char_of (87 + n mod 16))]
         else [c])"

definition quote :: "string \<Rightarrow> string" where
  "quote s = [CHR 0x22] @ concat (map quote_char s) @ [CHR 0x22]"

definition bracket :: "string \<Rightarrow> string \<Rightarrow> string \<Rightarrow> string \<Rightarrow> string list \<Rightarrow> string" where
  "bracket gap ind l r items =
     (if items = [] then l @ r
      else if gap = [] then l @ join '','' items @ r
      else l @ [CHR 10] @ ind @ gap @ join ([CHR 44, CHR 10] @ ind @ gap) items @ [CHR 10] @ ind @ r)"

fun stringify :: "string \<Rightarrow> string \<Rightarrow> json \<Rightarrow> string" where
  "stringify gap ind JNull = ''null''"
| "stringify gap ind (JBool b) = (if b then ''true'' else ''false'')"
| "stringify gap ind (JNum x) = (case x of Fin q \<Rightarrow> num_to_string x | _ \<Rightarrow> ''null'')"
| "stringify gap ind (JStr s) = quote s"
| "stringify gap ind (JArr vs) = bracket gap ind ''['' '']'' (map (stringify gap (ind @ gap)) vs)"
| "stringify gap ind (JObj kvs) =
     bracket gap ind ''{'' ''}''
       (map (\<lambda>kv. quote (fst kv) @ (if gap = [] then '':'' else '': '') @ stringify gap (ind @ gap) (snd kv)) kvs)"

definition JSON_stringify :: "json \<Rightarrow> string" where
  "JSON_stringify v = stringify [] [] v"

definition JSON_pretty :: "json \<Rightarrow> string" where
  "JSON_pretty v = stringify ''  '' [] v"

end
