(* ===== verification/Ui.thy ===== *)
theory Ui
  imports Json
begin

text \<open>
  The part of React the views rely on: the element tree a component returns, what a user
  can do to a rendered tree, and the run of a component whose handlers are asynchronous.

  A handler runs up to its first \<open>await\<close> when its event fires and hands the rest over as a
  pending continuation; the continuation runs when its reply comes, in any order the network
  chooses.  A continuation carries what its closure captured at the render the handler
  belongs to, so that a value read after an \<open>await\<close> is the captured one, while a state
  setter acts on the state of that moment.
\<close>

section \<open>Element trees\<close>

datatype 'e attr =
    Attr string string
  | Disabled bool
  | OnClick 'e
  | OnSubmit 'e
  | OnChange "string \<Rightarrow> 'e"
  | OnToggle "bool \<Rightarrow> 'e"

datatype 'e node =
    Txt string
  | El string "'e attr list" "'e node list"

definition enabled_attrs :: "'e attr list \<Rightarrow> bool" where
  "enabled_attrs as = list_all (\<lambda>a. case a of Disabled b \<Rightarrow> \<not> b | _ \<Rightarrow> True) as"

definition attr_value :: "string \<Rightarrow> 'e attr list \<Rightarrow> string option" where
  "attr_value k as = map_of (List.map_filter (\<lambda>a. case a of Attr n v \<Rightarrow> Some (n, v) | _ \<Rightarrow> None) as) k"

definition click_attrs :: "'e attr list \<Rightarrow> 'e list" where
  "click_attrs as = List.map_filter (\<lambda>a. case a of OnClick e \<Rightarrow> Some e | _ \<Rightarrow> None) as"

definition submit_attrs :: "'e attr list \<Rightarrow> 'e list" where
  "submit_attrs as = List.map_filter (\<lambda>a. case a of OnSubmit e \<Rightarrow> Some e | _ \<Rightarrow> None) as"

definition change_attrs :: "'e attr list \<Rightarrow> (string \<Rightarrow> 'e) list" where
  "change_attrs as = List.map_filter (\<lambda>a. case a of OnChange f \<Rightarrow> Some f | _ \<Rightarrow> None) as"

definition toggle_attrs :: "'e attr list \<Rightarrow> (bool \<Rightarrow> 'e) list" where
  "toggle_attrs as = List.map_filter (\<lambda>a. case a of OnToggle f \<Rightarrow> Some f | _ \<Rightarrow> None) as"

text \<open>The elements of a tree, outermost first.\<close>

fun elements :: "'e node \<Rightarrow> (string \<times> 'e attr list \<times> 'e node list) list" where
  "elements (Txt s) = []"
| "elements (El t as cs) = (t, as, cs) # concat (map elements cs)"

fun node_text :: "'e node \<Rightarrow> string" where
  "node_text (Txt s) = s"
| "node_text (El t as cs) = concat (map node_text cs)"

text \<open>A disabled element fires no click.\<close>

definition clicks :: "'e node \<Rightarrow> 'e list" where
  "clicks n = concat (map (\<lambda>(t, as, cs). if enabled_attrs as then click_attrs as else []) (elements n))"

text \<open>A form is submitted through one of its buttons, and only an enabled one.\<close>

definition submits :: "'e node \<Rightarrow> 'e list" where
  "submits n =
     concat (map (\<lambda>(t, as, cs).
       if list_ex (\<lambda>(t', as', _). t' = ''button'' \<and> enabled_attrs as') (concat (map elements cs))
       then submit_attrs as else []) (elements n))"

definition option_values :: "'e node list \<Rightarrow> string list" where
  "option_values cs =
     List.map_filter (\<lambda>(t, as, _). if t = ''option'' then attr_value ''value'' as else None)
       (concat (map elements cs))"

text \<open>A text field reports any string, a select only the values of its options.\<close>

definition changes :: "'e node \<Rightarrow> 'e \<Rightarrow> bool" where
  "changes n e =
     list_ex (\<lambda>(t, as, cs). enabled_attrs as \<and>
       list_ex (\<lambda>f. \<exists>v. (t = ''select'' \<longrightarrow> v \<in> set (option_values cs)) \<and> e = f v) (change_attrs as))
       (elements n)"

definition toggles :: "'e node \<Rightarrow> 'e list" where
  "toggles n =
     concat (map (\<lambda>(t, as, cs). if enabled_attrs as then concat (map (\<lambda>f. [f True, f False]) (toggle_attrs as)) else [])
       (elements n))"

definition user_can :: "'e node \<Rightarrow> 'e \<Rightarrow> bool" where
  "user_can n e = (e \<in> set (clicks n) \<or> e \<in> set (submits n) \<or> changes n e \<or> e \<in> set (toggles n))"

lemma attrs_simps [simp]:
  "enabled_attrs [] = True"
  "enabled_attrs (Attr n v # as) = enabled_attrs as"
  "enabled_attrs (Disabled b # as) = (\<not> b \<and> enabled_attrs as)"
  "enabled_attrs (OnClick e # as) = enabled_attrs as"
  "enabled_attrs (OnSubmit e # as) = enabled_attrs as"
  "enabled_attrs (OnChange f # as) = enabled_attrs as"
  "enabled_attrs (OnToggle g # as) = enabled_attrs as"
  by (simp_all add: enabled_attrs_def)

lemma click_attrs_simps [simp]:
  "click_attrs [] = []"
  "click_attrs (Attr n v # as) = click_attrs as"
  "click_attrs (Disabled b # as) = click_attrs as"
  "click_attrs (OnClick e # as) = e # click_attrs as"
  "click_attrs (OnSubmit e # as) = click_attrs as"
  "click_attrs (OnChange f # as) = click_attrs as"
  "click_attrs (OnToggle g # as) = click_attrs as"
  by (simp_all add: click_attrs_def List.map_filter_def)

lemma submit_attrs_simps [simp]:
  "submit_attrs [] = []"
  "submit_attrs (Attr n v # as) = submit_attrs as"
  "submit_attrs (Disabled b # as) = submit_attrs as"
  "submit_attrs (OnClick e # as) = submit_attrs as"
  "submit_attrs (OnSubmit e # as) = e # submit_attrs as"
  "submit_attrs (OnChange f # as) = submit_attrs as"
  "submit_attrs (OnToggle g # as) = submit_attrs as"
  by (simp_all add: submit_attrs_def List.map_filter_def)

lemma change_attrs_simps [simp]:
  "change_attrs [] = []"
  "change_attrs (Attr n v # as) = change_attrs as"
  "change_attrs (Disabled b # as) = change_attrs as"
  "change_attrs (OnClick e # as) = change_attrs as"
  "change_attrs (OnSubmit e # as) = change_attrs as"
  "change_attrs (OnChange f # as) = f # change_attrs as"
  "change_attrs (OnToggle g # as) = change_attrs as"
  by (simp_all add: change_attrs_def List.map_filter_def)

lemma toggle_attrs_simps [simp]:
  "toggle_attrs [] = []"
  "toggle_attrs (Attr n v # as) = toggle_attrs as"
  "toggle_attrs (Disabled b # as) = toggle_attrs as"
  "toggle_attrs (OnClick e # as) = toggle_attrs as"
  "toggle_attrs (OnSubmit e # as) = toggle_attrs as"
  "toggle_attrs (OnChange f # as) = toggle_attrs as"
  "toggle_attrs (OnToggle g # as) = g # toggle_attrs as"
  by (simp_all add: toggle_attrs_def List.map_filter_def)

text \<open>What a user can do to a tree, by recursion on the tree.\<close>

definition has_button :: "'e node list \<Rightarrow> bool" where
  "has_button cs = list_ex (\<lambda>(t, as, _). t = ''button'' \<and> enabled_attrs as) (concat (map elements cs))"

lemma user_can_Txt [simp]: "user_can (Txt s) e = False"
  by (simp add: user_can_def clicks_def submits_def changes_def toggles_def)

lemma clicks_El:
  "e \<in> set (clicks (El t as cs)) \<longleftrightarrow>
     (enabled_attrs as \<and> e \<in> set (click_attrs as)) \<or> (\<exists>c \<in> set cs. e \<in> set (clicks c))"
  by (simp add: clicks_def)

lemma submits_El:
  "e \<in> set (submits (El t as cs)) \<longleftrightarrow>
     (has_button cs \<and> e \<in> set (submit_attrs as)) \<or> (\<exists>c \<in> set cs. e \<in> set (submits c))"
  by (simp add: submits_def has_button_def)

lemma toggles_El:
  "e \<in> set (toggles (El t as cs)) \<longleftrightarrow>
     (enabled_attrs as \<and> (\<exists>f \<in> set (toggle_attrs as). e = f True \<or> e = f False)) \<or>
     (\<exists>c \<in> set cs. e \<in> set (toggles c))"
  by (simp add: toggles_def)

lemma changes_El:
  "changes (El t as cs) e \<longleftrightarrow>
     (enabled_attrs as \<and> (\<exists>f \<in> set (change_attrs as). \<exists>v. (t = ''select'' \<longrightarrow> v \<in> set (option_values cs)) \<and> e = f v)) \<or>
     (\<exists>c \<in> set cs. changes c e)"
  by (simp add: changes_def list_ex_iff)

lemma user_can_El:
  "user_can (El t as cs) e \<longleftrightarrow>
     (enabled_attrs as \<and> e \<in> set (click_attrs as)) \<or>
     (has_button cs \<and> e \<in> set (submit_attrs as)) \<or>
     (enabled_attrs as \<and> (\<exists>f \<in> set (change_attrs as). \<exists>v. (t = ''select'' \<longrightarrow> v \<in> set (option_values cs)) \<and> e = f v)) \<or>
     (enabled_attrs as \<and> (\<exists>f \<in> set (toggle_attrs as). e = f True \<or> e = f False)) \<or>
     (\<exists>c \<in> set cs. user_can c e)"
  unfolding user_can_def clicks_El submits_El changes_El toggles_El by blast

text \<open>The common shapes, for the simplifier: an element without handlers passes its children on.\<close>

lemma user_can_plain [simp]: "user_can (El t [] cs) e = (\<exists>c \<in> set cs. user_can c e)"
  by (simp add: user_can_El)

lemma user_can_attr [simp]: "user_can (El t (Attr n v # as) cs) e = user_can (El t as cs) e"
  by (simp add: user_can_El)

lemma user_can_disabled [simp]:
  "user_can (El t (Disabled b # as) cs) e =
     (if b then (has_button cs \<and> e \<in> set (submit_attrs as)) \<or> (\<exists>c \<in> set cs. user_can c e)
      else user_can (El t as cs) e)"
  by (simp add: user_can_El)

lemma user_can_click [simp]:
  "user_can (El t (OnClick e' # as) cs) e = ((enabled_attrs as \<and> e = e') \<or> user_can (El t as cs) e)"
  by (auto simp: user_can_El)

lemma user_can_submit [simp]:
  "user_can (El t (OnSubmit e' # as) cs) e = ((has_button cs \<and> e = e') \<or> user_can (El t as cs) e)"
  by (auto simp: user_can_El)

lemma user_can_change [simp]:
  "user_can (El t (OnChange f # as) cs) e =
     ((enabled_attrs as \<and> (\<exists>v. (t = ''select'' \<longrightarrow> v \<in> set (option_values cs)) \<and> e = f v)) \<or> user_can (El t as cs) e)"
  by (auto simp: user_can_El)

lemma user_can_toggle [simp]:
  "user_can (El t (OnToggle g # as) cs) e =
     ((enabled_attrs as \<and> (e = g True \<or> e = g False)) \<or> user_can (El t as cs) e)"
  by (auto simp: user_can_El)

subsection \<open>A tree inside another\<close>

text \<open>
  A component's tree is placed in its parent's with \<open>map_node\<close>, which wraps its events; what a
  user can do to it is the same up to the wrapping.
\<close>

lemma attrs_map [simp]:
  "enabled_attrs (map (map_attr f) as) = enabled_attrs as"
  "click_attrs (map (map_attr f) as) = map f (click_attrs as)"
  "submit_attrs (map (map_attr f) as) = map f (submit_attrs as)"
  "change_attrs (map (map_attr f) as) = map (\<lambda>g v. f (g v)) (change_attrs as)"
  "toggle_attrs (map (map_attr f) as) = map (\<lambda>g v. f (g v)) (toggle_attrs as)"
proof (induction as)
  case (Cons a as)
  { case 1 show ?case using Cons by (cases a) simp_all }
  { case 2 show ?case using Cons by (cases a) simp_all }
  { case 3 show ?case using Cons by (cases a) simp_all }
  { case 4 show ?case using Cons by (cases a) (simp_all add: comp_def) }
  { case 5 show ?case using Cons by (cases a) (simp_all add: comp_def) }
qed simp_all

lemma attr_value_map [simp]: "attr_value k (map (map_attr f) as) = attr_value k as"
proof -
  have "List.map_filter (\<lambda>a. case a of Attr n v \<Rightarrow> Some (n, v) | _ \<Rightarrow> None) (map (map_attr f) as) =
      List.map_filter (\<lambda>a. case a of Attr n v \<Rightarrow> Some (n, v) | _ \<Rightarrow> None) as"
    by (induction as) (auto simp: List.map_filter_simps split: attr.splits)
  then show ?thesis by (simp add: attr_value_def)
qed

lemma elements_map: "elements (map_node f n) = map (\<lambda>(t, as, cs). (t, map (map_attr f) as, map (map_node f) cs)) (elements n)"
proof (induction n)
  case (El t as cs)
  then show ?case by (simp add: map_concat comp_def cong: map_cong)
qed simp

lemma concat_elements_map:
  "concat (map elements (map (map_node f) cs)) =
     map (\<lambda>(t, as, cs). (t, map (map_attr f) as, map (map_node f) cs)) (concat (map elements cs))"
  by (simp add: map_concat comp_def elements_map)

lemma has_button_map [simp]: "has_button (map (map_node f) cs) = has_button cs"
  unfolding has_button_def concat_elements_map by (simp add: list_ex_iff case_prod_beta)

lemma option_values_map [simp]: "option_values (map (map_node f) cs) = option_values cs"
  unfolding option_values_def concat_elements_map
  by (simp add: List.map_filter_def comp_def case_prod_beta filter_map)

lemma user_can_map: "user_can (map_node f n) e \<longleftrightarrow> (\<exists>e'. e = f e' \<and> user_can n e')"
proof (induction n)
  case (El t as cs)
  have kids: "(\<exists>c \<in> set (map (map_node f) cs). user_can c e) \<longleftrightarrow> (\<exists>e'. e = f e' \<and> (\<exists>c \<in> set cs. user_can c e'))"
    using El by auto
  show ?case
    unfolding node.map user_can_El kids by (auto; metis)
qed simp

section \<open>Runs of a component\<close>

text \<open>
  A configuration is the state of the component and the continuations that wait.  \<open>can\<close>
  says which events the environment may raise (the user on the rendered tree, a timer, a new
  property), \<open>fit\<close> which replies a continuation may receive.
\<close>

inductive view_step ::
  "('s \<Rightarrow> 'e \<Rightarrow> bool) \<Rightarrow> ('e \<Rightarrow> 's \<Rightarrow> 's \<times> 'p list) \<Rightarrow> ('p \<Rightarrow> 'r \<Rightarrow> bool) \<Rightarrow>
   ('p \<Rightarrow> 'r \<Rightarrow> 's \<Rightarrow> 's \<times> 'p list) \<Rightarrow> 's \<times> 'p list \<Rightarrow> 's \<times> 'p list \<Rightarrow> bool"
  for can handle fit resume
where
  event: "can s e \<Longrightarrow> handle e s = (s', ps) \<Longrightarrow> view_step can handle fit resume (s, q) (s', q @ ps)"
| reply: "fit p r \<Longrightarrow> resume p r s = (s', ps) \<Longrightarrow>
    view_step can handle fit resume (s, q1 @ p # q2) (s', q1 @ q2 @ ps)"

inductive view_reach ::
  "'s \<times> 'p list \<Rightarrow> ('s \<Rightarrow> 'e \<Rightarrow> bool) \<Rightarrow> ('e \<Rightarrow> 's \<Rightarrow> 's \<times> 'p list) \<Rightarrow> ('p \<Rightarrow> 'r \<Rightarrow> bool) \<Rightarrow>
   ('p \<Rightarrow> 'r \<Rightarrow> 's \<Rightarrow> 's \<times> 'p list) \<Rightarrow> 's \<times> 'p list \<Rightarrow> bool"
  for start can handle fit resume
where
  mount: "view_reach start can handle fit resume start"
| step: "view_reach start can handle fit resume c \<Longrightarrow> view_step can handle fit resume c c' \<Longrightarrow>
    view_reach start can handle fit resume c'"

inductive_cases view_stepE: "view_step can handle fit resume (s, q) c'"

lemma reach_event:
  assumes "view_reach start can handle fit resume (s, q)" and "can s e"
  shows "view_reach start can handle fit resume (fst (handle e s), q @ snd (handle e s))"
  by (rule view_reach.step [OF assms(1)]) (rule view_step.event [where e = e], rule assms(2), simp)

lemma reach_reply:
  assumes "view_reach start can handle fit resume (s, q1 @ p # q2)" and "fit p r"
  shows "view_reach start can handle fit resume (fst (resume p r s), q1 @ q2 @ snd (resume p r s))"
  by (rule view_reach.step [OF assms(1)]) (rule view_step.reply [where r = r], rule assms(2), simp)

text \<open>The same steps on configurations, for building a concrete run.\<close>

definition do_event :: "('e \<Rightarrow> 's \<Rightarrow> 's \<times> 'p list) \<Rightarrow> 'e \<Rightarrow> 's \<times> 'p list \<Rightarrow> 's \<times> 'p list" where
  "do_event handle e c = (case handle e (fst c) of (s, ps) \<Rightarrow> (s, snd c @ ps))"

definition do_reply :: "('p \<Rightarrow> 'r \<Rightarrow> 's \<Rightarrow> 's \<times> 'p list) \<Rightarrow> nat \<Rightarrow> 'r \<Rightarrow> 's \<times> 'p list \<Rightarrow> 's \<times> 'p list" where
  "do_reply resume i r c =
     (case resume (snd c ! i) r (fst c) of (s, ps) \<Rightarrow> (s, take i (snd c) @ drop (Suc i) (snd c) @ ps))"

definition try_reply ::
  "('p \<Rightarrow> 'r \<Rightarrow> bool) \<Rightarrow> ('p \<Rightarrow> 'r \<Rightarrow> 's \<Rightarrow> 's \<times> 'p list) \<Rightarrow> nat \<Rightarrow> 'r \<Rightarrow> 's \<times> 'p list \<Rightarrow> ('s \<times> 'p list) option" where
  "try_reply fit resume i r c = (if i < length (snd c) \<and> fit (snd c ! i) r then Some (do_reply resume i r c) else None)"

lemma reach_do_event:
  assumes "view_reach start can handle fit resume c" and "can (fst c) e"
  shows "view_reach start can handle fit resume (do_event handle e c)"
  using reach_event [of start can handle fit resume "fst c" "snd c" e] assms
  by (simp add: do_event_def case_prod_beta)

lemma reach_do_reply:
  assumes "view_reach start can handle fit resume c" and "i < length (snd c)" and "fit (snd c ! i) r"
  shows "view_reach start can handle fit resume (do_reply resume i r c)"
proof -
  have "snd c = take i (snd c) @ snd c ! i # drop (Suc i) (snd c)"
    using assms(2) by (simp add: id_take_nth_drop [symmetric])
  then have "view_reach start can handle fit resume (fst c, take i (snd c) @ snd c ! i # drop (Suc i) (snd c))"
    using assms(1) by (metis prod.collapse)
  then show ?thesis using reach_reply assms(3) by (fastforce simp: do_reply_def case_prod_beta)
qed

lemma reach_try_reply:
  "view_reach start can handle fit resume c \<Longrightarrow> try_reply fit resume i r c = Some c' \<Longrightarrow> view_reach start can handle fit resume c'"
  by (auto simp: try_reply_def reach_do_reply split: if_splits)

lemma reach_pair:
  assumes "view_reach start can handle fit resume c" and "snd c = q"
  shows "view_reach start can handle fit resume (fst c, q)"
  using assms by auto

text \<open>
  The interface between a component and the parent that gives it a property: the event \<open>give c\<close>
  renews the component's copy, and neither the user nor a reply changes it.
\<close>

locale prop_view =
  fixes offers :: "'s \<Rightarrow> 'e \<Rightarrow> bool"
    and handle :: "'e \<Rightarrow> 's \<Rightarrow> 's \<times> 'p list"
    and resume :: "'p \<Rightarrow> 'r \<Rightarrow> 's \<Rightarrow> 's \<times> 'p list"
    and give :: "'c \<Rightarrow> 'e"
    and taken :: "'c \<Rightarrow> 'd"
    and copy :: "'s \<Rightarrow> 'd"
  assumes copy_give: "\<And>c s. copy (fst (handle (give c) s)) = taken c"
    and copy_user: "\<And>s e. offers s e \<Longrightarrow> copy (fst (handle e s)) = copy s"
    and copy_resume: "\<And>p r s. copy (fst (resume p r s)) = copy s"
begin

lemma given: "copy (fst (do_event handle (give c) q)) = taken c"
  by (simp add: do_event_def case_prod_beta copy_give)

lemma user_keeps: "offers (fst q) e \<Longrightarrow> copy (fst (do_event handle e q)) = copy (fst q)"
  by (simp add: do_event_def case_prod_beta copy_user)

lemma reply_keeps: "try_reply fit resume i r q = Some q' \<Longrightarrow> copy (fst q') = copy (fst q)"
  by (auto simp: try_reply_def do_reply_def case_prod_beta copy_resume split: if_splits)

end

text \<open>
  A component that comes to rest: every reply leaves continuations that weigh less than the one it
  ends, so without new events the replies run out.
\<close>

locale drains =
  fixes fit :: "'p \<Rightarrow> 'r \<Rightarrow> bool"
    and resume :: "'p \<Rightarrow> 'r \<Rightarrow> 's \<Rightarrow> 's \<times> 'p list"
    and weight :: "'p \<Rightarrow> nat"
  assumes spends: "\<And>p r s. fit p r \<Longrightarrow> sum_list (map weight (snd (resume p r s))) < weight p"
    and answerable: "\<And>p. \<exists>r. fit p r"
begin

lemma reply_spends:
  assumes "try_reply fit resume i r c = Some c'"
  shows "sum_list (map weight (snd c')) < sum_list (map weight (snd c))"
proof -
  have i: "i < length (snd c)" "fit (snd c ! i) r" and c': "c' = do_reply resume i r c"
    using assms by (auto simp: try_reply_def split: if_splits)
  have "sum_list (map weight (snd c)) = sum_list (map weight (take i (snd c) @ snd c ! i # drop (Suc i) (snd c)))"
    using i(1) by (simp add: id_take_nth_drop [symmetric])
  then show ?thesis using spends [OF i(2), of "fst c"] by (simp add: c' do_reply_def case_prod_beta)
qed

lemma can_reply: "snd c \<noteq> [] \<Longrightarrow> \<exists>r c'. try_reply fit resume 0 r c = Some c'"
  using answerable [of "snd c ! 0"] by (auto simp: try_reply_def)

end

text \<open>The interface of an invariant: what every event and every reply has to keep.\<close>

locale view_invariant =
  fixes start :: "'s \<times> 'p list"
    and can :: "'s \<Rightarrow> 'e \<Rightarrow> bool"
    and handle :: "'e \<Rightarrow> 's \<Rightarrow> 's \<times> 'p list"
    and fit :: "'p \<Rightarrow> 'r \<Rightarrow> bool"
    and resume :: "'p \<Rightarrow> 'r \<Rightarrow> 's \<Rightarrow> 's \<times> 'p list"
    and inv :: "'s \<Rightarrow> 'p list \<Rightarrow> bool"
  assumes inv_start: "inv (fst start) (snd start)"
    and inv_event: "\<And>s q e. inv s q \<Longrightarrow> can s e \<Longrightarrow> inv (fst (handle e s)) (q @ snd (handle e s))"
    and inv_reply: "\<And>s q1 p q2 r. inv s (q1 @ p # q2) \<Longrightarrow> fit p r \<Longrightarrow>
          inv (fst (resume p r s)) (q1 @ q2 @ snd (resume p r s))"
begin

lemma inv_step:
  assumes "view_step can handle fit resume c c'" and "inv (fst c) (snd c)"
  shows "inv (fst c') (snd c')"
  using assms
proof (cases rule: view_step.cases)
  case (event s e s' ps q)
  then show ?thesis using assms(2) inv_event [of s q e] by simp
next
  case (reply p r s s' ps q1 q2)
  then show ?thesis using assms(2) inv_reply [of s q1 p q2 r] by simp
qed

lemma reach_inv: "view_reach start can handle fit resume c \<Longrightarrow> inv (fst c) (snd c)"
  by (induction rule: view_reach.induct) (auto intro: inv_start inv_step)

end

text \<open>
  A busy flag that locks the control which starts an operation: the laws say that an event
  starts a tracked operation only from the idle state and raises the flag when it does, and
  that the end of the operation lowers it.
\<close>

definition tracked_count :: "('p \<Rightarrow> bool) \<Rightarrow> 'p list \<Rightarrow> nat" where
  "tracked_count t q = length (filter t q)"

lemma tracked_count_simps [simp]:
  "tracked_count t [] = 0"
  "tracked_count t (p # q) = (if t p then 1 else 0) + tracked_count t q"
  "tracked_count t (q @ q') = tracked_count t q + tracked_count t q'"
  by (simp_all add: tracked_count_def)

locale single_flight =
  fixes start :: "'s \<times> 'p list"
    and can :: "'s \<Rightarrow> 'e \<Rightarrow> bool"
    and handle :: "'e \<Rightarrow> 's \<Rightarrow> 's \<times> 'p list"
    and fit :: "'p \<Rightarrow> 'r \<Rightarrow> bool"
    and resume :: "'p \<Rightarrow> 'r \<Rightarrow> 's \<Rightarrow> 's \<times> 'p list"
    and busy :: "'s \<Rightarrow> bool"
    and tracked :: "'p \<Rightarrow> bool"
  assumes idle_start: "\<not> busy (fst start) \<and> tracked_count tracked (snd start) = 0"
    and event_law: "\<And>s e. can s e \<Longrightarrow>
          (busy (fst (handle e s)) = busy s \<and> tracked_count tracked (snd (handle e s)) = 0) \<or>
          (\<not> busy s \<and> busy (fst (handle e s)) \<and> tracked_count tracked (snd (handle e s)) = 1)"
    and done_law: "\<And>s p r. fit p r \<Longrightarrow> tracked p \<Longrightarrow>
          \<not> busy (fst (resume p r s)) \<and> tracked_count tracked (snd (resume p r s)) = 0"
    and other_law: "\<And>s p r. fit p r \<Longrightarrow> \<not> tracked p \<Longrightarrow>
          busy (fst (resume p r s)) = busy s \<and> tracked_count tracked (snd (resume p r s)) = 0"
begin

definition flight_inv :: "'s \<Rightarrow> 'p list \<Rightarrow> bool" where
  "flight_inv s q = (tracked_count tracked q = (if busy s then 1 else 0))"

end

sublocale single_flight \<subseteq> view_invariant start can handle fit resume flight_inv
proof unfold_locales
  show "flight_inv (fst start) (snd start)"
    using idle_start by (simp add: flight_inv_def)
next
  fix s q e
  assume "flight_inv s q" and "can s e"
  then show "flight_inv (fst (handle e s)) (q @ snd (handle e s))"
    using event_law [of s e] by (auto simp: flight_inv_def)
next
  fix s q1 p q2 r
  assume inv: "flight_inv s (q1 @ p # q2)" and f: "fit p r"
  show "flight_inv (fst (resume p r s)) (q1 @ q2 @ snd (resume p r s))"
  proof (cases "tracked p")
    case True
    then have "tracked_count tracked q1 + tracked_count tracked q2 = 0"
      using inv by (auto simp: flight_inv_def split: if_splits)
    then show ?thesis using done_law [OF f True, of s] by (simp add: flight_inv_def)
  next
    case False
    then show ?thesis using inv other_law [OF f False, of s] by (simp add: flight_inv_def)
  qed
qed

context single_flight
begin

lemma flight_count:
  "view_reach start can handle fit resume c \<Longrightarrow>
     tracked_count tracked (snd c) = (if busy (fst c) then 1 else 0)"
  using reach_inv [of c] by (simp add: flight_inv_def)

end

text \<open>
  A weaker contract, for a view that may have several operations in flight and lowers its flag
  at the end of any of them: a raised flag is always backed by an operation that will lower it.
\<close>

locale backed_flag =
  fixes start :: "'s \<times> 'p list"
    and can :: "'s \<Rightarrow> 'e \<Rightarrow> bool"
    and handle :: "'e \<Rightarrow> 's \<Rightarrow> 's \<times> 'p list"
    and fit :: "'p \<Rightarrow> 'r \<Rightarrow> bool"
    and resume :: "'p \<Rightarrow> 'r \<Rightarrow> 's \<Rightarrow> 's \<times> 'p list"
    and busy :: "'s \<Rightarrow> bool"
    and tracked :: "'p \<Rightarrow> bool"
  assumes start_backed: "busy (fst start) \<Longrightarrow> tracked_count tracked (snd start) \<noteq> 0"
    and event_backed: "\<And>s e. can s e \<Longrightarrow> busy (fst (handle e s)) \<Longrightarrow>
          busy s \<or> tracked_count tracked (snd (handle e s)) \<noteq> 0"
    and done_backed: "\<And>s p r. fit p r \<Longrightarrow> tracked p \<Longrightarrow> busy (fst (resume p r s)) \<Longrightarrow>
          tracked_count tracked (snd (resume p r s)) \<noteq> 0"
    and other_backed: "\<And>s p r. fit p r \<Longrightarrow> \<not> tracked p \<Longrightarrow> busy (fst (resume p r s)) \<Longrightarrow>
          busy s \<or> tracked_count tracked (snd (resume p r s)) \<noteq> 0"
begin

definition backed :: "'s \<Rightarrow> 'p list \<Rightarrow> bool" where
  "backed s q = (busy s \<longrightarrow> tracked_count tracked q \<noteq> 0)"

end

sublocale backed_flag \<subseteq> view_invariant start can handle fit resume backed
proof unfold_locales
  show "backed (fst start) (snd start)" using start_backed by (simp add: backed_def)
next
  fix s q e
  assume "backed s q" and "can s e"
  then show "backed (fst (handle e s)) (q @ snd (handle e s))"
    using event_backed [of s e] by (auto simp: backed_def)
next
  fix s q1 p q2 r
  assume "backed s (q1 @ p # q2)" and "fit p r"
  then show "backed (fst (resume p r s)) (q1 @ q2 @ snd (resume p r s))"
    using done_backed [of p r s] other_backed [of p r s] by (cases "tracked p") (auto simp: backed_def)
qed

context backed_flag
begin

lemma busy_backed:
  assumes "view_reach start can handle fit resume c" and "busy (fst c)"
  shows "\<exists>p \<in> set (snd c). tracked p"
proof -
  have "filter tracked (snd c) \<noteq> []"
    using reach_inv [OF assms(1)] assms(2) by (auto simp: backed_def tracked_count_def)
  then show ?thesis by (auto simp: filter_empty_conv)
qed

end

text \<open>
  The latest request wins: a counter names the requests, a reply is taken only while its
  request is the newest, and the loading flag goes down with that reply.  \<open>issued\<close> is what
  one run of the synchronous part of a handler may do: it takes some new numbers in order,
  leaves continuations for some of them, and the flag is up exactly when the last number
  it took has one (it has none when the handler failed before it sent the request).
\<close>

definition issued :: "nat \<Rightarrow> bool \<Rightarrow> nat \<Rightarrow> bool \<Rightarrow> nat list \<Rightarrow> bool" where
  "issued l b l' b' ids =
     (l \<le> l' \<and> distinct ids \<and> set ids \<subseteq> {l<..l'} \<and> (if l' = l then b' = b else b' = (l' \<in> set ids)))"

lemma issued_refl [simp]: "issued l b l b []"
  by (simp add: issued_def)

lemma issued_one [simp]: "issued l b (Suc l) True [Suc l]"
  by (simp add: issued_def)

lemma issued_failed [simp]: "issued l b (Suc l) False []"
  by (simp add: issued_def)

lemma issued_trans: "issued l b l' b' is \<Longrightarrow> issued l' b' l'' b'' js \<Longrightarrow> issued l b l'' b'' (is @ js)"
  by (fastforce simp: issued_def split: if_splits)

locale latest_wins =
  fixes start :: "'s \<times> 'p list"
    and can :: "'s \<Rightarrow> 'e \<Rightarrow> bool"
    and handle :: "'e \<Rightarrow> 's \<Rightarrow> 's \<times> 'p list"
    and fit :: "'p \<Rightarrow> 'r \<Rightarrow> bool"
    and resume :: "'p \<Rightarrow> 'r \<Rightarrow> 's \<Rightarrow> 's \<times> 'p list"
    and latest :: "'s \<Rightarrow> nat"
    and busy :: "'s \<Rightarrow> bool"
    and rid :: "'p \<Rightarrow> nat option"
  assumes fresh_start: "issued 0 False (latest (fst start)) (busy (fst start)) (List.map_filter rid (snd start))"
    and issue_event: "\<And>s e. can s e \<Longrightarrow>
          issued (latest s) (busy s) (latest (fst (handle e s))) (busy (fst (handle e s)))
            (List.map_filter rid (snd (handle e s)))"
    and issue_reply: "\<And>s p r. fit p r \<Longrightarrow> rid p = None \<Longrightarrow>
          issued (latest s) (busy s) (latest (fst (resume p r s))) (busy (fst (resume p r s)))
            (List.map_filter rid (snd (resume p r s)))"
    and settle: "\<And>s p r n. fit p r \<Longrightarrow> rid p = Some n \<Longrightarrow>
          issued (latest s) (if n = latest s then False else busy s)
            (latest (fst (resume p r s))) (busy (fst (resume p r s)))
            (List.map_filter rid (snd (resume p r s)))"
begin

definition latest_inv :: "'s \<Rightarrow> 'p list \<Rightarrow> bool" where
  "latest_inv s q =
     (distinct (List.map_filter rid q) \<and> set (List.map_filter rid q) \<subseteq> {0<..latest s} \<and>
      busy s = (latest s \<in> set (List.map_filter rid q)))"

end

lemma map_filter_append [simp]: "List.map_filter f (xs @ ys) = List.map_filter f xs @ List.map_filter f ys"
  by (simp add: List.map_filter_def)

lemma issued_keeps:
  assumes "distinct ids" and "set ids \<subseteq> {0<..l}" and "b = (l \<in> set ids)" and "issued l b l' b' new"
  shows "distinct (ids @ new) \<and> set (ids @ new) \<subseteq> {0<..l'} \<and> b' = (l' \<in> set (ids @ new))"
  using assms by (fastforce simp: issued_def split: if_splits)

sublocale latest_wins \<subseteq> view_invariant start can handle fit resume latest_inv
proof unfold_locales
  show "latest_inv (fst start) (snd start)"
    using issued_keeps [of "[]" 0 False, OF _ _ _ fresh_start] by (simp add: latest_inv_def)
next
  fix s q e
  assume "latest_inv s q" and "can s e"
  then show "latest_inv (fst (handle e s)) (q @ snd (handle e s))"
    using issued_keeps [OF _ _ _ issue_event] unfolding latest_inv_def map_filter_append by blast
next
  fix s q1 p q2 r
  assume inv: "latest_inv s (q1 @ p # q2)" and f: "fit p r"
  let ?ids = "List.map_filter rid (q1 @ q2)"
  show "latest_inv (fst (resume p r s)) (q1 @ q2 @ snd (resume p r s))"
  proof (cases "rid p")
    case None
    then have "List.map_filter rid (q1 @ p # q2) = ?ids" by (simp add: List.map_filter_def)
    then show ?thesis
      using inv issued_keeps [of ?ids, OF _ _ _ issue_reply [OF f None, of s]]
      by (simp add: latest_inv_def)
  next
    case (Some n)
    have "distinct ?ids" "set ?ids \<subseteq> {0<..latest s}" "n \<notin> set ?ids"
      using inv Some by (auto simp: latest_inv_def)
    moreover have "(if n = latest s then False else busy s) = (latest s \<in> set ?ids)"
      using inv Some calculation(3) by (auto simp: latest_inv_def)
    ultimately show ?thesis
      using issued_keeps [of ?ids, OF _ _ _ settle [OF f Some, of s]]
      by (simp add: latest_inv_def)
  qed
qed

context latest_wins
begin

lemma busy_iff_latest_pending:
  "view_reach start can handle fit resume c \<Longrightarrow>
     busy (fst c) = (latest (fst c) \<in> set (List.map_filter rid (snd c)))"
  using reach_inv [of c] by (simp add: latest_inv_def)

lemma pending_ids:
  "view_reach start can handle fit resume c \<Longrightarrow>
     distinct (List.map_filter rid (snd c)) \<and> (\<forall>n \<in> set (List.map_filter rid (snd c)). n \<le> latest (fst c))"
  using reach_inv [of c] by (auto simp: latest_inv_def)

end

end
