(* ===== verification/Api.thy ===== *)
theory Api
  imports Ui
begin

text \<open>
  The Studio client (\<open>studio/frontend/src/api.ts\<close>) and the interfaces it exchanges
  (\<open>studio/frontend/src/types.ts\<close>).  One definition builds the fetch of every endpoint, one
  reads the server's answer.  A field the interfaces mark optional, and a list the views
  guard with \<open>|| []\<close>, is an \<open>option\<close> with \<open>None\<close> for \<open>undefined\<close> and \<open>null\<close>.
\<close>

section \<open>Interfaces\<close>

record DBStats =
  page_count :: int
  cache_hits :: int
  cache_misses :: int
  cache_hit_rate :: rat
  last_lsn :: int
  last_txn_id :: int
  read_only :: bool
  uptime_seconds :: "int option"
  queue_count :: "int option"
  queue_ready_tasks :: "int option"
  queue_inflight_tasks :: "int option"
  queue_dlq_tasks :: "int option"
  pubsub_events_count :: "int option"

record CatalogObject =
  co_id :: int
  co_type :: string
  co_name :: string
  co_root :: int
  co_flags :: int
  co_indexes :: "string list option"

record CatalogData =
  cat_buckets :: "CatalogObject list option"
  cat_collections :: "CatalogObject list option"
  cat_queues :: "CatalogObject list option"

record TimeSeriesPoint =
  tp_Timestamp :: string
  tp_Tags :: json
  tp_Fields :: json

record KVEntry =
  kv_key :: string
  kv_value :: string
  kv_size :: int
  kv_is_json :: "bool option"

record QueryResult =
  qr_documents :: "json list option"
  qr_count :: int
  qr_execution_plan :: "string option"
  qr_duration_ms :: rat

record VectorSearchResult =
  vs_id :: int
  vs_doc_id :: "string option"
  vs_distance :: rat
  vs_similarity_pct :: rat
  vs_document :: "json option"

record TextSearchResult =
  ts_record_id :: int
  ts_doc_id :: "string option"
  ts_score :: rat
  ts_document :: "json option"

record IntegrityReport =
  ir_valid :: bool
  ir_pages_checked :: int
  ir_errors :: "string list option"
  ir_warnings :: "string list option"

record QueueStats =
  ReadyCount :: int
  InFlightCount :: int
  DLQCount :: int

record QueueItem =
  qi_name :: string
  qi_stats :: "QueueStats option"
  qi_has_dlq :: bool
  qi_dlq_stats :: "QueueStats option"

record PubSubEvent =
  ev_id :: string
  ev_topic :: string
  ev_payload :: string
  ev_dedup_id :: "string option"
  ev_created_at :: string

record DequeueResult =
  dq_found :: bool
  dq_message_id :: "string option"
  dq_queue :: "string option"
  dq_payload :: "string option"
  dq_retry_count :: "int option"
  dq_priority :: "int option"
  dq_state :: "string option"

section \<open>Percent encoding\<close>

text \<open>The characters \<open>encodeURIComponent\<close> leaves as they are.\<close>

definition uri_unreserved :: "char \<Rightarrow> bool" where
  "uri_unreserved c =
     (let n = of_char c :: nat
      in (48 \<le> n \<and> n \<le> 57) \<or> (65 \<le> n \<and> n \<le> 90) \<or> (97 \<le> n \<and> n \<le> 122) \<or>
         c \<in> set [CHR ''-'', CHR ''_'', CHR ''.'', CHR ''!'', CHR ''~'', CHR ''*'', CHR 39, CHR ''('', CHR '')''])"

definition hex_char :: "nat \<Rightarrow> char" where
  "hex_char n = (if n < 10 then char_of (48 + n) else char_of (55 + n))"

definition encode_char :: "char \<Rightarrow> string" where
  "encode_char c =
     (if uri_unreserved c then [c]
      else [CHR ''%'', hex_char (of_char c div 16), hex_char (of_char c mod 16)])"

definition encodeURIComponent :: "string \<Rightarrow> string" where
  "encodeURIComponent s = concat (map encode_char s)"

text \<open>The reader of a percent-encoded component, as the server's URL parser has it.\<close>

fun decode_uri :: "string \<Rightarrow> string option" where
  "decode_uri [] = Some []"
| "decode_uri (c # r) =
     (if c = CHR ''%'' then
        (case r of
           a # b # r' \<Rightarrow>
             (case (hex_digit a, hex_digit b) of
                (Some x, Some y) \<Rightarrow> map_option (\<lambda>t. char_of (16 * x + y) # t) (decode_uri r')
              | _ \<Rightarrow> None)
         | _ \<Rightarrow> None)
      else map_option (\<lambda>t. c # t) (decode_uri r))"

section \<open>Requests\<close>

datatype http_method = GET | POST | DELETE

text \<open>The \<open>RequestInit\<close> a caller passes; a body is the text \<open>JSON.stringify\<close> gives.\<close>

record request_options =
  opt_method :: "http_method option"
  opt_headers :: "(string \<times> string) list option"
  opt_body :: "string option"

record http_request =
  url :: string
  req_method :: http_method
  req_headers :: "(string \<times> string) list"
  req_body :: "string option"

definition no_options :: request_options where
  "no_options = \<lparr>opt_method = None, opt_headers = None, opt_body = None\<rparr>"

definition post_options :: "json \<Rightarrow> request_options" where
  "post_options b = \<lparr>opt_method = Some POST, opt_headers = None, opt_body = Some (JSON_stringify b)\<rparr>"

definition BASE_URL :: string where
  "BASE_URL = ''/api''"

definition merge_headers :: "(string \<times> string) list \<Rightarrow> (string \<times> string) list \<Rightarrow> (string \<times> string) list" where
  "merge_headers a b = foldl (\<lambda>acc kv. set_key (fst kv) (snd kv) acc) a b"

text \<open>
  The fetch of \<open>request\<close>: the merged headers come first and \<open>...options\<close> last, so that
  the \<open>headers\<close> of the options, when there are any, replace the merged ones.
\<close>

definition request_init :: "string \<Rightarrow> request_options \<Rightarrow> http_request" where
  "request_init path opts =
     (let merged = merge_headers [(''Content-Type'', ''application/json'')] (or_list (opt_headers opts))
      in \<lparr>url = BASE_URL @ path,
          req_method = (case opt_method opts of None \<Rightarrow> GET | Some m \<Rightarrow> m),
          req_headers = (case opt_headers opts of None \<Rightarrow> merged | Some h \<Rightarrow> h),
          req_body = opt_body opts\<rparr>)"

text \<open>
  The server's answer: \<open>resp_json\<close> is what \<open>res.json()\<close> gives, \<open>Inl\<close> when the body is
  not JSON.
\<close>

record http_response =
  resp_ok :: bool
  resp_status :: int
  resp_statusText :: string
  resp_json :: "json outcome"

definition http_error_message :: "http_response \<Rightarrow> string" where
  "http_error_message r =
     (let d = ''HTTP Error '' @ int_to_string (resp_status r) @ '': '' @ resp_statusText r
      in case resp_json r of
           Inl _ \<Rightarrow> d
         | Inr j \<Rightarrow>
             (case get_key j ''error'' of
                Some e \<Rightarrow> if truthy (Some e) then js_to_string e else d
              | None \<Rightarrow> d))"

text \<open>The end of \<open>request\<close>: a rejected fetch, an error status, or the body.\<close>

definition request_result :: "http_response outcome \<Rightarrow> json outcome" where
  "request_result r =
     (case r of
        Inl e \<Rightarrow> Inl e
      | Inr res \<Rightarrow> if \<not> resp_ok res then Inl (Js_error (http_error_message res)) else resp_json res)"

section \<open>Endpoints\<close>

text \<open>\<open>JSON.stringify\<close> leaves out the fields that are \<open>undefined\<close>.\<close>

definition obj_of :: "(string \<times> json option) list \<Rightarrow> json" where
  "obj_of fs = JObj (List.map_filter (\<lambda>(k, v). map_option (Pair k) v) fs)"

record query_filter =
  f_field :: string
  f_op :: string
  f_value :: json

record query_payload =
  q_filters :: "query_filter list option"
  q_order_by :: "(string \<times> bool) option"
  q_limit :: "jsnum option"
  q_offset :: "jsnum option"
  q_explain :: "bool option"

definition filter_json :: "query_filter \<Rightarrow> json" where
  "filter_json f = JObj [(''field'', JStr (f_field f)), (''op'', JStr (f_op f)), (''value'', f_value f)]"

definition payload_json :: "query_payload \<Rightarrow> json" where
  "payload_json q =
     obj_of [(''filters'', map_option (\<lambda>fs. JArr (map filter_json fs)) (q_filters q)),
             (''order_by'', map_option (\<lambda>(f, d). JObj [(''field'', JStr f), (''desc'', JBool d)]) (q_order_by q)),
             (''limit'', map_option JNum (q_limit q)),
             (''offset'', map_option JNum (q_offset q)),
             (''explain'', map_option JBool (q_explain q))]"

record ts_query =
  tsq_series :: string
  tsq_start :: "string option"
  tsq_end :: "string option"
  tsq_tags :: "json option"
  tsq_limit :: "jsnum option"
  tsq_descending :: "bool option"

definition ts_query_json :: "ts_query \<Rightarrow> json" where
  "ts_query_json q =
     obj_of [(''series'', Some (JStr (tsq_series q))),
             (''start'', map_option JStr (tsq_start q)),
             (''end'', map_option JStr (tsq_end q)),
             (''tags'', tsq_tags q),
             (''limit'', map_option JNum (tsq_limit q)),
             (''descending'', map_option JBool (tsq_descending q))]"

definition point_json :: "TimeSeriesPoint \<Rightarrow> json" where
  "point_json p =
     JObj [(''Timestamp'', JStr (tp_Timestamp p)), (''Tags'', tp_Tags p), (''Fields'', tp_Fields p)]"

text \<open>The methods of the \<open>api\<close> object, with their arguments.\<close>

datatype api_call =
    getStats
  | getCatalog
  | listTimeSeries
  | queryTimeSeries ts_query
  | writeTimeSeries string TimeSeriesPoint
  | pruneTimeSeries string string
  | scanBucket string string jsnum
  | getKV string string
  | putKV string string string "jsnum option"
  | deleteKV string string
  | incrementKV string string jsnum
  | queryDocuments string query_payload
  | getDocument string string
  | insertDocument string json
  | updateDocument string string json
  | deleteDocument string string
  | searchVectors string string "json list" jsnum string
  | searchFullText string string string jsnum
  | checkIntegrity
  | checkpointWAL
  | triggerBackup "string option"
  | listQueues
  | getQueueStats string
  | enqueueTask string string "string option" jsnum jsnum
  | dequeueTask string bool
  | publishPubSub string string "string option"
  | getPubSubHistory

definition kv_path :: "string \<Rightarrow> string \<Rightarrow> string" where
  "kv_path bucket action = ''/kv/'' @ encodeURIComponent bucket @ ''/'' @ action"

definition doc_path :: "string \<Rightarrow> string \<Rightarrow> string" where
  "doc_path collection action = ''/doc/'' @ encodeURIComponent collection @ ''/'' @ action"

definition delete_options :: request_options where
  "delete_options = no_options\<lparr>opt_method := Some DELETE\<rparr>"

definition post_empty :: request_options where
  "post_empty = no_options\<lparr>opt_method := Some POST\<rparr>"

fun api_kv :: "api_call \<Rightarrow> http_request option" where
  "api_kv (scanBucket b p l) = Some (request_init
     (kv_path b ''scan'' @ ''?prefix='' @ encodeURIComponent p @ ''&limit='' @ num_to_string l) no_options)"
| "api_kv (getKV b k) = Some (request_init (kv_path b ''get'' @ ''?key='' @ encodeURIComponent k) no_options)"
| "api_kv (putKV b k v ttl) = Some (request_init (kv_path b ''put'')
     (post_options (obj_of [(''key'', Some (JStr k)), (''value'', Some (JStr v)), (''ttl'', map_option JNum ttl)])))"
| "api_kv (deleteKV b k) = Some (request_init (kv_path b ''delete'' @ ''?key='' @ encodeURIComponent k) delete_options)"
| "api_kv (incrementKV b k d) = Some (request_init (kv_path b ''incr'')
     (post_options (JObj [(''key'', JStr k), (''delta'', JNum d)])))"
| "api_kv _ = None"

fun api_doc :: "api_call \<Rightarrow> http_request option" where
  "api_doc (queryDocuments c q) = Some (request_init (doc_path c ''query'') (post_options (payload_json q)))"
| "api_doc (getDocument c i) = Some (request_init (doc_path c ''get'' @ ''?id='' @ encodeURIComponent i) no_options)"
| "api_doc (insertDocument c d) = Some (request_init (doc_path c ''insert'') (post_options d))"
| "api_doc (updateDocument c i d) =
     Some (request_init (doc_path c ''update'' @ ''?id='' @ encodeURIComponent i) (post_options d))"
| "api_doc (deleteDocument c i) =
     Some (request_init (doc_path c ''delete'' @ ''?id='' @ encodeURIComponent i) delete_options)"
| "api_doc _ = None"

fun api_series :: "api_call \<Rightarrow> http_request option" where
  "api_series listTimeSeries = Some (request_init ''/timeseries/list'' no_options)"
| "api_series (queryTimeSeries q) = Some (request_init ''/timeseries/query'' (post_options (ts_query_json q)))"
| "api_series (writeTimeSeries s p) = Some (request_init ''/timeseries/write''
     (post_options (JObj [(''series'', JStr s), (''point'', point_json p)])))"
| "api_series (pruneTimeSeries s b) = Some (request_init ''/timeseries/prune''
     (post_options (JObj [(''series'', JStr s), (''before'', JStr b)])))"
| "api_series _ = None"

fun api_messaging :: "api_call \<Rightarrow> http_request option" where
  "api_messaging listQueues = Some (request_init ''/queue/list'' no_options)"
| "api_messaging (getQueueStats n) = Some (request_init (''/queue/stats?name='' @ encodeURIComponent n) no_options)"
| "api_messaging (enqueueTask q p d pr dl) = Some (request_init ''/queue/enqueue''
     (post_options (obj_of [(''queue'', Some (JStr q)), (''payload'', Some (JStr p)),
        (''dedup_id'', map_option JStr d), (''priority'', Some (JNum pr)), (''delay_ms'', Some (JNum dl))])))"
| "api_messaging (dequeueTask q a) = Some (request_init ''/queue/dequeue''
     (post_options (JObj [(''queue'', JStr q), (''auto_ack'', JBool a)])))"
| "api_messaging (publishPubSub t p d) = Some (request_init ''/pubsub/publish''
     (post_options (obj_of [(''topic'', Some (JStr t)), (''payload'', Some (JStr p)), (''dedup_id'', map_option JStr d)])))"
| "api_messaging getPubSubHistory = Some (request_init ''/pubsub/history'' no_options)"
| "api_messaging _ = None"

fun api_other :: "api_call \<Rightarrow> http_request option" where
  "api_other getStats = Some (request_init ''/stats'' no_options)"
| "api_other getCatalog = Some (request_init ''/catalog'' no_options)"
| "api_other (searchVectors c f v k m) = Some (request_init ''/vector/search''
     (post_options (JObj [(''collection'', JStr c), (''field'', JStr f), (''vector'', JArr v),
        (''k'', JNum k), (''metric'', JStr m)])))"
| "api_other (searchFullText c f q k) = Some (request_init ''/text/search''
     (post_options (JObj [(''collection'', JStr c), (''field'', JStr f), (''query'', JStr q), (''k'', JNum k)])))"
| "api_other checkIntegrity = Some (request_init ''/integrity/check'' no_options)"
| "api_other checkpointWAL = Some (request_init ''/maintenance/checkpoint'' post_empty)"
| "api_other (triggerBackup f) = Some (request_init ''/maintenance/backup''
     (post_options (obj_of [(''filename'', map_option JStr f)])))"
| "api_other _ = None"

definition api_request :: "api_call \<Rightarrow> http_request" where
  "api_request c =
     (case api_kv c of Some r \<Rightarrow> r | None \<Rightarrow>
     (case api_doc c of Some r \<Rightarrow> r | None \<Rightarrow>
     (case api_series c of Some r \<Rightarrow> r | None \<Rightarrow>
     (case api_messaging c of Some r \<Rightarrow> r | None \<Rightarrow>
     (case api_other c of Some r \<Rightarrow> r | None \<Rightarrow> request_init [] no_options)))))"

section \<open>Round trips of the URLs\<close>

lemma hex_digit_char: "n < 16 \<Longrightarrow> hex_digit (hex_char n) = Some n"
  by (auto simp: hex_digit_def hex_char_def)

lemma uri_unreserved_safe: "uri_unreserved c \<Longrightarrow> c \<notin> {CHR ''%'', CHR ''/'', CHR ''?'', CHR ''&'', CHR ''='', CHR ''#''}"
  by (auto simp: uri_unreserved_def)

lemma hex_char_unreserved: "n < 16 \<Longrightarrow> uri_unreserved (hex_char n)"
  by (auto simp: uri_unreserved_def hex_char_def)

lemma byte_digits: "(of_char c :: nat) div 16 < 16" "(of_char c :: nat) mod 16 < 16"
  using nat_of_char_less_256 [of c] by (simp_all add: less_mult_imp_div_less)

lemma decode_encode_char: "decode_uri (encode_char c @ t) = map_option (Cons c) (decode_uri t)"
  using uri_unreserved_safe [of c] byte_digits [of c]
  by (simp add: encode_char_def hex_digit_char)

lemma decode_encode [simp]: "decode_uri (encodeURIComponent s) = Some s"
proof -
  have "decode_uri (concat (map encode_char s)) = Some s"
    by (induction s) (simp_all add: decode_encode_char)
  then show ?thesis by (simp add: encodeURIComponent_def)
qed

lemma encode_chars: "c \<in> set (encodeURIComponent s) \<Longrightarrow> uri_unreserved c \<or> c = CHR ''%''"
  using byte_digits by (auto simp: encodeURIComponent_def encode_char_def hex_char_unreserved split: if_splits)

lemma encode_free [simp]:
  "CHR ''/'' \<notin> set (encodeURIComponent s)" "CHR ''?'' \<notin> set (encodeURIComponent s)"
  "CHR ''&'' \<notin> set (encodeURIComponent s)" "CHR ''='' \<notin> set (encodeURIComponent s)"
  using encode_chars [of _ s] uri_unreserved_safe by blast+

text \<open>
  The generic syntax of a URL: the path up to the question mark, its segments, and the
  name-value pairs of the query, each percent-decoded.
\<close>

definition url_path :: "string \<Rightarrow> string" where
  "url_path u = takeWhile (\<lambda>c. c \<noteq> CHR ''?'') u"

definition url_segments :: "string \<Rightarrow> string option list" where
  "url_segments u = map decode_uri (split_on (CHR ''/'') (url_path u))"

definition url_params :: "string \<Rightarrow> string option list list" where
  "url_params u =
     (case dropWhile (\<lambda>c. c \<noteq> CHR ''?'') u of
        [] \<Rightarrow> []
      | _ # q \<Rightarrow> map (\<lambda>p. map decode_uri (split_on (CHR ''='') p)) (split_on (CHR ''&'') q))"

text \<open>What a call on a bucket or a collection addresses: the kind, the name, the action and the parameters.\<close>

fun call_target :: "api_call \<Rightarrow> (string \<times> string \<times> string \<times> string list list) option" where
  "call_target (scanBucket b p l) = Some (''kv'', b, ''scan'', [[''prefix'', p], [''limit'', num_to_string l]])"
| "call_target (getKV b k) = Some (''kv'', b, ''get'', [[''key'', k]])"
| "call_target (putKV b k v t) = Some (''kv'', b, ''put'', [])"
| "call_target (deleteKV b k) = Some (''kv'', b, ''delete'', [[''key'', k]])"
| "call_target (incrementKV b k d) = Some (''kv'', b, ''incr'', [])"
| "call_target (queryDocuments c q) = Some (''doc'', c, ''query'', [])"
| "call_target (getDocument c i) = Some (''doc'', c, ''get'', [[''id'', i]])"
| "call_target (insertDocument c d) = Some (''doc'', c, ''insert'', [])"
| "call_target (updateDocument c i d) = Some (''doc'', c, ''update'', [[''id'', i]])"
| "call_target (deleteDocument c i) = Some (''doc'', c, ''delete'', [[''id'', i]])"
| "call_target _ = None"

fun plain_limit :: "api_call \<Rightarrow> bool" where
  "plain_limit (scanBucket b p l) = list_all uri_unreserved (num_to_string l)"
| "plain_limit _ = True"

lemma unreserved_decode: "list_all uri_unreserved s \<Longrightarrow> decode_uri s = Some s"
proof (induction s)
  case (Cons c s)
  then show ?case using uri_unreserved_safe [of c] by simp
qed simp

lemma unreserved_free:
  "list_all uri_unreserved s \<Longrightarrow> CHR ''&'' \<notin> set s \<and> CHR ''='' \<notin> set s"
  using uri_unreserved_safe by (auto simp: list_all_iff)

lemma unreserved_safe_set:
  "list_all uri_unreserved s \<Longrightarrow> CHR ''/'' \<notin> set s \<and> CHR ''?'' \<notin> set s \<and> CHR ''&'' \<notin> set s \<and> CHR ''='' \<notin> set s"
  using uri_unreserved_safe by (auto simp: list_all_iff)

definition entity_url :: "string \<Rightarrow> string \<Rightarrow> string \<Rightarrow> string" where
  "entity_url kind n action = ''/api/'' @ kind @ ''/'' @ encodeURIComponent n @ ''/'' @ action"

lemma entity_url_segments:
  assumes "list_all uri_unreserved kind" and "list_all uri_unreserved action"
  shows "map decode_uri (split_on (CHR ''/'') (entity_url kind n action)) = map Some [[], ''api'', kind, n, action]"
  using unreserved_safe_set [OF assms(1)] unreserved_safe_set [OF assms(2)]
    unreserved_decode [OF assms(1)] unreserved_decode [OF assms(2)]
  by (simp add: entity_url_def split_on.simps split_on_append split_on_free)

lemma entity_url_no_query:
  assumes "list_all uri_unreserved kind" and "list_all uri_unreserved action"
  shows "CHR ''?'' \<notin> set (entity_url kind n action)"
  using unreserved_safe_set [OF assms(1)] unreserved_safe_set [OF assms(2)] by (simp add: entity_url_def)

lemma url_split:
  assumes "CHR ''?'' \<notin> set u"
  shows "url_path u = u" "url_path (u @ CHR ''?'' # q) = u" "url_params u = []"
    "url_params (u @ CHR ''?'' # q) = map (\<lambda>p. map decode_uri (split_on (CHR ''='') p)) (split_on (CHR ''&'') q)"
proof -
  have u: "takeWhile (\<lambda>c. c \<noteq> CHR ''?'') u = u" "dropWhile (\<lambda>c. c \<noteq> CHR ''?'') u = []"
    using assms by (auto simp: takeWhile_eq_all_conv dropWhile_eq_Nil_conv)
  show "url_path u = u" "url_params u = []"
    by (simp_all add: url_path_def url_params_def u)
  show "url_path (u @ CHR ''?'' # q) = u"
    using assms by (simp add: url_path_def takeWhile_append u)
  show "url_params (u @ CHR ''?'' # q) = map (\<lambda>p. map decode_uri (split_on (CHR ''='') p)) (split_on (CHR ''&'') q)"
    using assms by (simp add: url_params_def dropWhile_append u)
qed

lemma entity_calls:
  "url (request_init (kv_path n a) opts) = entity_url ''kv'' n a"
  "url (request_init (kv_path n a @ r) opts) = entity_url ''kv'' n a @ r"
  "url (request_init (doc_path n a) opts) = entity_url ''doc'' n a"
  "url (request_init (doc_path n a @ r) opts) = entity_url ''doc'' n a @ r"
  by (simp_all add: request_init_def BASE_URL_def kv_path_def doc_path_def entity_url_def Let_def)

lemma literal_unreserved:
  "list_all uri_unreserved ''kv''" "list_all uri_unreserved ''doc''" "list_all uri_unreserved ''scan''"
  "list_all uri_unreserved ''get''" "list_all uri_unreserved ''put''" "list_all uri_unreserved ''delete''"
  "list_all uri_unreserved ''incr''" "list_all uri_unreserved ''query''" "list_all uri_unreserved ''insert''"
  "list_all uri_unreserved ''update''" "list_all uri_unreserved ''key''" "list_all uri_unreserved ''id''"
  "list_all uri_unreserved ''prefix''" "list_all uri_unreserved ''limit''"
  by (simp_all add: uri_unreserved_def)

lemma param_decode:
  assumes "list_all uri_unreserved k"
  shows "map decode_uri (split_on (CHR ''='') (k @ CHR ''='' # encodeURIComponent v)) = [Some k, Some v]"
  using unreserved_safe_set [OF assms] unreserved_decode [OF assms] by (simp add: split_on_append split_on_free)

lemma one_param:
  assumes "list_all uri_unreserved k"
  shows "map (\<lambda>p. map decode_uri (split_on (CHR ''='') p)) (split_on (CHR ''&'') (k @ CHR ''='' # encodeURIComponent v))
     = [[Some k, Some v]]"
  using param_decode [OF assms] unreserved_safe_set [OF assms] by (simp add: split_on_free)

lemma scan_params:
  assumes "list_all uri_unreserved l"
  shows "map (\<lambda>p. map decode_uri (split_on (CHR ''='') p))
       (split_on (CHR ''&'') (''prefix='' @ encodeURIComponent v @ ''&limit='' @ l))
     = [[Some ''prefix'', Some v], [Some ''limit'', Some l]]"
proof -
  have "split_on (CHR ''&'') ((''prefix='' @ encodeURIComponent v) @ CHR ''&'' # (''limit='' @ l))
      = [''prefix='' @ encodeURIComponent v, ''limit='' @ l]"
    using unreserved_safe_set [OF assms] by (subst split_on_append) (simp_all add: split_on_free)
  moreover have "map decode_uri (split_on (CHR ''='') (''limit'' @ CHR ''='' # l)) = [Some ''limit'', Some l]"
    using unreserved_safe_set [OF assms] unreserved_decode [OF assms]
    by (subst split_on_append) (simp_all add: split_on_free)
  ultimately show ?thesis
    using param_decode [OF literal_unreserved(13), of v] by simp
qed

lemma entity_target:
  assumes "list_all uri_unreserved kind" and "list_all uri_unreserved action"
  shows "url_segments (entity_url kind n action) = map Some [[], ''api'', kind, n, action]"
    "url_params (entity_url kind n action) = []"
    "url_segments (entity_url kind n action @ CHR ''?'' # q) = map Some [[], ''api'', kind, n, action]"
    "url_params (entity_url kind n action @ CHR ''?'' # q) =
       map (\<lambda>p. map decode_uri (split_on (CHR ''='') p)) (split_on (CHR ''&'') q)"
  by (simp_all only: url_segments_def url_split [OF entity_url_no_query [OF assms]] entity_url_segments [OF assms])

lemmas target_simps =
  api_request_def entity_calls
  entity_target [OF literal_unreserved(1) literal_unreserved(3)] entity_target [OF literal_unreserved(1) literal_unreserved(4)]
  entity_target [OF literal_unreserved(1) literal_unreserved(5)] entity_target [OF literal_unreserved(1) literal_unreserved(6)]
  entity_target [OF literal_unreserved(1) literal_unreserved(7)] entity_target [OF literal_unreserved(2) literal_unreserved(4)]
  entity_target [OF literal_unreserved(2) literal_unreserved(6)] entity_target [OF literal_unreserved(2) literal_unreserved(8)]
  entity_target [OF literal_unreserved(2) literal_unreserved(9)] entity_target [OF literal_unreserved(2) literal_unreserved(10)]
  one_param [OF literal_unreserved(11), unfolded append_Cons append_Nil]
  one_param [OF literal_unreserved(12), unfolded append_Cons append_Nil]



text \<open>
  C14.  Every request of the client is for a path under \<open>/api/\<close>, carries the JSON
  content type and no other header, and has a body only when it is a POST.
\<close>

theorem api_request_wellformed:
  "starts (url (api_request call)) ''/api/'' \<and> req_headers (api_request call) = [(''Content-Type'', ''application/json'')]
     \<and> (req_body (api_request call) \<noteq> None \<longrightarrow> req_method (api_request call) = POST)"
  by (cases call)
    (simp_all add: api_request_def request_init_def kv_path_def doc_path_def BASE_URL_def no_options_def post_options_def
      delete_options_def post_empty_def merge_headers_def)

theorem api_request_wellformed_witness:
  "req_method (api_request (insertDocument ''c'' JNull)) = POST"
  using api_request_wellformed [of "insertDocument ''c'' JNull"]
  by (simp add: api_request_def request_init_def post_options_def)



end
