(* ===== verification/Json_Laws.thy ===== *)
theory Json_Laws
  imports Json
begin

text \<open>
  Laws of the JSON codec: the parser's fuel is enough for every text, what \<open>JSON.stringify\<close>
  prints (with and without indentation) is read back as the same value, and what the
  parser reads satisfies the condition of that round trip unless it holds a number beyond
  the range of a double.
\<close>

section \<open>The parser does not depend on its fuel\<close>

lemma skip_ws_length: "length (skip_ws s) \<le> length s"
  by (simp add: skip_ws_def length_dropWhile_le)

lemma read_string_length: "read_string s = Some (b, r) \<Longrightarrow> length r < length s"
proof (induction s arbitrary: b r rule: read_string.induct)
  case (1 s)
  show ?case
  proof (cases s)
    case (Cons c t)
    then show ?thesis
      using "1.prems" "1.IH" [OF Cons]
      by (subst (asm) read_string.simps) (fastforce split: if_splits option.splits dest: read_escape_length)
  qed (use "1.prems" in \<open>simp add: read_string.simps\<close>)
qed

lemma read_fraction_length: "length (snd (read_fraction s)) \<le> length s"
  by (auto simp: read_fraction_def length_dropWhile_le le_SucI split: list.splits char.splits bool.splits)

lemma read_exponent_length: "length (snd (read_exponent s)) \<le> length s"
proof (cases s)
  case (Cons c r)
  have "length (dropWhile is_digit (tl r)) \<le> Suc (length r)" "length (dropWhile is_digit r) \<le> Suc (length r)"
    using length_dropWhile_le [of is_digit "tl r"] length_dropWhile_le [of is_digit r] by simp_all
  with Cons show ?thesis by (simp add: read_exponent_def Let_def)
qed (simp add: read_exponent_def)

lemma read_number_length:
  assumes "read_number s = Some (x, r)"
  shows "length r < length s"
proof -
  define t where "t = (if s \<noteq> [] \<and> hd s = CHR ''-'' then tl s else s)"
  define u where "u = snd (read_fraction (dropWhile is_digit t))"
  have "takeWhile is_digit t \<noteq> []" and r: "r = snd (read_exponent u)"
    using assms unfolding t_def u_def by (auto simp: read_number_def Let_def case_prod_beta split: if_splits)
  then have "length (dropWhile is_digit t) < length t"
    by (metis append_Nil length_append less_add_same_cancel2 length_greater_0_conv takeWhile_dropWhile_id)
  moreover have "length t \<le> length s" by (simp add: t_def)
  moreover have "length u \<le> length (dropWhile is_digit t)" unfolding u_def by (rule read_fraction_length)
  moreover have "length r \<le> length u" unfolding r by (rule read_exponent_length)
  ultimately show ?thesis by linarith
qed

lemma tl_skip_ws: "starts (skip_ws s) [c] \<Longrightarrow> length (tl (skip_ws s)) < length s"
  using skip_ws_length [of s] by (cases "skip_ws s") auto

lemma parse_consumes:
  "parse_value n s = Some (v, r) \<Longrightarrow> length r < length s"
  "parse_elems n s = Some (vs, r) \<Longrightarrow> length r < length s"
  "parse_members n acc s = Some (kvs, r) \<Longrightarrow> length r < length s"
proof (induction n s and n s and n acc s arbitrary: v r and vs r and kvs r
       rule: parse_value_parse_elems_parse_members.induct)
  case (2 n s)
  have len: "length (skip_ws s) \<le> length s" by (rule skip_ws_length)
  show ?case
  proof (cases "skip_ws s")
    case Nil
    then show ?thesis using "2.prems" by simp
  next
    case (Cons c t)
    have t: "length (skip_ws t) \<le> length t" by (rule skip_ws_length)
    have lit: "starts (c # t) p \<Longrightarrow> 0 < length p \<Longrightarrow> length (drop (length p) (c # t)) < length s" for p
      using len Cons by (cases p) auto
    show ?thesis
      using "2.prems" "2.IH" [OF refl Cons] len t Cons lit [of "''null''"] lit [of "''true''"] lit [of "''false''"]
      by (auto simp: Let_def split: if_splits dest!: read_string_length read_number_length)
  qed
next
  case (4 n s)
  then show ?case
    by (fastforce simp: Let_def split: if_splits option.splits dest: tl_skip_ws)
next
  case (6 n acc s)
  let ?t = "skip_ws s"
  have st: "starts ?t [CHR 0x22]" using "6.prems" by (simp add: Let_def split: if_splits)
  obtain k u where u: "read_string (tl ?t) = Some (k, u)"
    using "6.prems" st by (auto simp: Let_def split: option.splits)
  have co: "starts (skip_ws u) '':''" using "6.prems" st u by (simp add: Let_def split: if_splits)
  obtain v' w where w: "parse_value n (tl (skip_ws u)) = Some (v', w)"
    using "6.prems" st u co by (auto simp: Let_def split: option.splits)
  have "length w < length s"
    using "6.IH"(1) [OF refl _ u refl refl _ w] st co tl_skip_ws [OF st] read_string_length [OF u] tl_skip_ws [OF co] by fastforce
  moreover have "starts (skip_ws w) '','' \<Longrightarrow> parse_members n (set_key k v' acc) (tl (skip_ws w)) = Some (kvs, r) \<Longrightarrow> length r < length w"
    using "6.IH"(2) [OF refl _ u refl refl _ w] st co tl_skip_ws [of w] by fastforce
  ultimately show ?case
    using "6.prems" st u co w tl_skip_ws [of w] by (fastforce simp: Let_def split: if_splits)
qed simp_all

text \<open>One call of the parser looks at shorter inputs only.\<close>

lemma value_cong:
  assumes "\<And>w. length w < length s \<Longrightarrow> parse_elems k w = parse_elems n w"
    and "\<And>w. length w < length s \<Longrightarrow> parse_members k [] w = parse_members n [] w"
  shows "parse_value (Suc k) s = parse_value (Suc n) s"
proof (cases "skip_ws s")
  case (Cons c t)
  then have "length t < length s" using skip_ws_length [of s] by simp
  then show ?thesis using assms Cons by (simp add: Let_def)
qed simp

lemma elems_cong:
  assumes "parse_value k s = parse_value n s" and "\<And>w. length w < length s \<Longrightarrow> parse_elems k w = parse_elems n w"
  shows "parse_elems (Suc k) s = parse_elems (Suc n) s"
proof (cases "parse_value n s")
  case (Some a)
  obtain x r where a: "a = (x, r)" by (cases a)
  then have "length r < length s" using Some parse_consumes(1) by simp
  then have "parse_elems k (tl (skip_ws r)) = parse_elems n (tl (skip_ws r))" if "starts (skip_ws r) '',''"
    using tl_skip_ws [OF that] by (intro assms(2)) simp
  then show ?thesis using Some a assms(1) by (simp add: Let_def)
qed (simp add: assms(1))

lemma members_cong:
  assumes val: "\<And>w. length w < length s \<Longrightarrow> parse_value k w = parse_value n w"
    and mem: "\<And>acc w. length w < length s \<Longrightarrow> parse_members k acc w = parse_members n acc w"
  shows "parse_members (Suc k) acc s = parse_members (Suc n) acc s"
proof (cases "starts (skip_ws s) [CHR 0x22] \<and> read_string (tl (skip_ws s)) \<noteq> None")
  case True
  then obtain key u where st: "starts (skip_ws s) [CHR 0x22]" and u: "read_string (tl (skip_ws s)) = Some (key, u)" by auto
  have lu: "length u < length s" using tl_skip_ws [OF st] read_string_length [OF u] by simp
  let ?w = "tl (skip_ws u)"
  have rest: "parse_members k (set_key key x acc) (tl (skip_ws r)) = parse_members n (set_key key x acc) (tl (skip_ws r))"
    if "parse_value n ?w = Some (x, r)" "starts (skip_ws r) '',''" "starts (skip_ws u) '':''" for x r
    using parse_consumes(1) [OF that(1)] tl_skip_ws [OF that(2)] tl_skip_ws [OF that(3)] lu by (intro mem) simp
  have "parse_value k ?w = parse_value n ?w" if "starts (skip_ws u) '':''"
    using tl_skip_ws [OF that] lu by (intro val) simp
  then show ?thesis using st u rest by (auto simp: Let_def split: option.splits)
qed (auto simp: Let_def split: option.splits)

text \<open>
  A value of \<open>l\<close> characters needs at most \<open>2 * l + 1\<close> nested calls, a list of elements or
  members one more: with that much fuel, more of it changes nothing.
\<close>

lemma parse_stable:
  "(2 * length s + 1 \<le> n \<longrightarrow> n \<le> m \<longrightarrow> parse_value m s = parse_value n s) \<and>
   (2 * length s + 2 \<le> n \<longrightarrow> n \<le> m \<longrightarrow> parse_elems m s = parse_elems n s) \<and>
   (2 * length s + 2 \<le> n \<longrightarrow> n \<le> m \<longrightarrow> parse_members m acc s = parse_members n acc s)"
proof (induction n arbitrary: m s acc)
  case (Suc n)
  show ?case
  proof (cases m)
    case (Suc k)
    have more: "parse_elems k w = parse_elems n w" "parse_members k acc' w = parse_members n acc' w" "parse_value k w = parse_value n w"
      if "length w < length s" "2 * length s + 1 \<le> Suc n" "n \<le> k" for w acc'
      using Suc.IH [of w k acc'] that by auto
    have same: "parse_value k s = parse_value n s" if "2 * length s + 2 \<le> Suc n" "n \<le> k"
      using Suc.IH [of s k] that by auto
    show ?thesis
      unfolding Suc using more same by (intro conjI impI value_cong elems_cong members_cong) auto
  qed simp
qed simp

text \<open>So the bound \<open>JSON_parse\<close> chooses never cuts a parse short.\<close>

definition parses :: "string \<Rightarrow> json \<Rightarrow> string \<Rightarrow> bool" where
  "parses s v r = (\<exists>n. \<forall>m \<ge> n. parse_value m s = Some (v, r))"

lemma JSON_parse_iff: "JSON_parse s = Inr v \<longleftrightarrow> (\<exists>r. parses s v r \<and> skip_ws r = [])"
proof -
  let ?N = "2 * length s + 2"
  have stable: "parse_value m s = parse_value ?N s" if "?N \<le> m" for m
    using parse_stable [of s ?N m] that by simp
  have "parses s v r \<longleftrightarrow> parse_value ?N s = Some (v, r)" for r
    unfolding parses_def using stable by (metis nle_le)
  then show ?thesis unfolding JSON_parse_def by (auto simp del: parse_value.simps split: option.splits)
qed

section \<open>What is printed is read back\<close>

subsection \<open>Strings\<close>

lemma hex_digit_low: "k < 16 \<Longrightarrow> hex_digit (if k < 10 then digit_char k else char_of (87 + k)) = Some k"
  by (auto simp: hex_digit_def digit_char_def Let_def)

lemma read_string_escape:
  "read_escape r = Some (b, r') \<Longrightarrow> read_string (CHR 0x5C # r) = map_option (\<lambda>(t, u). (b @ t, u)) (read_string r')"
  by (subst read_string.simps) simp

lemma read_string_plain:
  "c \<noteq> CHR 0x22 \<Longrightarrow> c \<noteq> CHR 0x5C \<Longrightarrow> 32 \<le> (of_char c :: nat) \<Longrightarrow>
     read_string (c # r) = map_option (\<lambda>(t, u). (c # t, u)) (read_string r)"
  by (subst read_string.simps) simp

lemma read_short_escape:
  "c \<in> {CHR 0x22, CHR 0x5C, CHR 8, CHR 12, CHR 10, CHR 13, CHR 9} \<Longrightarrow>
     \<exists>d. quote_char c = [CHR 0x5C, d] \<and> read_escape (d # t) = Some ([c], t)"
  by (elim insertE emptyE; hypsubst; simp add: quote_char_def read_escape_def Let_def)

lemma read_unicode_escape:
  assumes n: "n < 32" and x: "x = digit_char (n div 16)" and y: "y = (if n mod 16 < 10 then digit_char (n mod 16) else char_of (87 + n mod 16))"
  shows "read_escape (CHR ''u'' # CHR ''0'' # CHR ''0'' # x # y # t) = Some ([char_of n], t)"
proof -
  have "n div 16 < 10" using n by simp
  then have "hex_digit x = Some (n div 16)" using hex_digit_low [of "n div 16"] x by simp
  moreover have "hex_digit (CHR ''0'') = Some 0" by (simp add: hex_digit_def Let_def)
  moreover have "hex_digit y = Some (n mod 16)" unfolding y by (rule hex_digit_low) simp
  ultimately have "read_hex4 (CHR ''0'' # CHR ''0'' # x # y # t) = Some (n, t)" by simp
  then show ?thesis using n by (simp add: read_escape_def utf8_def)
qed

lemma read_quote_char: "read_string (quote_char c @ t) = map_option (\<lambda>(u, r). (c # u, r)) (read_string t)"
proof -
  consider (short) "c \<in> {CHR 0x22, CHR 0x5C, CHR 8, CHR 12, CHR 10, CHR 13, CHR 9}"
    | (control) "c \<notin> {CHR 0x22, CHR 0x5C, CHR 8, CHR 12, CHR 10, CHR 13, CHR 9}" "(of_char c :: nat) < 32"
    | (plain) "c \<notin> {CHR 0x22, CHR 0x5C}" "32 \<le> (of_char c :: nat)"
    by fastforce
  then show ?thesis
  proof cases
    case short
    then show ?thesis using read_short_escape [OF short, of t] read_string_escape by fastforce
  next
    case control
    have "of_char c \<noteq> (of_char (CHR 8) :: nat) \<and> of_char c \<noteq> (of_char (CHR 12) :: nat) \<and> of_char c \<noteq> (of_char (CHR 10) :: nat)
        \<and> of_char c \<noteq> (of_char (CHR 13) :: nat) \<and> of_char c \<noteq> (of_char (CHR 9) :: nat)"
      using control(1) unfolding of_char_eq_iff by simp
    then show ?thesis
      using control read_string_escape [OF read_unicode_escape [OF control(2) refl refl, of t]]
      by (simp add: quote_char_def Let_def)
  next
    case plain
    then show ?thesis using read_string_plain [of c t] by (simp add: quote_char_def Let_def)
  qed
qed

lemma read_quote: "read_string (concat (map quote_char s) @ CHR 0x22 # r) = Some (s, r)"
proof (induction s)
  case Nil
  then show ?case by (subst read_string.simps) simp
qed (simp add: read_quote_char)

subsection \<open>Numbers\<close>

text \<open>A number ends where none of its characters follows.\<close>

definition ends_number :: "string \<Rightarrow> bool" where
  "ends_number r = (r = [] \<or> \<not> is_digit (hd r) \<and> hd r \<notin> {CHR ''.'', CHR ''e'', CHR ''E''})"

definition digit_string :: "string \<Rightarrow> bool" where
  "digit_string ds = list_all is_digit ds"

lemma digit_string_simps [simp]:
  "digit_string []" "digit_string (c # ds) \<longleftrightarrow> is_digit c \<and> digit_string ds"
  "digit_string (ds @ es) \<longleftrightarrow> digit_string ds \<and> digit_string es"
  "digit_string (replicate n (CHR ''0''))" "digit_string (nat_to_string n)"
  using nat_to_string_digits by (auto simp: digit_string_def list_all_iff is_digit_def)

lemma digit_string_cut: "digit_string ds \<Longrightarrow> digit_string (take n ds)" "digit_string ds \<Longrightarrow> digit_string (drop n ds)"
  by (auto simp: digit_string_def list_all_iff dest: in_set_takeD in_set_dropD)

lemma is_digit_special [simp]:
  "is_digit (CHR ''0'')" "\<not> is_digit (CHR ''-'')" "\<not> is_digit (CHR ''.'')" "\<not> is_digit (CHR ''e'')" "\<not> is_digit (CHR ''+'')"
  by (simp_all add: is_digit_def)

lemma digits_then:
  assumes "digit_string ds" and "r = [] \<or> \<not> is_digit (hd r)"
  shows "takeWhile is_digit (ds @ r) = ds" "dropWhile is_digit (ds @ r) = r"
proof -
  have "\<forall>c \<in> set ds. is_digit c" using assms(1) by (simp add: digit_string_def list_all_iff)
  then show "takeWhile is_digit (ds @ r) = ds" "dropWhile is_digit (ds @ r) = r"
    using assms(2) by (cases r; simp add: takeWhile_append2 dropWhile_append2)+
qed

lemma foldl_digits: "foldl (\<lambda>n c. 10 * n + digit_val c) a ds = a * 10 ^ length ds + digits_val ds"
proof (induction ds arbitrary: a)
  case (Cons c ds)
  show ?case
    unfolding digits_val_def foldl_Cons Cons [of "10 * a + digit_val c"] Cons [of "10 * 0 + digit_val c"]
    by (simp add: algebra_simps)
qed (simp add: digits_val_def)

lemma digits_val_append: "digits_val (ds @ es) = digits_val ds * 10 ^ length es + digits_val es"
  using foldl_digits [of "digits_val ds" es] by (simp add: digits_val_def)

lemma digits_val_all_zeros [simp]: "digits_val (replicate n (CHR ''0'')) = 0"
  by (induction n) (simp_all add: digits_val_def digit_val_def)

lemma digits_val_lead_zeros: "digits_val (replicate n (CHR ''0'') @ ds) = digits_val ds"
  by (simp add: digits_val_append)

text \<open>An unsigned literal of an integer part, a fraction and an exponent.\<close>

definition literal :: "string \<Rightarrow> string \<Rightarrow> int \<Rightarrow> string" where
  "literal ip fp e =
     ip @ (if fp = [] then [] else CHR ''.'' # fp) @
     (if e = 0 then [] else ''e'' @ (if e < 0 then ''-'' else ''+'') @ nat_to_string (nat \<bar>e\<bar>))"

lemma read_fraction_literal:
  assumes "digit_string fp" and "r = [] \<or> \<not> is_digit (hd r) \<and> hd r \<noteq> CHR ''.''"
  shows "read_fraction ((if fp = [] then [] else CHR ''.'' # fp) @ r) = (fp, r)"
proof (cases "fp = []")
  case True
  then show ?thesis using assms(2) by (cases r) (auto simp: read_fraction_def split: char.splits bool.splits)
next
  case False
  then show ?thesis using digits_then [OF assms(1)] assms(2) by (auto simp: read_fraction_def)
qed

lemma read_exponent_literal:
  assumes "ends_number r"
  shows "read_exponent ((if e = 0 then [] else ''e'' @ (if e < 0 then ''-'' else ''+'') @ nat_to_string (nat \<bar>e\<bar>)) @ r) = (e, r)"
proof (cases "e = 0")
  case True
  then show ?thesis using assms by (cases r) (auto simp: read_exponent_def ends_number_def)
next
  case False
  have "takeWhile is_digit (nat_to_string (nat \<bar>e\<bar>) @ r) = nat_to_string (nat \<bar>e\<bar>)"
       "dropWhile is_digit (nat_to_string (nat \<bar>e\<bar>) @ r) = r"
    using digits_then [of "nat_to_string (nat \<bar>e\<bar>)" r] assms by (auto simp: ends_number_def)
  moreover have "[] \<noteq> nat_to_string k" for k using nat_to_string_nonempty by metis
  ultimately show ?thesis using False by (auto simp: read_exponent_def Let_def)
qed

lemma read_number_literal:
  assumes ip: "digit_string ip" "ip \<noteq> []" "hd ip \<noteq> CHR ''0'' \<or> length ip = 1" and fp: "digit_string fp" and r: "ends_number r"
  shows "read_number (literal ip fp e @ r) = Some (num_of_rat (scale10 (digits_val (ip @ fp)) (e - int (length fp))), r)"
    and "read_number (CHR ''-'' # literal ip fp e @ r) =
      Some (num_neg (num_of_rat (scale10 (digits_val (ip @ fp)) (e - int (length fp)))), r)"
proof -
  let ?x = "(if e = 0 then [] else ''e'' @ (if e < 0 then ''-'' else ''+'') @ nat_to_string (nat \<bar>e\<bar>)) @ r"
  let ?f = "(if fp = [] then [] else CHR ''.'' # fp) @ ?x"
  have f: "read_fraction ?f = (fp, ?x)" using r by (intro read_fraction_literal [OF fp]) (auto simp: ends_number_def)
  have e: "read_exponent ?x = (e, r)" by (rule read_exponent_literal [OF r])
  have i: "takeWhile is_digit (ip @ ?f) = ip" "dropWhile is_digit (ip @ ?f) = ?f"
    using r by (intro digits_then [OF ip(1)]; auto simp: ends_number_def)+
  have lit: "literal ip fp e @ r = ip @ ?f" by (simp add: literal_def)
  have neg: "hd (ip @ ?f) \<noteq> CHR ''-''" "ip @ ?f \<noteq> []" using ip by (cases ip; auto)+
  have ex: "\<not> (r = ?x \<and> ?x \<noteq> [] \<and> (hd ?x = CHR ''e'' \<or> hd ?x = CHR ''E''))"
    using r by (auto simp: ends_number_def)
  have dot: "\<not> (fp = [] \<and> ?x \<noteq> ?f)" by simp
  have lead: "\<not> (ip = [] \<or> hd ip = CHR ''0'' \<and> length ip > 1)" using ip by auto
  show "read_number (literal ip fp e @ r) = Some (num_of_rat (scale10 (digits_val (ip @ fp)) (e - int (length fp))), r)"
    unfolding read_number_def lit Let_def using neg
    by (simp only: i f e lead ex dot prod.case if_False simp_thms)
  show "read_number (CHR ''-'' # literal ip fp e @ r) =
      Some (num_neg (num_of_rat (scale10 (digits_val (ip @ fp)) (e - int (length fp)))), r)"
    unfolding read_number_def lit Let_def list.sel
    by (simp only: i f e lead ex dot prod.case if_False if_True simp_thms list.simps)
qed

lemma scale10_powi: "scale10 m e = of_nat m * 10 powi e"
  by (simp add: scale10_def power_int_def field_simps)

lemma scale10_shift: "scale10 (m * 10 ^ k) e = scale10 m (e + int k)"
  by (simp add: scale10_powi power_int_add)

lemma layout_literal:
  assumes ds: "digit_string ds" "ds \<noteq> []" "hd ds \<noteq> CHR ''0''"
  obtains ip fp e where "layout_digits ds n = literal ip fp e" "digit_string ip" "ip \<noteq> []"
    "hd ip \<noteq> CHR ''0'' \<or> length ip = 1" "digit_string fp"
    "scale10 (digits_val (ip @ fp)) (e - int (length fp)) = scale10 (digits_val ds) (n - int (length ds))"
proof -
  let ?k = "int (length ds)"
  consider (int) "?k \<le> n" "n \<le> 21" | (point) "0 < n" "n < ?k" "n \<le> 21" | (small) "- 6 < n" "n \<le> 0"
    | (exp) "\<not> (?k \<le> n \<and> n \<le> 21)" "\<not> (0 < n \<and> n \<le> 21)" "\<not> (- 6 < n \<and> n \<le> 0)"
    by linarith
  then show thesis
  proof cases
    case int
    let ?z = "replicate (nat (n - ?k)) (CHR ''0'')"
    have "scale10 (digits_val (ds @ ?z)) 0 = scale10 (digits_val ds) (n - ?k)"
      using int scale10_shift [of "digits_val ds" "nat (n - ?k)" 0] by (simp add: digits_val_append)
    then show ?thesis using int ds by (intro that [of "ds @ ?z" "[]" 0]) (simp_all add: layout_digits_def literal_def)
  next
    case point
    have "length (drop (nat n) ds) = nat (?k - n)" using point by simp
    then show ?thesis
      using point ds
      by (intro that [of "take (nat n) ds" "drop (nat n) ds" 0])
        (simp_all add: layout_digits_def literal_def digit_string_cut Let_def)
  next
    case small
    let ?z = "replicate (nat (- n)) (CHR ''0'')"
    have "digits_val (''0'' @ ?z @ ds) = digits_val ds"
      using digits_val_lead_zeros [of "Suc (nat (- n))" ds] by simp
    moreover have "\<not> ?k \<le> n" using small ds(2) by (cases ds) auto
    ultimately show ?thesis
      using small ds
      by (intro that [of "''0''" "?z @ ds" 0]) (simp_all add: layout_digits_def literal_def Let_def)
  next
    case exp
    have "n - 1 \<noteq> 0" using exp by linarith
    moreover have "hd (take 1 ds) = hd ds" "int (length (drop 1 ds)) = ?k - 1" "(drop 1 ds = []) = (?k = 1)"
      using ds(2) by (cases ds; simp)+
    ultimately show ?thesis
      using exp ds
      by (intro that [of "take 1 ds" "drop 1 ds" "n - 1"]) (auto simp: layout_digits_def literal_def digit_string_cut Let_def)
  qed
qed

lemma strip_zeros_split: "ds = strip_zeros ds @ replicate (length ds - length (strip_zeros ds)) (CHR ''0'')"
proof -
  let ?z = "takeWhile (\<lambda>c. c = CHR ''0'') (rev ds)"
  have "rev (?z @ dropWhile (\<lambda>c. c = CHR ''0'') (rev ds)) = ds" by (simp only: takeWhile_dropWhile_id rev_rev_ident)
  then have split: "ds = strip_zeros ds @ rev ?z" unfolding strip_zeros_def rev_append by (rule sym)
  have "set (rev ?z) \<subseteq> {CHR ''0''}" by (auto dest: set_takeWhileD)
  then have "rev ?z = replicate (length ?z) (CHR ''0'')" by (intro replicate_eqI) auto
  moreover have "length ?z = length ds - length (strip_zeros ds)" using arg_cong [OF split, of length] by simp
  ultimately show ?thesis using split by simp
qed

lemma hd_nat_to_string: "0 < n \<Longrightarrow> hd (nat_to_string n) \<noteq> CHR ''0''"
proof (induction n rule: nat_to_string.induct)
  case (1 n)
  show ?case
  proof (cases "n < 10")
    case True
    then have "digit_val (digit_char n) \<noteq> digit_val (CHR ''0'')"
      using 1 digit_val_char [of n] by (simp add: digit_val_def)
    then show ?thesis using True by (subst nat_to_string.simps) auto
  next
    case False
    then have "hd (nat_to_string (n div 10)) \<noteq> CHR ''0''" using 1 by simp
    with False show ?thesis by (subst nat_to_string.simps) simp
  qed
qed

text \<open>The numbers that have a finite decimal expansion, which are those a JSON text can hold.\<close>

definition decimal :: "rat \<Rightarrow> bool" where
  "decimal q = (let d = nat (snd (quotient_of q)) in 10 ^ max (count_factor 2 d) (count_factor 5 d) mod d = 0)"

lemma pos_to_string_literal:
  assumes "0 < q" and "decimal q"
  obtains ip fp e where "pos_to_string q = literal ip fp e" "digit_string ip" "ip \<noteq> []"
    "hd ip \<noteq> CHR ''0'' \<or> length ip = 1" "digit_string fp" "scale10 (digits_val (ip @ fp)) (e - int (length fp)) = q"
proof -
  obtain a d where qd: "quotient_of q = (a, d)" by (cases "quotient_of q")
  then have d: "0 < d" and q: "q = of_int a / of_int d" using quotient_of_denom_pos quotient_of_div by auto
  define f where "f = max (count_factor 2 (nat d)) (count_factor 5 (nat d))"
  define N where "N = nat \<lfloor>q * 10 ^ f\<rfloor>"
  have m: "10 ^ f mod nat d = 0" using assms(2) by (simp add: decimal_def qd f_def Let_def)
  then have "nat d dvd 10 ^ f" by (simp add: dvd_eq_mod_eq_0)
  then obtain c where c: "10 ^ f = nat d * c" by (elim dvdE)
  from arg_cong [OF c, of "of_nat :: nat \<Rightarrow> rat"] have "(10::rat) ^ f = of_int d * of_nat c" using d by simp
  then have prod: "q * 10 ^ f = of_int (a * int c)" using d q by simp
  have a: "0 < a" using assms(1) d q by (simp add: zero_less_divide_iff)
  have "0 < c" using c by (cases c) auto
  then have pos: "0 < a * int c" using a by simp
  have "N = nat (a * int c)" unfolding N_def prod by (simp only: floor_of_int)
  then have N: "of_nat N = q * 10 ^ f" "0 < N" using pos unfolding prod by simp_all
  let ?D = "nat_to_string N"
  let ?ds = "strip_zeros ?D"
  have split: "?D = ?ds @ replicate (length ?D - length ?ds) (CHR ''0'')" by (rule strip_zeros_split)
  then have "digits_val ?ds * 10 ^ (length ?D - length ?ds) = N"
    by (metis digits_val_append digits_val_all_zeros digits_val_nat_to_string add_0_right length_replicate)
  moreover have le: "length ?ds \<le> length ?D" by (metis split length_append le_add1)
  ultimately have val: "scale10 (digits_val ?ds) (int (length ?D) - int f - int (length ?ds)) = q"
    using scale10_shift [of "digits_val ?ds" "length ?D - length ?ds" "- int f"] N(1)
    by (simp add: scale10_powi power_int_minus field_simps)
  have "?ds \<noteq> []" using \<open>digits_val ?ds * _ = N\<close> N(2) by (auto simp: digits_val_def)
  moreover have "digit_string ?ds" by (metis split digit_string_simps(3,5))
  moreover have "hd ?ds \<noteq> CHR ''0''" by (metis calculation(1) split hd_append2 hd_nat_to_string N(2))
  moreover have "pos_to_string q = layout_digits ?ds (int (length ?D) - int f)"
    using m by (simp add: pos_to_string_def qd Let_def f_def N_def)
  ultimately show thesis using layout_literal [of ?ds "int (length ?D) - int f"] val that by metis
qed

lemma decimal_neg: "decimal (- q) = decimal q"
  by (simp add: decimal_def rat_uminus_code split: prod.splits)

lemma num_of_rat_neg: "num_of_rat q = Fin q \<Longrightarrow> num_of_rat (- q) = Fin (- q)"
  by (simp only: num_of_rat_def neg_le_iff_le minus_le_iff le_minus_iff) (auto split: if_splits)

lemma read_printed_number:
  assumes "decimal q" and fin: "num_of_rat q = Fin q" and r: "ends_number r"
  shows "read_number (num_to_string (Fin q) @ r) = Some (Fin q, r)"
proof -
  consider "q = 0" | "0 < q" | "q < 0" by linarith
  then show ?thesis
  proof cases
    case 1
    have "''0'' = literal ''0'' [] 0" by (simp add: literal_def)
    then show ?thesis
      using read_number_literal(1) [of "''0''" "[]" r 0] r fin 1
      by (simp add: num_to_string_def digits_val_def digit_val_def scale10_def)
  next
    case 2
    obtain ip fp e where "pos_to_string q = literal ip fp e" "digit_string ip" "ip \<noteq> []" "hd ip \<noteq> CHR ''0'' \<or> length ip = 1"
        "digit_string fp" "scale10 (digits_val (ip @ fp)) (e - int (length fp)) = q"
      using pos_to_string_literal [OF 2 assms(1)] .
    then show ?thesis using read_number_literal(1) [of ip fp r e] r fin 2 by (simp add: num_to_string_def)
  next
    case 3
    have "0 < - q" "decimal (- q)" using 3 assms(1) by (simp_all add: decimal_neg)
    then obtain ip fp e where "pos_to_string (- q) = literal ip fp e" "digit_string ip" "ip \<noteq> []" "hd ip \<noteq> CHR ''0'' \<or> length ip = 1"
        "digit_string fp" "scale10 (digits_val (ip @ fp)) (e - int (length fp)) = - q"
      using pos_to_string_literal by metis
    then show ?thesis using read_number_literal(2) [of ip fp r e] r num_of_rat_neg [OF fin] 3 by (simp add: num_to_string_def)
  qed
qed

lemma num_to_string_head:
  assumes "decimal q"
  obtains c s where "num_to_string (Fin q) = c # s" "is_digit c \<or> c = CHR ''-''"
proof (cases "0 < q")
  case True
  obtain ip fp e where "pos_to_string q = literal ip fp e" "digit_string ip" "ip \<noteq> []"
    using pos_to_string_literal [OF True assms] by metis
  then show thesis using True that by (cases ip) (auto simp: literal_def num_to_string_def)
next
  case False
  then show thesis using that by (cases "q = 0") (auto simp: num_to_string_def)
qed

subsection \<open>Values\<close>

text \<open>The documents a JSON text can hold: finite decimal numbers, and objects with distinct keys.\<close>

fun json_exact :: "json \<Rightarrow> bool" where
  "json_exact (JNum x) = (case x of Fin q \<Rightarrow> decimal q \<and> num_of_rat q = Fin q | _ \<Rightarrow> False)"
| "json_exact (JArr vs) = list_all json_exact vs"
| "json_exact (JObj kvs) = (distinct (map fst kvs) \<and> list_all (\<lambda>kv. json_exact (snd kv)) kvs)"
| "json_exact _ = True"

definition parses_elems :: "string \<Rightarrow> json list \<Rightarrow> string \<Rightarrow> bool" where
  "parses_elems s vs r = (\<exists>n. \<forall>m \<ge> n. parse_elems m s = Some (vs, r))"

definition parses_members :: "(string \<times> json) list \<Rightarrow> string \<Rightarrow> (string \<times> json) list \<Rightarrow> string \<Rightarrow> bool" where
  "parses_members acc s kvs r = (\<exists>n. \<forall>m \<ge> n. parse_members m acc s = Some (kvs, r))"

lemma eventually_Suc: "\<exists>n. \<forall>m \<ge> n. P m \<Longrightarrow> (\<And>m. P m \<Longrightarrow> Q (Suc m)) \<Longrightarrow> \<exists>n. \<forall>m \<ge> n. Q m"
  by (metis Suc_le_D Suc_le_mono)

lemma eventually_both: "\<exists>n. \<forall>m \<ge> n. P m \<Longrightarrow> \<exists>n. \<forall>m \<ge> n. Q m \<Longrightarrow> \<exists>n. \<forall>m \<ge> (n::nat). P m \<and> Q m"
  by (metis max.cobounded1 max.cobounded2 order_trans)

lemma skip_ws_append: "list_all json_ws w \<Longrightarrow> skip_ws (w @ s) = skip_ws s"
  by (induction w) (auto simp: skip_ws_def)

lemma skip_ws_stop: "\<not> json_ws c \<Longrightarrow> skip_ws (c # s) = c # s"
  by (simp add: skip_ws_def)

lemma parses_ws:
  assumes "parses s v r" and "list_all json_ws w"
  shows "parses (w @ s) v r"
proof -
  have "parse_value (Suc m) (w @ s) = parse_value (Suc m) s" for m
    using skip_ws_append [OF assms(2)] by simp
  then have "parse_value m (w @ s) = parse_value m s" for m by (cases m) (simp_all del: parse_value.simps(2))
  then show ?thesis using assms(1) by (simp add: parses_def)
qed

lemma parses_now: "(\<And>m. parse_value (Suc m) s = Some (v, r)) \<Longrightarrow> parses s v r"
  unfolding parses_def by (rule eventually_Suc [of "\<lambda>_. True"]) simp_all

lemma parses_array:
  assumes "parses_elems s vs r" and "\<not> starts (skip_ws s) '']''"
  shows "parses (CHR ''['' # s) (JArr vs) r"
proof -
  have "parse_elems m s = Some (vs, r) \<Longrightarrow> parse_value (Suc m) (CHR ''['' # s) = Some (JArr vs, r)" for m
    using assms(2) skip_ws_stop [of "CHR ''[''" s] by (simp add: json_ws_def)
  then show ?thesis using assms(1) unfolding parses_def parses_elems_def by (rule eventually_Suc [rotated])
qed

lemma parses_object:
  assumes "parses_members [] s kvs r" and "\<not> starts (skip_ws s) ''}''"
  shows "parses (CHR ''{'' # s) (JObj kvs) r"
proof -
  have "parse_members m [] s = Some (kvs, r) \<Longrightarrow> parse_value (Suc m) (CHR ''{'' # s) = Some (JObj kvs, r)" for m
    using assms(2) skip_ws_stop [of "CHR ''{''" s] by (simp add: json_ws_def)
  then show ?thesis using assms(1) unfolding parses_def parses_members_def by (rule eventually_Suc [rotated])
qed

lemma parses_elems_one:
  assumes "parses s v r" and "skip_ws r = CHR '']'' # u"
  shows "parses_elems s [v] u"
proof -
  have "parse_value m s = Some (v, r) \<Longrightarrow> parse_elems (Suc m) s = Some ([v], u)" for m
    using assms(2) by (simp add: Let_def)
  then show ?thesis using assms(1) unfolding parses_def parses_elems_def by (rule eventually_Suc [rotated])
qed

lemma parses_elems_more:
  assumes "parses s v r" and "skip_ws r = CHR '','' # t" and "parses_elems t vs u"
  shows "parses_elems s (v # vs) u"
proof -
  have "parse_value m s = Some (v, r) \<and> parse_elems m t = Some (vs, u) \<Longrightarrow> parse_elems (Suc m) s = Some (v # vs, u)" for m
    using assms(2) by (simp add: Let_def)
  then show ?thesis
    using eventually_both [OF assms(1) [unfolded parses_def] assms(3) [unfolded parses_elems_def]]
    unfolding parses_elems_def by (rule eventually_Suc [rotated])
qed

lemma parse_member_head:
  assumes "list_all json_ws w" and "list_all json_ws w'"
    and "parse_value m (w' @ s) = Some (v, r)"
  shows "parse_members (Suc m) acc (w @ quote k @ CHR '':'' # w' @ s) =
    (let t = skip_ws r; acc' = set_key k v acc
     in if starts t '','' then parse_members m acc' (tl t) else if starts t ''}'' then Some (acc', tl t) else None)"
proof -
  have "skip_ws (w @ quote k @ CHR '':'' # w' @ s) = CHR 0x22 # concat (map quote_char k) @ CHR 0x22 # CHR '':'' # w' @ s"
    using skip_ws_append [OF assms(1)] by (simp add: quote_def skip_ws_stop json_ws_def)
  moreover have "skip_ws (CHR '':'' # w' @ s) = CHR '':'' # w' @ s" by (simp add: skip_ws_stop json_ws_def)
  ultimately show ?thesis using assms(3) by (simp add: read_quote Let_def)
qed

lemma parses_members_one:
  assumes "parses s v r" and "skip_ws r = CHR ''}'' # u" and ws: "list_all json_ws w" "list_all json_ws w'"
  shows "parses_members acc (w @ quote k @ CHR '':'' # w' @ s) (set_key k v acc) u"
proof -
  have "parses (w' @ s) v r" by (rule parses_ws [OF assms(1) ws(2)])
  moreover have "parse_value m (w' @ s) = Some (v, r) \<Longrightarrow>
      parse_members (Suc m) acc (w @ quote k @ CHR '':'' # w' @ s) = Some (set_key k v acc, u)" for m
    using parse_member_head [OF ws, of m s v r acc k] assms(2) by (simp add: Let_def del: parse_members.simps)
  ultimately show ?thesis unfolding parses_def parses_members_def by (rule eventually_Suc)
qed

lemma parses_members_more:
  assumes "parses s v r" and "skip_ws r = CHR '','' # t" and ws: "list_all json_ws w" "list_all json_ws w'"
    and "parses_members (set_key k v acc) t kvs u"
  shows "parses_members acc (w @ quote k @ CHR '':'' # w' @ s) kvs u"
proof -
  have "parses (w' @ s) v r" by (rule parses_ws [OF assms(1) ws(2)])
  from eventually_both [OF this [unfolded parses_def] assms(5) [unfolded parses_members_def]]
  show ?thesis unfolding parses_members_def
  proof (rule eventually_Suc)
    fix m
    assume "parse_value m (w' @ s) = Some (v, r) \<and> parse_members m (set_key k v acc) t = Some (kvs, u)"
    then show "parse_members (Suc m) acc (w @ quote k @ CHR '':'' # w' @ s) = Some (kvs, u)"
      using parse_member_head [OF ws, of m s v r acc k] assms(2) by (simp add: Let_def del: parse_members.simps)
  qed
qed

lemma ends_number_ws: "list_all json_ws w \<Longrightarrow> c \<in> {CHR '','', CHR '']'', CHR ''}''} \<Longrightarrow> ends_number (w @ c # r)"
  by (cases w) (auto simp: ends_number_def json_ws_def is_digit_def)

lemma skip_ws_to: "list_all json_ws w \<Longrightarrow> c \<in> {CHR '','', CHR '']'', CHR ''}''} \<Longrightarrow> skip_ws (w @ c # r) = c # r"
  by (auto simp: skip_ws_append skip_ws_stop json_ws_def)

lemma join_more: "join sep (x # y # zs) = x @ sep @ join sep (y # zs)"
  by (simp add: join_def)

lemma join_one: "join sep [x] = x"
  by (simp add: join_def)

lemma bracket_split:
  assumes "items \<noteq> []" and "list_all json_ws gap" and "list_all json_ws ind"
  obtains w w' where "list_all json_ws w" "list_all json_ws w'"
    "bracket gap ind l r items = l @ w @ join (CHR '','' # w) items @ w' @ r"
proof (cases "gap = []")
  case True
  then show thesis using assms(1) that [of "[]" "[]"] by (simp add: bracket_def)
next
  case False
  then show thesis
    using assms that [of "[CHR 10] @ ind @ gap" "[CHR 10] @ ind"] by (simp add: bracket_def json_ws_def)
qed

lemma parses_elems_join:
  assumes "vs \<noteq> []" and "\<And>v r. v \<in> set vs \<Longrightarrow> ends_number r \<Longrightarrow> parses (f v @ r) v r"
    and w: "list_all json_ws w" "list_all json_ws w'"
  shows "parses_elems (w @ join (CHR '','' # w) (map f vs) @ w' @ CHR '']'' # r) vs r"
  using assms(1,2)
proof (induction vs)
  case (Cons v vs)
  have one: "parses (w @ f v @ u @ c # t) v (u @ c # t)"
    if "list_all json_ws u" "c \<in> {CHR '','', CHR '']'', CHR ''}''}" for u c t
    by (rule parses_ws [OF _ w(1)], rule Cons.prems(2), simp, rule ends_number_ws [OF that])
  show ?case
  proof (cases vs)
    case Nil
    then show ?thesis using parses_elems_one [OF one [OF w(2)]] skip_ws_to [OF w(2)] by (simp add: join_one)
  next
    case more: (Cons y ys)
    let ?t = "w @ join (CHR '','' # w) (map f vs) @ w' @ CHR '']'' # r"
    have "parses_elems ?t vs r" using Cons.IH Cons.prems(2) more by simp
    then show ?thesis
      using parses_elems_more [OF one [of "[]" "CHR '',''" ?t], of ?t] skip_ws_to [of "[]"] more by (simp add: join_more)
  qed
qed simp

lemma set_key_new: "k \<notin> fst ` set acc \<Longrightarrow> set_key k v acc = acc @ [(k, v)]"
  by (induction acc) auto

lemma parses_members_join:
  assumes "kvs \<noteq> []" and "\<And>k v r. (k, v) \<in> set kvs \<Longrightarrow> ends_number r \<Longrightarrow> parses (f v @ r) v r"
    and "distinct (map fst (acc @ kvs))"
    and w: "list_all json_ws w" "list_all json_ws w'" "list_all json_ws w''"
  shows "parses_members acc
    (w @ join (CHR '','' # w) (map (\<lambda>kv. quote (fst kv) @ CHR '':'' # w'' @ f (snd kv)) kvs) @ w' @ CHR ''}'' # r) (acc @ kvs) r"
  using assms(1-3)
proof (induction kvs arbitrary: acc)
  case (Cons kv kvs)
  obtain k v where kv: "kv = (k, v)" by (cases kv)
  have new: "set_key k v acc = acc @ [(k, v)]" using Cons.prems(3) kv by (intro set_key_new) auto
  have one: "parses (f v @ u @ c # t) v (u @ c # t)"
    if "list_all json_ws u" "c \<in> {CHR '','', CHR '']'', CHR ''}''}" for u c t
    using Cons.prems(2) [of k v] kv ends_number_ws that by simp
  show ?case
  proof (cases kvs)
    case Nil
    then show ?thesis
      using parses_members_one [OF one [OF w(2), of "CHR ''}''" r] _ w(1,3), of r acc k] skip_ws_to [OF w(2)] new kv
      by (simp add: join_one)
  next
    case more: (Cons y ys)
    let ?t = "w @ join (CHR '','' # w) (map (\<lambda>kv. quote (fst kv) @ CHR '':'' # w'' @ f (snd kv)) kvs) @ w' @ CHR ''}'' # r"
    have "parses_members (acc @ [kv]) ?t ((acc @ [kv]) @ kvs) r"
    proof (rule Cons.IH)
      show "(k', v') \<in> set kvs \<Longrightarrow> ends_number r' \<Longrightarrow> parses (f v' @ r') v' r'" for k' v' r'
        by (rule Cons.prems(2) [of k']) simp_all
    qed (use Cons.prems(3) more in auto)
    then have "parses_members (set_key k v acc) ?t (acc @ kv # kvs) r" using new kv by simp
    then show ?thesis
      using parses_members_more [OF one [of "[]" "CHR '',''" ?t] _ w(1,3), of ?t k acc] skip_ws_to [of "[]"] more kv
      by (simp add: join_more)
  qed
qed simp

lemma bracket_head: "\<exists>s. bracket gap ind l r items = l @ s"
  by (simp add: bracket_def)

lemma stringify_head:
  assumes "json_exact v"
  obtains c s where "stringify gap ind v = c # s" "\<not> json_ws c" "c \<noteq> CHR '']''"
proof (cases v)
  case (JNum x)
  then obtain q where q: "x = Fin q" "decimal q" using assms by (cases x) auto
  obtain c s where c: "num_to_string (Fin q) = c # s" "is_digit c \<or> c = CHR ''-''" using num_to_string_head [OF q(2)] .
  then have "\<not> json_ws c" "c \<noteq> CHR '']''" by (auto simp: json_ws_def is_digit_def)
  then show thesis using that JNum q(1) c(1) by simp
next
  case (JBool b)
  then show thesis using that by (cases b) (simp_all add: json_ws_def)
next
  case (JArr vs)
  obtain s where "stringify gap ind v = CHR ''['' # s" using bracket_head [of gap ind "''[''"] JArr by force
  then show thesis using that by (simp add: json_ws_def)
next
  case (JObj kvs)
  obtain s where "stringify gap ind v = CHR ''{'' # s" using bracket_head [of gap ind "''{''"] JObj by force
  then show thesis using that by (simp add: json_ws_def)
qed (use that in \<open>simp_all add: quote_def json_ws_def\<close>)

lemma parse_literals:
  "parses (''null'' @ r) JNull r" "parses (''true'' @ r) (JBool True) r" "parses (''false'' @ r) (JBool False) r"
  "parses (quote s @ r) (JStr s) r" "parses (''[]'' @ r) (JArr []) r" "parses (''{}'' @ r) (JObj []) r"
  by (rule parses_now; simp add: skip_ws_def json_ws_def quote_def read_quote)+

lemma parses_number:
  assumes "decimal q" and "num_of_rat q = Fin q" and "ends_number r"
  shows "parses (num_to_string (Fin q) @ r) (JNum (Fin q)) r"
proof -
  obtain c s where c: "num_to_string (Fin q) = c # s" "is_digit c \<or> c = CHR ''-''"
    using num_to_string_head [OF assms(1)] .
  then have "skip_ws (c # s @ r) = c # s @ r" and "c \<noteq> CHR ''n''" "c \<noteq> CHR ''t''" "c \<noteq> CHR ''f''"
    "c \<noteq> CHR 0x22" "c \<noteq> CHR ''[''" "c \<noteq> CHR ''{''"
    by (auto intro!: skip_ws_stop simp: json_ws_def is_digit_def)
  then show ?thesis using read_printed_number [OF assms] c(1) by (intro parses_now) simp
qed

lemma stringify_parses:
  assumes "list_all json_ws gap"
  shows "list_all json_ws ind \<Longrightarrow> json_exact v \<Longrightarrow> ends_number r \<Longrightarrow> parses (stringify gap ind v @ r) v r"
proof (induction v arbitrary: ind r)
  case (JNum x)
  then show ?case using parses_number by (cases x) auto
next
  case (JArr vs)
  let ?f = "stringify gap (ind @ gap)"
  show ?case
  proof (cases "vs = []")
    case False
    obtain w w' where w: "list_all json_ws w" "list_all json_ws w'"
      and b: "stringify gap ind (JArr vs) = ''['' @ w @ join (CHR '','' # w) (map ?f vs) @ w' @ '']''"
      using bracket_split [of "map ?f vs" gap ind "''[''" "'']''"] False assms JArr.prems(1) by auto
    let ?s = "w @ join (CHR '','' # w) (map ?f vs) @ w' @ CHR '']'' # r"
    have "parses_elems ?s vs r"
    proof (rule parses_elems_join [OF False _ w])
      show "parses (?f y @ u) y u" if "y \<in> set vs" "ends_number u" for y u
        using JArr.prems(1,2) assms that by (intro JArr.IH) (auto simp: list_all_iff)
    qed
    moreover have "\<not> starts (skip_ws ?s) '']''"
    proof -
      obtain y ys where vs: "vs = y # ys" using False by (cases vs) auto
      then have "json_exact y" using JArr.prems(2) by simp
      then obtain c s where "?f y = c # s" "\<not> json_ws c" "c \<noteq> CHR '']''" by (rule stringify_head)
      then show ?thesis using vs by (simp add: skip_ws_append [OF w(1)] skip_ws_stop join_def)
    qed
    ultimately show ?thesis unfolding b using parses_array by simp
  qed (use parse_literals in \<open>simp add: bracket_def\<close>)
next
  case (JObj kvs)
  let ?f = "stringify gap (ind @ gap)"
  let ?sp = "if gap = [] then [] else '' ''"
  let ?items = "map (\<lambda>kv. quote (fst kv) @ CHR '':'' # ?sp @ ?f (snd kv)) kvs"
  show ?case
  proof (cases "kvs = []")
    case False
    have items: "map (\<lambda>kv. quote (fst kv) @ (if gap = [] then '':'' else '': '') @ ?f (snd kv)) kvs = ?items" by simp
    obtain w w' where w: "list_all json_ws w" "list_all json_ws w'"
      and b: "stringify gap ind (JObj kvs) = ''{'' @ w @ join (CHR '','' # w) ?items @ w' @ ''}''"
      using bracket_split [of ?items gap ind "''{''" "''}''"] False assms JObj.prems(1) unfolding stringify.simps items by auto
    let ?s = "w @ join (CHR '','' # w) ?items @ w' @ CHR ''}'' # r"
    have "parses_members [] ?s ([] @ kvs) r"
    proof (rule parses_members_join [OF False _ _ w])
      show "parses (?f y @ u) y u" if "(k, y) \<in> set kvs" "ends_number u" for k y u
        using JObj.prems(1,2) assms that by (intro JObj.IH [of "(k, y)"]) (auto simp: list_all_iff)
    qed (use JObj.prems(2) in \<open>simp_all add: json_ws_def\<close>)
    moreover have "\<not> starts (skip_ws ?s) ''}''"
      using False by (cases kvs) (auto simp: skip_ws_append [OF w(1)] skip_ws_stop join_def quote_def json_ws_def)
    ultimately show ?thesis unfolding b using parses_object by simp
  qed (use parse_literals in \<open>simp add: bracket_def\<close>)
qed (use parse_literals in auto)

lemma JSON_roundtrip:
  assumes "json_exact v"
  shows "JSON_parse (JSON_pretty v) = Inr v" "JSON_parse (JSON_stringify v) = Inr v"
proof -
  have "JSON_parse (stringify gap [] v) = Inr v" if "list_all json_ws gap" for gap
    using stringify_parses [OF that, of "[]" v "[]"] assms
    unfolding JSON_parse_iff by (auto simp: ends_number_def skip_ws_def)
  then show "JSON_parse (JSON_pretty v) = Inr v" "JSON_parse (JSON_stringify v) = Inr v"
    unfolding JSON_pretty_def JSON_stringify_def by (simp_all add: json_ws_def)
qed

subsection \<open>What the parser reads is exact\<close>

lemma count_factor_split:
  assumes "1 < p" and "0 < d"
  shows "\<exists>c. d = p ^ count_factor p d * c \<and> \<not> p dvd c"
  using assms
proof (induction p d rule: count_factor.induct)
  case (1 p d)
  show ?case
  proof (cases "p dvd d")
    case True
    then have e: "d = p * (d div p)" "0 < d div p" using "1.prems" by (auto elim!: dvdE)
    then obtain c where "d div p = p ^ count_factor p (d div p) * c" "\<not> p dvd c"
      using "1.IH" "1.prems" True by (auto simp: dvd_eq_mod_eq_0)
    moreover have "count_factor p d = Suc (count_factor p (d div p))"
      using "1.prems" True by (subst count_factor.simps) (simp add: dvd_eq_mod_eq_0)
    ultimately show ?thesis using e(1) by (metis mult.assoc power_Suc)
  next
    case False
    then have "count_factor p d = 0" by (subst count_factor.simps) (simp add: dvd_eq_mod_eq_0)
    then show ?thesis using False by simp
  qed
qed

lemma coprime_5: "\<not> 5 dvd (e::nat) \<Longrightarrow> coprime e 5"
proof -
  assume n: "\<not> 5 dvd e"
  have five: "x = 1 \<or> x = 5" if "x dvd 5" for x :: nat
  proof -
    have "x \<le> 5" using that by (auto dest: dvd_imp_le)
    then have "x = 0 \<or> x = 1 \<or> x = 2 \<or> x = 3 \<or> x = 4 \<or> x = 5" by linarith
    then show ?thesis using that by (elim disjE) simp_all
  qed
  have "gcd e 5 \<noteq> 5" using n by (metis gcd_dvd1)
  then have "gcd e 5 = 1" using five [of "gcd e 5"] by simp
  then show ?thesis by (simp add: coprime_iff_gcd_eq_1)
qed

lemma dvd_ten_power:
  assumes "d dvd 10 ^ k" and "0 < (d::nat)"
  shows "d dvd 10 ^ max (count_factor 2 d) (count_factor 5 d)"
proof -
  let ?a = "count_factor 2 d" and ?b = "count_factor 5 d" and ?m = "max (count_factor 2 d) (count_factor 5 d)"
  have ten: "(10::nat) ^ n = 2 ^ n * 5 ^ n" for n by (simp flip: power_mult_distrib)
  obtain c where c: "d = 2 ^ ?a * c" "\<not> 2 dvd c" using count_factor_split [of 2 d] assms(2) by auto
  obtain e where e: "d = 5 ^ ?b * e" "\<not> 5 dvd e" using count_factor_split [of 5 d] assms(2) by auto
  have "c dvd d" "e dvd d" by (metis c(1) dvd_triv_right, metis e(1) dvd_triv_right)
  then have "c dvd 2 ^ k * 5 ^ k" "e dvd 2 ^ k * 5 ^ k" using assms(1) ten dvd_trans by metis+
  moreover have "coprime c (2 ^ k)" "coprime e (5 ^ k)" using c(2) coprime_5 [OF e(2)] by simp_all
  ultimately have "c dvd 5 ^ k" "e dvd 2 ^ k"
    by (simp_all add: coprime_dvd_mult_right_iff coprime_dvd_mult_left_iff)
  moreover have "coprime (5 ^ k) (2 ^ k :: nat)" by simp
  ultimately have "coprime c e" by (metis coprime_divisors)
  moreover have "c dvd 5 ^ ?b * e" using \<open>c dvd d\<close> e(1) by metis
  ultimately have "c dvd 5 ^ ?b" by (simp add: coprime_dvd_mult_left_iff)
  then have "2 ^ ?a * c dvd 2 ^ ?m * 5 ^ ?m" by (intro mult_dvd_mono le_imp_power_dvd dvd_trans [of c "5 ^ ?b" "5 ^ ?m"]) simp_all
  then show ?thesis using c(1) ten by metis
qed

lemma quotient_of_denom_dvd:
  assumes "q = of_int a / of_int b" and "0 < b"
  shows "snd (quotient_of q) dvd b"
proof -
  obtain p r where pr: "quotient_of q = (p, r)" by (cases "quotient_of q")
  then have r: "0 < r" "coprime p r" and q: "q = of_int p / of_int r"
    using quotient_of_denom_pos quotient_of_coprime quotient_of_div by auto
  have "of_int (p * b) = (of_int (a * r) :: rat)" using assms q r(1) by (simp add: field_simps)
  then have "r dvd p * b" by (metis dvd_triv_right of_int_eq_iff)
  then show ?thesis using r(2) pr by (simp add: coprime_dvd_mult_right_iff coprime_commute)
qed

lemma decimal_over_ten: "decimal (of_int a / 10 ^ k)"
proof -
  let ?q = "of_int a / 10 ^ k :: rat"
  let ?d = "snd (quotient_of ?q)"
  have pos: "0 < ?d" by (metis prod.collapse quotient_of_denom_pos)
  have "?d dvd 10 ^ k" by (rule quotient_of_denom_dvd [of _ a]) simp_all
  then have "nat ?d dvd 10 ^ k" using pos by (metis int_dvd_int_iff int_nat_eq less_imp_le of_nat_numeral of_nat_power)
  then show ?thesis using dvd_ten_power [of "nat ?d" k] pos by (simp add: decimal_def Let_def dvd_eq_mod_eq_0)
qed

lemma decimal_scale10: "decimal (scale10 m e)"
proof (cases "0 \<le> e")
  case True
  then show ?thesis using decimal_over_ten [of "int m * 10 ^ nat e" 0] by (simp add: scale10_def)
next
  case False
  then show ?thesis using decimal_over_ten [of "int m" "nat (- e)"] by (simp add: scale10_def)
qed

text \<open>A number too large for a double is read as an infinity, which \<open>JSON.stringify\<close> does not keep.\<close>

fun json_finite :: "json \<Rightarrow> bool" where
  "json_finite (JNum x) = (case x of Fin q \<Rightarrow> True | _ \<Rightarrow> False)"
| "json_finite (JArr vs) = list_all json_finite vs"
| "json_finite (JObj kvs) = list_all (\<lambda>kv. json_finite (snd kv)) kvs"
| "json_finite _ = True"

definition num_exact :: "jsnum \<Rightarrow> bool" where
  "num_exact x = (case x of Fin q \<Rightarrow> decimal q \<and> num_of_rat q = Fin q | _ \<Rightarrow> True)"

lemma num_of_rat_idem: "num_of_rat q = Fin q' \<Longrightarrow> q' = q"
  unfolding num_of_rat_def by (simp split: if_splits)

lemma num_exact_of_rat: "decimal q \<Longrightarrow> num_exact (num_of_rat q) \<and> num_exact (num_neg (num_of_rat q))"
proof (cases "num_of_rat q")
  case (Fin q')
  assume "decimal q"
  then show ?thesis using Fin num_of_rat_idem [OF Fin] num_of_rat_neg [of q] by (simp add: num_exact_def decimal_neg)
qed (simp_all add: num_exact_def)

lemma read_number_exact: "read_number s = Some (x, r) \<Longrightarrow> num_exact x"
  using num_exact_of_rat [OF decimal_scale10]
  by (auto simp: read_number_def Let_def case_prod_beta split: if_splits)

fun nums_exact :: "json \<Rightarrow> bool" where
  "nums_exact (JNum x) = num_exact x"
| "nums_exact (JArr vs) = list_all nums_exact vs"
| "nums_exact (JObj kvs) = list_all (\<lambda>kv. nums_exact (snd kv)) kvs"
| "nums_exact _ = True"

lemma nums_set_key:
  "list_all (\<lambda>kv. nums_exact (snd kv)) kvs \<Longrightarrow> nums_exact v \<Longrightarrow> list_all (\<lambda>kv. nums_exact (snd kv)) (set_key k v kvs)"
  by (induction kvs) auto

lemma parse_exact:
  "parse_value n s = Some (v, r) \<Longrightarrow> nums_exact v"
  "parse_elems n s = Some (vs, r) \<Longrightarrow> list_all nums_exact vs"
  "parse_members n acc s = Some (kvs, r) \<Longrightarrow> list_all (\<lambda>kv. nums_exact (snd kv)) acc \<Longrightarrow>
     list_all (\<lambda>kv. nums_exact (snd kv)) kvs"
proof (induction n s and n s and n acc s arbitrary: v r and vs r and kvs r
       rule: parse_value_parse_elems_parse_members.induct)
  case (2 n s)
  then show ?case by (auto simp: Let_def split: list.splits if_splits option.splits dest: read_number_exact)
next
  case (4 n s)
  then show ?case by (auto simp: Let_def split: if_splits option.splits)
next
  case (6 n acc s)
  then show ?case by (auto simp: Let_def nums_set_key split: if_splits option.splits)
qed simp_all

lemma exact_iff: "json_exact v \<longleftrightarrow> wf_json v \<and> nums_exact v \<and> json_finite v"
proof (induction v)
  case (JObj kvs)
  then have "json_exact (snd kv) \<longleftrightarrow> wf_json (snd kv) \<and> nums_exact (snd kv) \<and> json_finite (snd kv)" if "kv \<in> set kvs" for kv
    using that by (cases kv) simp
  then show ?case by (auto simp: list_all_iff)
qed (auto simp: list_all_iff num_exact_def split: jsnum.splits)

lemma JSON_parse_exact: "JSON_parse s = Inr v \<Longrightarrow> json_finite v \<Longrightarrow> json_exact v"
  unfolding exact_iff
  using JSON_parse_wf [of s v] parse_exact(1)
  by (auto simp: JSON_parse_def simp del: parse_value.simps split: option.splits if_splits)

end
