(* ===== verification/Collections_View.thy ===== *)
theory Collections_View
  imports Api Json_Laws
begin

text \<open>
  The document browser of the Studio (\<open>studio/frontend/src/views/CollectionsView.tsx\<close>):
  its state, its handlers split at their \<open>await\<close>s, its effects, and the tree it renders.
\<close>

section \<open>State\<close>

datatype modal_mode = Mode_create | Mode_edit

record cv_state =
  cv_collections :: "CatalogObject list"
  cv_selectedCollection :: string
  cv_documents :: "json list"
  cv_loading :: bool
  cv_error :: "string option"
  cv_filterField :: string
  cv_filterOp :: string
  cv_filterVal :: string
  cv_viewDoc :: "json option"
  cv_isModalOpen :: bool
  cv_jsonInput :: string
  cv_modalMode :: modal_mode
  cv_latestRequest :: nat

definition cv_init :: cv_state where
  "cv_init =
     \<lparr>cv_collections = [], cv_selectedCollection = [], cv_documents = [], cv_loading = False,
      cv_error = None, cv_filterField = [], cv_filterOp = ''eq'', cv_filterVal = [],
      cv_viewDoc = None, cv_isModalOpen = False, cv_jsonInput = [], cv_modalMode = Mode_create,
      cv_latestRequest = 0\<rparr>"

text \<open>What waits: a query, the timer of the Clear button, a save and a deletion.  The last
  three carry the closure of the render their handler belongs to.\<close>

datatype cv_pending =
    Cv_load nat string query_payload
  | Cv_timer cv_state
  | Cv_saving cv_state api_call
  | Cv_deleting cv_state api_call
  | Cv_onRefreshCatalog

datatype cv_reply =
    Cv_result "QueryResult outcome"
  | Cv_ack "unit outcome"
  | Cv_tick

fun cv_fit :: "cv_pending \<Rightarrow> cv_reply \<Rightarrow> bool" where
  "cv_fit (Cv_load _ _ _) (Cv_result _) = True"
| "cv_fit (Cv_saving _ _) (Cv_ack _) = True"
| "cv_fit (Cv_deleting _ _) (Cv_ack _) = True"
| "cv_fit (Cv_timer _) Cv_tick = True"
| "cv_fit Cv_onRefreshCatalog Cv_tick = True"
| "cv_fit _ _ = False"

text \<open>The answer of \<open>confirm\<close> is part of a deletion's event: the dialog blocks the page.\<close>

datatype cv_event =
    Cv_catalog "CatalogData option"
  | Cv_select string
  | Cv_setFilterField string
  | Cv_setFilterOp string
  | Cv_setFilterVal string
  | Cv_apply
  | Cv_clear
  | Cv_openCreate
  | Cv_openEdit json
  | Cv_view json
  | Cv_closeView
  | Cv_setJsonInput string
  | Cv_closeModal
  | Cv_save
  | Cv_delete string bool

section \<open>Handlers\<close>

text \<open>The value of a filter as typed: a boolean, a number, or the text itself.\<close>

definition filter_value :: "string \<Rightarrow> json" where
  "filter_value v =
     (if v = ''true'' then JBool True
      else if v = ''false'' then JBool False
      else if \<not> isNaN (Number v) \<and> trim v \<noteq> [] then JNum (Number v)
      else JStr v)"

definition cv_filters :: "cv_state \<Rightarrow> query_filter list" where
  "cv_filters c =
     (if trim (cv_filterField c) \<noteq> []
      then [\<lparr>f_field = trim (cv_filterField c), f_op = cv_filterOp c, f_value = filter_value (cv_filterVal c)\<rparr>]
      else [])"

definition cv_payload :: "cv_state \<Rightarrow> query_payload" where
  "cv_payload c =
     \<lparr>q_filters = (if cv_filters c \<noteq> [] then Some (cv_filters c) else None),
      q_order_by = None, q_limit = Some (Fin 50), q_offset = None, q_explain = None\<rparr>"

text \<open>\<open>loadDocuments\<close> of the closure \<open>c\<close>, up to its \<open>await\<close>.\<close>

definition loadDocuments :: "cv_state \<Rightarrow> string \<Rightarrow> cv_state \<Rightarrow> cv_state \<times> cv_pending list" where
  "loadDocuments c collection s =
     (if collection = [] then (s, [])
      else (let n = Suc (cv_latestRequest s)
            in (s\<lparr>cv_latestRequest := n, cv_loading := True, cv_error := None\<rparr>,
                [Cv_load n collection (cv_payload c)])))"

text \<open>The rest of \<open>loadDocuments\<close>: only the latest request acts.\<close>

definition loadDocuments_done :: "nat \<Rightarrow> QueryResult outcome \<Rightarrow> cv_state \<Rightarrow> cv_state" where
  "loadDocuments_done n r s =
     (if n \<noteq> cv_latestRequest s then s
      else (case r of
              Inr res \<Rightarrow> s\<lparr>cv_documents := or_list (qr_documents res), cv_loading := False\<rparr>
            | Inl e \<Rightarrow> s\<lparr>cv_error := Some (or_str (message e) ''Failed to load documents''), cv_loading := False\<rparr>))"

text \<open>The effect on \<open>[selectedCollection]\<close>, run after the render that changed it.\<close>

definition cv_commit :: "cv_state \<Rightarrow> cv_state \<times> cv_pending list \<Rightarrow> cv_state \<times> cv_pending list" where
  "cv_commit old res =
     (let (s, ps) = res
      in if cv_selectedCollection s \<noteq> cv_selectedCollection old \<and> cv_selectedCollection s \<noteq> []
         then (let (s', ps') = loadDocuments s (cv_selectedCollection s) s in (s', ps @ ps'))
         else (s, ps))"

text \<open>The effect on \<open>[catalog]\<close>: keep the selection while it is listed, else take the first.\<close>

definition cv_sync :: "CatalogObject list \<Rightarrow> string \<Rightarrow> string" where
  "cv_sync cs current =
     (if current \<noteq> [] \<and> list_ex (\<lambda>c. co_name c = current) cs then current
      else (case cs of [] \<Rightarrow> [] | c # _ \<Rightarrow> co_name c))"

definition handleOpenCreate :: "cv_state \<Rightarrow> cv_state" where
  "handleOpenCreate s =
     s\<lparr>cv_modalMode := Mode_create,
       cv_jsonInput := ''{'' @ [CHR 10] @ ''  '' @ quote ''name'' @ '': '' @ quote ''New Document'' @ '','' @ [CHR 10] @
         ''  '' @ quote ''active'' @ '': true'' @ [CHR 10] @ ''}'',
       cv_isModalOpen := True\<rparr>"

definition handleOpenEdit :: "json \<Rightarrow> cv_state \<Rightarrow> cv_state" where
  "handleOpenEdit doc s =
     s\<lparr>cv_modalMode := Mode_edit, cv_jsonInput := JSON_pretty doc, cv_isModalOpen := True\<rparr>"

text \<open>Reading a property of \<open>null\<close> throws.\<close>

definition null_property_error :: js_error where
  "null_property_error = Js_error ''Cannot read properties of null''"

definition save_call :: "cv_state \<Rightarrow> api_call outcome" where
  "save_call c =
     (case JSON_parse (cv_jsonInput c) of
        Inl e \<Rightarrow> Inl e
      | Inr parsed \<Rightarrow>
          (case cv_modalMode c of
             Mode_create \<Rightarrow> Inr (insertDocument (cv_selectedCollection c) parsed)
           | Mode_edit \<Rightarrow>
               if parsed = JNull then Inl null_property_error
               else if \<not> truthy (get_key parsed ''_id'') then Inl (Js_error ''Document must have an _id for updating'')
               else Inr (updateDocument (cv_selectedCollection c) (opt_to_string (get_key parsed ''_id'')) parsed)))"

definition save_failed :: "js_error \<Rightarrow> cv_state \<Rightarrow> cv_state" where
  "save_failed e s = s\<lparr>cv_error := Some (or_str (message e) ''Invalid JSON or Save Failed'')\<rparr>"

definition handleSaveDocument :: "cv_state \<Rightarrow> cv_state \<times> cv_pending list" where
  "handleSaveDocument s =
     (case save_call s of
        Inl e \<Rightarrow> (save_failed e (s\<lparr>cv_error := None\<rparr>), [])
      | Inr call \<Rightarrow> (s\<lparr>cv_error := None\<rparr>, [Cv_saving s call]))"

definition handleSaveDocument_done :: "cv_state \<Rightarrow> unit outcome \<Rightarrow> cv_state \<Rightarrow> cv_state \<times> cv_pending list" where
  "handleSaveDocument_done c r s =
     (case r of
        Inl e \<Rightarrow> (save_failed e s, [])
      | Inr _ \<Rightarrow>
          (let (s', ps) = loadDocuments c (cv_selectedCollection c) (s\<lparr>cv_isModalOpen := False\<rparr>)
           in (s', ps @ [Cv_onRefreshCatalog])))"

definition handleDelete :: "string \<Rightarrow> bool \<Rightarrow> cv_state \<Rightarrow> cv_state \<times> cv_pending list" where
  "handleDelete i confirmed s =
     (if \<not> confirmed then (s, []) else (s, [Cv_deleting s (deleteDocument (cv_selectedCollection s) i)]))"

definition handleDelete_done :: "cv_state \<Rightarrow> unit outcome \<Rightarrow> cv_state \<Rightarrow> cv_state \<times> cv_pending list" where
  "handleDelete_done c r s =
     (case r of
        Inl e \<Rightarrow> (s\<lparr>cv_error := Some (or_str (message e) ''Failed to delete document'')\<rparr>, [])
      | Inr _ \<Rightarrow> loadDocuments c (cv_selectedCollection c) s)"

text \<open>The events, each with the effects of the render that follows it.\<close>

fun cv_act :: "cv_event \<Rightarrow> cv_state \<Rightarrow> cv_state \<times> cv_pending list" where
  "cv_act (Cv_catalog cat) s =
     (let cs = or_list (Option.bind cat cat_collections)
      in (s\<lparr>cv_collections := cs, cv_selectedCollection := cv_sync cs (cv_selectedCollection s)\<rparr>, []))"
| "cv_act (Cv_select name) s = (s\<lparr>cv_selectedCollection := name\<rparr>, [])"
| "cv_act (Cv_setFilterField v) s = (s\<lparr>cv_filterField := v\<rparr>, [])"
| "cv_act (Cv_setFilterOp v) s = (s\<lparr>cv_filterOp := v\<rparr>, [])"
| "cv_act (Cv_setFilterVal v) s = (s\<lparr>cv_filterVal := v\<rparr>, [])"
| "cv_act Cv_apply s = loadDocuments s (cv_selectedCollection s) s"
| "cv_act Cv_clear s = (s\<lparr>cv_filterField := [], cv_filterVal := []\<rparr>, [Cv_timer s])"
| "cv_act Cv_openCreate s = (handleOpenCreate s, [])"
| "cv_act (Cv_openEdit doc) s = (handleOpenEdit doc s, [])"
| "cv_act (Cv_view doc) s = (s\<lparr>cv_viewDoc := Some doc\<rparr>, [])"
| "cv_act Cv_closeView s = (s\<lparr>cv_viewDoc := None\<rparr>, [])"
| "cv_act (Cv_setJsonInput v) s = (s\<lparr>cv_jsonInput := v\<rparr>, [])"
| "cv_act Cv_closeModal s = (s\<lparr>cv_isModalOpen := False\<rparr>, [])"
| "cv_act Cv_save s = handleSaveDocument s"
| "cv_act (Cv_delete i b) s = handleDelete i b s"

definition cv_handle :: "cv_event \<Rightarrow> cv_state \<Rightarrow> cv_state \<times> cv_pending list" where
  "cv_handle e s = cv_commit s (cv_act e s)"

fun cv_resume :: "cv_pending \<Rightarrow> cv_reply \<Rightarrow> cv_state \<Rightarrow> cv_state \<times> cv_pending list" where
  "cv_resume (Cv_load n _ _) (Cv_result r) s = (loadDocuments_done n r s, [])"
| "cv_resume (Cv_timer c) Cv_tick s = loadDocuments c (cv_selectedCollection c) s"
| "cv_resume (Cv_saving c _) (Cv_ack r) s = handleSaveDocument_done c r s"
| "cv_resume (Cv_deleting c _) (Cv_ack r) s = handleDelete_done c r s"
| "cv_resume _ _ s = (s, [])"

section \<open>Rendering\<close>

text \<open>The columns: the distinct keys of the documents, the first six.\<close>

definition allKeys :: "json list \<Rightarrow> string list" where
  "allKeys docs = take 6 (dedup (concat (map object_keys docs)))"

definition displayVal :: "json \<Rightarrow> string \<Rightarrow> string" where
  "displayVal doc k =
     (case get_key doc k of
        Some (JArr vs) \<Rightarrow> JSON_stringify (JArr vs)
      | Some (JObj kvs) \<Rightarrow> JSON_stringify (JObj kvs)
      | v \<Rightarrow> opt_to_string v)"

definition cv_header :: "cv_state \<Rightarrow> cv_event node" where
  "cv_header s =
     El ''div'' []
       ([El ''div'' []
          [El ''h1'' [] [El ''Layers'' [] [], El ''span'' [] [Txt ''Document Collections'']],
           El ''p'' [] [Txt ''Browse and query CSON-encoded NoSQL collections with schema validation'']]] @
        (if cv_selectedCollection s \<noteq> []
         then [El ''button'' [OnClick Cv_openCreate] [El ''Plus'' [] [], El ''span'' [] [Txt ''Insert Document'']]]
         else []))"

definition cv_tabs :: "cv_state \<Rightarrow> cv_event node" where
  "cv_tabs s =
     El ''div'' []
       (if cv_collections s = [] then [El ''span'' [] [Txt ''No collections found'']]
        else map (\<lambda>c. El ''button''
               [OnClick (Cv_select (co_name c)),
                Attr ''className'' (if cv_selectedCollection s = co_name c then ''active'' else ''inactive'')]
               [Txt (co_name c)]) (cv_collections s))"

definition op_options :: "'e node list" where
  "op_options =
     [El ''option'' [Attr ''value'' ''eq''] [Txt ''== (Equals)''],
      El ''option'' [Attr ''value'' ''ne''] [Txt ''!= (Not Equals)''],
      El ''option'' [Attr ''value'' ''gt''] [Txt ''> (Greater Than)''],
      El ''option'' [Attr ''value'' ''gte''] [Txt ''>= (Greater or Equal)''],
      El ''option'' [Attr ''value'' ''lt''] [Txt ''< (Less Than)''],
      El ''option'' [Attr ''value'' ''lte''] [Txt ''<= (Less or Equal)''],
      El ''option'' [Attr ''value'' ''contains''] [Txt ''Contains (Substring)'']]"

definition cv_filterBar :: "cv_state \<Rightarrow> cv_event node" where
  "cv_filterBar s =
     El ''div'' []
       ([El ''div'' [] [El ''Filter'' [] [], El ''span'' [] [Txt ''Filter:'']],
         El ''input'' [Attr ''type'' ''text'', Attr ''placeholder'' ''Field name (e.g. status, age)'',
           Attr ''value'' (cv_filterField s), OnChange Cv_setFilterField] [],
         El ''select'' [Attr ''value'' (cv_filterOp s), OnChange Cv_setFilterOp] op_options,
         El ''input'' [Attr ''type'' ''text'', Attr ''placeholder'' ''Value (e.g. active, 25)'',
           Attr ''value'' (cv_filterVal s), OnChange Cv_setFilterVal] [],
         El ''button'' [OnClick Cv_apply] [El ''Search'' [] [], El ''span'' [] [Txt ''Apply Filter'']]] @
        (if cv_filterField s \<noteq> [] then [El ''button'' [OnClick Cv_clear] [Txt ''Clear'']] else []))"

definition cv_error_banner :: "cv_state \<Rightarrow> cv_event node list" where
  "cv_error_banner s =
     (case cv_error s of
        None \<Rightarrow> []
      | Some m \<Rightarrow> if m = [] then [] else [El ''div'' [] [El ''AlertCircle'' [] [], El ''span'' [] [Txt m]]])"

definition cv_cell :: "json \<Rightarrow> string \<Rightarrow> cv_event node" where
  "cv_cell doc k =
     El ''td'' [Attr ''title'' (displayVal doc k)]
       [if k = ''_id'' then El ''span'' [] [Txt (displayVal doc k)] else Txt (displayVal doc k)]"

definition cv_row :: "string list \<Rightarrow> json \<Rightarrow> cv_event node" where
  "cv_row ks doc =
     (let i = opt_to_string (get_key doc ''_id'')
      in El ''tr'' []
           (map (cv_cell doc) ks @
            [El ''td'' []
               [El ''button'' [OnClick (Cv_view doc), Attr ''title'' ''View Full JSON''] [El ''Eye'' [] []],
                El ''button'' [OnClick (Cv_openEdit doc), Attr ''title'' ''Edit Document''] [El ''Edit'' [] []],
                El ''button'' [OnClick (Cv_delete i True), OnClick (Cv_delete i False), Attr ''title'' ''Delete Document'']
                  [El ''Trash2'' [] []]]]))"

definition cv_table :: "cv_state \<Rightarrow> cv_event node" where
  "cv_table s =
     (let ks = allKeys (cv_documents s);
          span = Attr ''colSpan'' (nat_to_string (length ks + 1))
      in El ''div'' []
           [El ''div'' []
              [El ''span'' [] [Txt (nat_to_string (length (cv_documents s)) @ '' Documents Loaded'')],
               El ''span'' [] [Txt ''CSON Zero-Copy Projection'']],
            El ''div'' []
              [El ''table'' []
                 [El ''thead'' [] [El ''tr'' [] (map (\<lambda>k. El ''th'' [] [Txt k]) ks @ [El ''th'' [] [Txt ''Actions'']])],
                  El ''tbody'' []
                    (if cv_loading s then [El ''tr'' [] [El ''td'' [span] [Txt ''Loading collection documents...'']]]
                     else if cv_documents s = [] then [El ''tr'' [] [El ''td'' [span] [Txt ''No documents found.'']]]
                     else map (cv_row ks) (cv_documents s))]]])"

text \<open>
  An interpolated JSON value: text and numbers show, \<open>null\<close>, \<open>undefined\<close> and booleans do not,
  an array shows its elements, and an object makes the render throw.
\<close>

definition object_child_error :: js_error where
  "object_child_error = Js_error ''Objects are not valid as a React child''"

fun react_child :: "json \<Rightarrow> string outcome" where
  "react_child (JStr s) = Inr s"
| "react_child (JNum x) = Inr (num_to_string x)"
| "react_child (JObj _) = Inl object_child_error"
| "react_child (JArr vs) =
     (if list_all (\<lambda>v. \<not> isl (react_child v)) vs then Inr (concat (map (\<lambda>v. projr (react_child v)) vs)) else Inl object_child_error)"
| "react_child _ = Inr []"

definition cv_viewer :: "cv_state \<Rightarrow> cv_event node list outcome" where
  "cv_viewer s =
     (case cv_viewDoc s of
        None \<Rightarrow> Inr []
      | Some d \<Rightarrow>
          (case (case get_key d ''_id'' of Some i \<Rightarrow> react_child i | None \<Rightarrow> Inr []) of
             Inl e \<Rightarrow> Inl e
           | Inr i \<Rightarrow>
               Inr [El ''div'' []
                 [El ''div'' []
                    [El ''div'' []
                       [El ''h3'' [] [Txt (''Document: '' @ i)],
                        El ''button'' [OnClick Cv_closeView] [Txt ''Close'']],
                     El ''pre'' [] [Txt (JSON_pretty d)]]]]))"

definition cv_modal :: "cv_state \<Rightarrow> cv_event node list" where
  "cv_modal s =
     (if \<not> cv_isModalOpen s then []
      else
        [El ''div'' []
           [El ''div'' []
              [El ''div'' []
                 [El ''h3'' [] [Txt (if cv_modalMode s = Mode_create then ''Insert New Document'' else ''Edit Document'')],
                  El ''button'' [OnClick Cv_closeModal] [Txt ''Cancel'']],
               El ''div'' []
                 [El ''label'' [] [Txt ''JSON Payload''],
                  El ''textarea'' [Attr ''value'' (cv_jsonInput s), OnChange Cv_setJsonInput, Attr ''rows'' ''12''] []],
               El ''div'' []
                 [El ''button'' [OnClick Cv_closeModal] [Txt ''Cancel''],
                  El ''button'' [OnClick Cv_save] [Txt ''Save Document'']]]]])"

definition cv_render :: "cv_state \<Rightarrow> cv_event node outcome" where
  "cv_render s =
     (case cv_viewer s of
        Inl e \<Rightarrow> Inl e
      | Inr viewer \<Rightarrow>
          Inr (El ''div'' []
            ([cv_header s, cv_tabs s, cv_filterBar s] @ cv_error_banner s @ [cv_table s] @ viewer @ cv_modal s)))"

text \<open>The user acts on the rendered tree; the parent passes a new catalog at any time.\<close>

definition cv_can :: "cv_state \<Rightarrow> cv_event \<Rightarrow> bool" where
  "cv_can s e = ((\<exists>n. cv_render s = Inr n \<and> user_can n e) \<or> (\<exists>cat. e = Cv_catalog cat))"

definition cv_start :: "cv_state \<times> cv_pending list" where
  "cv_start = (cv_init, [])"

abbreviation cv_reach :: "cv_state \<times> cv_pending list \<Rightarrow> bool" where
  "cv_reach \<equiv> view_reach cv_start cv_can cv_handle cv_fit cv_resume"

section \<open>The latest request wins\<close>

fun cv_rid :: "cv_pending \<Rightarrow> nat option" where
  "cv_rid (Cv_load n _ _) = Some n"
| "cv_rid _ = None"

lemma loadDocuments_issued:
  "issued (cv_latestRequest s) (cv_loading s) (cv_latestRequest (fst (loadDocuments c k s)))
     (cv_loading (fst (loadDocuments c k s))) (List.map_filter cv_rid (snd (loadDocuments c k s)))"
  by (simp add: loadDocuments_def Let_def)

lemma cv_commit_issued:
  assumes "issued l b (cv_latestRequest (fst res)) (cv_loading (fst res)) (List.map_filter cv_rid (snd res))"
  shows "issued l b (cv_latestRequest (fst (cv_commit old res))) (cv_loading (fst (cv_commit old res)))
     (List.map_filter cv_rid (snd (cv_commit old res)))"
  using assms issued_trans [OF assms loadDocuments_issued]
  by (cases res) (simp add: cv_commit_def Let_def case_prod_beta)

lemma cv_act_issued:
  "issued (cv_latestRequest s) (cv_loading s) (cv_latestRequest (fst (cv_act e s))) (cv_loading (fst (cv_act e s)))
     (List.map_filter cv_rid (snd (cv_act e s)))"
  by (cases e)
    (simp_all add: loadDocuments_issued Let_def handleOpenCreate_def handleOpenEdit_def
      handleSaveDocument_def save_failed_def handleDelete_def split: sum.splits)

lemma cv_resume_issued:
  assumes "cv_fit p r" and "cv_rid p = None"
  shows "issued (cv_latestRequest s) (cv_loading s) (cv_latestRequest (fst (cv_resume p r s)))
     (cv_loading (fst (cv_resume p r s))) (List.map_filter cv_rid (snd (cv_resume p r s)))"
  using assms loadDocuments_issued
  by (cases "(p, r)" rule: cv_fit.cases)
    (auto simp: handleSaveDocument_done_def handleDelete_done_def save_failed_def loadDocuments_def
      Let_def split: sum.splits)

lemma cv_settle:
  assumes "cv_fit p r" and "cv_rid p = Some n"
  shows "issued (cv_latestRequest s) (if n = cv_latestRequest s then False else cv_loading s)
     (cv_latestRequest (fst (cv_resume p r s))) (cv_loading (fst (cv_resume p r s)))
     (List.map_filter cv_rid (snd (cv_resume p r s)))"
  using assms
  by (cases "(p, r)" rule: cv_fit.cases) (auto simp: loadDocuments_done_def split: sum.splits)

interpretation cv: latest_wins cv_start cv_can cv_handle cv_fit cv_resume cv_latestRequest cv_loading cv_rid
proof unfold_locales
  show "issued 0 False (cv_latestRequest (fst cv_start)) (cv_loading (fst cv_start)) (List.map_filter cv_rid (snd cv_start))"
    by (simp add: cv_start_def cv_init_def)
next
  fix s e
  show "issued (cv_latestRequest s) (cv_loading s) (cv_latestRequest (fst (cv_handle e s)))
     (cv_loading (fst (cv_handle e s))) (List.map_filter cv_rid (snd (cv_handle e s)))"
    unfolding cv_handle_def by (rule cv_commit_issued) (rule cv_act_issued)
qed (fact cv_resume_issued cv_settle)+

text \<open>
  C6.  In every run of the document browser, the page shows its loading row exactly while the
  newest query it sent has not been answered.
\<close>

theorem cv_loading_iff_newest_pending:
  assumes "cv_reach (s, q)"
  shows "cv_loading s \<longleftrightarrow> (\<exists>collection payload. Cv_load (cv_latestRequest s) collection payload \<in> set q)"
proof -
  have "cv_loading s = (cv_latestRequest s \<in> set (List.map_filter cv_rid q))"
    using cv.busy_iff_latest_pending [OF assms] by simp
  moreover have "n \<in> set (List.map_filter cv_rid q) \<longleftrightarrow> (\<exists>c p. Cv_load n c p \<in> set q)" for n
    by (induction q) (auto split: option.splits elim: cv_rid.elims)
  ultimately show ?thesis by simp
qed


section \<open>The selected collection\<close>

text \<open>What a user can do to the page: choose a listed collection, or anything but choose one.\<close>

definition cv_user_event :: "cv_state \<Rightarrow> cv_event \<Rightarrow> bool" where
  "cv_user_event s e =
     (case e of Cv_select name \<Rightarrow> name \<in> co_name ` set (cv_collections s) | Cv_catalog _ \<Rightarrow> False | _ \<Rightarrow> True)"

lemma cv_row_can: "user_can (cv_row ks d) e \<Longrightarrow> cv_user_event s e"
  by (auto simp: cv_row_def cv_cell_def cv_user_event_def Let_def split: if_splits)

lemma cv_table_can: "user_can (cv_table s) e \<Longrightarrow> cv_user_event s e"
  by (auto simp: cv_table_def Let_def intro: cv_row_can split: if_splits)

lemma cv_parts_can:
  "user_can (cv_header s) e \<Longrightarrow> cv_user_event s e"
  "user_can (cv_tabs s) e \<Longrightarrow> cv_user_event s e"
  "user_can (cv_filterBar s) e \<Longrightarrow> cv_user_event s e"
  "c \<in> set (cv_error_banner s) \<Longrightarrow> user_can c e \<Longrightarrow> cv_user_event s e"
  "c \<in> set (cv_modal s) \<Longrightarrow> user_can c e \<Longrightarrow> cv_user_event s e"
  by (auto simp: cv_header_def cv_tabs_def cv_filterBar_def op_options_def cv_error_banner_def cv_modal_def cv_user_event_def
      split: if_splits option.splits)

lemma cv_viewer_can: "cv_viewer s = Inr v \<Longrightarrow> c \<in> set v \<Longrightarrow> user_can c e \<Longrightarrow> cv_user_event s e"
  by (cases "cv_viewDoc s") (auto simp: cv_viewer_def cv_user_event_def split: sum.splits)

lemma cv_user_events:
  assumes "cv_render s = Inr n" and "user_can n e"
  shows "cv_user_event s e"
proof -
  obtain v where v: "cv_viewer s = Inr v" using assms(1) by (cases "cv_viewer s") (simp_all add: cv_render_def)
  then have n: "n = El ''div'' []
      ([cv_header s, cv_tabs s, cv_filterBar s] @ cv_error_banner s @ [cv_table s] @ v @ cv_modal s)"
    using assms(1) by (simp add: cv_render_def)
  from assms(2) obtain c where "c \<in> set ([cv_header s, cv_tabs s, cv_filterBar s] @ cv_error_banner s @ [cv_table s] @ v @ cv_modal s)"
      and "user_can c e"
    unfolding n user_can_plain by blast
  then show ?thesis using cv_parts_can cv_table_can cv_viewer_can [OF v] by auto
qed

lemma cv_can_select: "cv_can s (Cv_select n) \<Longrightarrow> n \<in> co_name ` set (cv_collections s)"
  using cv_user_events [of s _ "Cv_select n"] by (auto simp: cv_can_def cv_user_event_def)

definition cv_listed :: "cv_state \<Rightarrow> bool" where
  "cv_listed s = (cv_selectedCollection s = [] \<or> cv_selectedCollection s \<in> co_name ` set (cv_collections s))"

lemma cv_sync_listed: "cv_sync cs k = [] \<or> cv_sync cs k \<in> co_name ` set cs"
  by (auto simp: cv_sync_def list_ex_iff split: list.splits)

lemma loadDocuments_frame [simp]:
  "cv_selectedCollection (fst (loadDocuments c k s)) = cv_selectedCollection s"
  "cv_collections (fst (loadDocuments c k s)) = cv_collections s"
  "cv_documents (fst (loadDocuments c k s)) = cv_documents s"
  by (simp_all add: loadDocuments_def Let_def)

lemma cv_commit_frame [simp]:
  "cv_selectedCollection (fst (cv_commit old res)) = cv_selectedCollection (fst res)"
  "cv_collections (fst (cv_commit old res)) = cv_collections (fst res)"
  by (cases res; simp add: cv_commit_def Let_def case_prod_beta)+

lemma cv_act_listed:
  assumes "cv_listed s" and "cv_can s e"
  shows "cv_listed (fst (cv_act e s))"
  using assms cv_can_select cv_sync_listed
  by (cases e)
    (auto simp: cv_listed_def Let_def handleOpenCreate_def handleOpenEdit_def handleSaveDocument_def
      save_failed_def handleDelete_def split: sum.splits)

lemma cv_resume_frame [simp]:
  "cv_selectedCollection (fst (cv_resume p r s)) = cv_selectedCollection s"
  "cv_collections (fst (cv_resume p r s)) = cv_collections s"
  by (cases "(p, r, s)" rule: cv_resume.cases;
      simp add: loadDocuments_done_def handleSaveDocument_done_def handleDelete_done_def save_failed_def
        case_prod_beta split: sum.splits)+

fun cv_weight :: "cv_pending \<Rightarrow> nat" where
  "cv_weight (Cv_saving _ _) = 3"
| "cv_weight (Cv_deleting _ _) = 2"
| "cv_weight (Cv_timer _) = 2"
| "cv_weight _ = 1"

interpretation cv_drain: drains cv_fit cv_resume cv_weight
proof unfold_locales
  show "cv_fit p r \<Longrightarrow> sum_list (map cv_weight (snd (cv_resume p r s))) < cv_weight p" for p r s
    by (cases "(p, r)" rule: cv_fit.cases)
      (auto simp: handleSaveDocument_done_def handleDelete_done_def loadDocuments_def Let_def split: sum.splits)
  show "\<exists>r. cv_fit p r" for p by (cases p) (metis cv_fit.simps)+
qed

lemma cv_no_catalog: "cv_render s = Inr n \<Longrightarrow> \<not> user_can n (Cv_catalog cat)"
  using cv_user_events [of s n "Cv_catalog cat"] by (auto simp: cv_user_event_def)

lemma cv_act_collections: "e \<notin> range Cv_catalog \<Longrightarrow> cv_collections (fst (cv_act e s)) = cv_collections s"
  by (cases e) (auto simp: Let_def handleOpenCreate_def handleOpenEdit_def handleSaveDocument_def
      save_failed_def handleDelete_def split: sum.splits)

text \<open>The page fails to render only for the viewer of a document whose id holds an object.\<close>

fun holds_object :: "json \<Rightarrow> bool" where
  "holds_object (JObj _) = True"
| "holds_object (JArr vs) = list_ex holds_object vs"
| "holds_object _ = False"

lemma react_child_fails: "react_child v = Inl e \<Longrightarrow> e = object_child_error"
  by (cases v) (auto split: if_splits)

lemma react_child_isl: "isl (react_child v) = holds_object v"
  by (induction v) (auto simp: list_all_iff list_ex_iff)

lemma cv_render_fails_iff:
  "(\<exists>e. cv_render s = Inl e) \<longleftrightarrow> (\<exists>d i. cv_viewDoc s = Some d \<and> get_key d ''_id'' = Some i \<and> holds_object i)"
  by (auto simp: cv_render_def cv_viewer_def isl_def react_child_isl [symmetric] split: sum.splits option.splits)

lemma cv_render_fails: "cv_render s = Inl e \<Longrightarrow> e = object_child_error \<and> cv_viewDoc s \<noteq> None"
  by (auto simp: cv_render_def cv_viewer_def react_child_fails split: sum.splits option.splits)

interpretation cv_prop: prop_view "\<lambda>s e. \<exists>n. cv_render s = Inr n \<and> user_can n e" cv_handle cv_resume Cv_catalog
  "\<lambda>cat. or_list (Option.bind cat cat_collections)" cv_collections
proof unfold_locales
  show "\<exists>n. cv_render s = Inr n \<and> user_can n e \<Longrightarrow> cv_collections (fst (cv_handle e s)) = cv_collections s" for s e
    using cv_no_catalog cv_act_collections [of e s] by (auto simp: cv_handle_def)
qed (simp_all add: cv_handle_def Let_def)

interpretation cv_sel: view_invariant cv_start cv_can cv_handle cv_fit cv_resume "\<lambda>s q. cv_listed s"
proof unfold_locales
  show "cv_listed (fst cv_start)" by (simp add: cv_listed_def cv_start_def cv_init_def)
next
  fix s q e
  assume "cv_listed s" and "cv_can s e"
  then show "cv_listed (fst (cv_handle e s))"
    using cv_act_listed [of s e] by (simp add: cv_handle_def cv_listed_def)
next
  fix s q1 p q2 r
  assume "cv_listed s"
  then show "cv_listed (fst (cv_resume p r s))" by (simp add: cv_listed_def)
qed

text \<open>
  C19.  The selected collection is empty or one of those the catalog lists, in every run: the user
  can only click a listed tab, and a catalog that drops the selection moves it.
\<close>

theorem cv_selection_listed:
  assumes "cv_reach (s, q)"
  shows "cv_selectedCollection s = [] \<or> cv_selectedCollection s \<in> co_name ` set (cv_collections s)"
  using cv_sel.reach_inv [OF assms] by (simp add: cv_listed_def)

text \<open>
  Every query an event sends (a tab, a new catalog, the Apply button) is for the collection that
  is selected after the event and carries the filter on display.
\<close>

theorem cv_event_queries_selection:
  assumes "Cv_load n collection payload \<in> set (snd (cv_handle e s))"
  shows "collection = cv_selectedCollection (fst (cv_handle e s))
     \<and> payload = cv_payload (fst (cv_handle e s)) \<and> n = cv_latestRequest (fst (cv_handle e s))"
  using assms
  by (cases e)
    (auto simp: cv_handle_def cv_commit_def loadDocuments_def Let_def handleSaveDocument_def handleDelete_def
      handleOpenCreate_def handleOpenEdit_def save_failed_def cv_payload_def cv_filters_def
      split: sum.splits if_splits prod.splits)

text \<open>
  C39.  The Clear button empties the filter fields, but the reload it schedules runs the
  \<open>loadDocuments\<close> of the render before the click: it sends the filter just cleared.
\<close>

theorem cv_clear_reloads_old_filter:
  assumes "trim (cv_filterField s) \<noteq> []" and "cv_selectedCollection s \<noteq> []"
  shows "cv_handle Cv_clear s = (s\<lparr>cv_filterField := [], cv_filterVal := []\<rparr>, [Cv_timer s])
    \<and> snd (cv_resume (Cv_timer s) Cv_tick t) =
      [Cv_load (Suc (cv_latestRequest t)) (cv_selectedCollection s) (cv_payload s)]
      \<and> q_filters (cv_payload s) =
          Some [\<lparr>f_field = trim (cv_filterField s), f_op = cv_filterOp s, f_value = filter_value (cv_filterVal s)\<rparr>]"
  using assms
  by (simp add: cv_handle_def cv_commit_def loadDocuments_def cv_payload_def cv_filters_def Let_def)

section \<open>A concrete run\<close>

text \<open>
  Two collections; a save in the first is still on its way when the user opens the second.
\<close>

definition ex_object :: "string \<Rightarrow> CatalogObject" where
  "ex_object n = \<lparr>co_id = 1, co_type = ''Collection'', co_name = n, co_root = 1, co_flags = 0, co_indexes = None\<rparr>"

definition ex_catalog :: CatalogData where
  "ex_catalog =
     \<lparr>cat_buckets = Some [], cat_collections = Some [ex_object ''a'', ex_object ''b''], cat_queues = Some []\<rparr>"

definition ex_result :: "string \<Rightarrow> QueryResult outcome" where
  "ex_result n =
     Inr \<lparr>qr_documents = Some [JObj [(''_id'', JStr n)]], qr_count = 1, qr_execution_plan = None, qr_duration_ms = 0\<rparr>"

definition ex_open :: "cv_state \<times> cv_pending list" where
  "ex_open = do_event cv_handle (Cv_catalog (Some ex_catalog)) cv_start"

definition ex_saving :: "cv_state \<times> cv_pending list" where
  "ex_saving =
     do_event cv_handle Cv_save (do_event cv_handle (Cv_setJsonInput ''null'') (do_event cv_handle Cv_openCreate
       (do_reply cv_resume 0 (Cv_result (ex_result ''doc-a'')) ex_open)))"

definition ex_switched :: "cv_state \<times> cv_pending list" where
  "ex_switched =
     do_reply cv_resume 1 (Cv_result (ex_result ''doc-b'')) (do_event cv_handle (Cv_select ''b'') ex_saving)"

definition ex_stale :: "cv_state \<times> cv_pending list" where
  "ex_stale =
     do_reply cv_resume 0 (Cv_result (ex_result ''doc-a'')) (do_reply cv_resume 0 (Cv_ack (Inr ())) ex_switched)"

lemma clicks_can: "(case cv_render s of Inr n \<Rightarrow> e \<in> set (clicks n) | Inl _ \<Rightarrow> False) \<Longrightarrow> cv_can s e"
  by (auto simp: cv_can_def user_can_def split: sum.splits)

lemma ex_open_reach: "cv_reach ex_open"
  unfolding ex_open_def by (rule reach_do_event [OF view_reach.mount]) (simp add: cv_can_def)

definition ex_a :: cv_state where
  "ex_a = cv_init\<lparr>cv_collections := [ex_object ''a'', ex_object ''b''], cv_selectedCollection := ''a'',
     cv_documents := [JObj [(''_id'', JStr ''doc-a'')]], cv_latestRequest := 1\<rparr>"

definition ex_s :: cv_state where
  "ex_s = ex_a\<lparr>cv_isModalOpen := True, cv_jsonInput := ''null''\<rparr>"

lemma ex_open_eq:
  "ex_open =
     (ex_a\<lparr>cv_documents := [], cv_loading := True\<rparr>, [Cv_load 1 ''a'' (cv_payload cv_init)])"
  by code_simp

lemma ex_a_viewDoc [simp]: "cv_viewDoc ex_a = None"
  by (simp add: ex_a_def cv_init_def)

lemma ex_loaded_eq: "do_reply cv_resume 0 (Cv_result (ex_result ''doc-a'')) ex_open = (ex_a, [])"
  by code_simp

lemma ex_saving_eq: "ex_saving = (ex_s, [Cv_saving ex_s (insertDocument ''a'' JNull)])"
  unfolding ex_saving_def ex_loaded_eq by code_simp

lemma ex_switched_eq:
  "ex_switched =
     (ex_s\<lparr>cv_selectedCollection := ''b'', cv_latestRequest := 2, cv_documents := [JObj [(''_id'', JStr ''doc-b'')]]\<rparr>,
      [Cv_saving ex_s (insertDocument ''a'' JNull)])"
  unfolding ex_switched_def ex_saving_eq by code_simp

lemma ex_stale_eq:
  "ex_stale =
     (ex_s\<lparr>cv_selectedCollection := ''b'', cv_latestRequest := 3, cv_isModalOpen := False\<rparr>, [Cv_onRefreshCatalog])"
  unfolding ex_stale_def ex_switched_eq by code_simp

lemma ex_saving_reach: "cv_reach ex_saving"
proof -
  have 1: "cv_reach (ex_a, [])"
    unfolding ex_loaded_eq [symmetric]
    by (rule reach_do_reply [OF ex_open_reach]) (simp_all add: ex_open_eq)
  have 2: "cv_reach (do_event cv_handle Cv_openCreate (ex_a, []))"
    by (rule reach_do_event [OF 1], rule clicks_can) code_simp
  have 3: "cv_reach (do_event cv_handle (Cv_setJsonInput ''null'') (do_event cv_handle Cv_openCreate (ex_a, [])))"
    by (rule reach_do_event [OF 2])
      (simp add: cv_can_def cv_render_def cv_viewer_def cv_modal_def do_event_def cv_handle_def cv_commit_def handleOpenCreate_def)
  show ?thesis
    unfolding ex_saving_def ex_loaded_eq
    by (rule reach_do_event [OF 3], rule clicks_can) code_simp
qed

lemma ex_switched_reach: "cv_reach ex_switched"
  unfolding ex_switched_def
proof (rule reach_do_reply)
  show "cv_reach (do_event cv_handle (Cv_select ''b'') ex_saving)"
    by (rule reach_do_event [OF ex_saving_reach], rule clicks_can, unfold ex_saving_eq) code_simp
qed (unfold ex_saving_eq, code_simp, code_simp)

lemma ex_stale_reach: "cv_reach ex_stale"
  unfolding ex_stale_def
proof (rule reach_do_reply)
  show "cv_reach (do_reply cv_resume 0 (Cv_ack (Inr ())) ex_switched)"
    by (rule reach_do_reply [OF ex_switched_reach]) (simp_all add: ex_switched_eq)
qed (unfold ex_switched_eq, code_simp, code_simp)

text \<open>
  C38.  A save that ends after the user opened another tab reloads the collection of the old tab:
  there is a run at whose end nothing loads, the second collection is selected, and the table
  holds the documents of the first.
\<close>

theorem cv_stale_save_shows_other_collection:
  "\<exists>s q. cv_reach (s, q) \<and> \<not> cv_loading s \<and> cv_selectedCollection s = ''b''
     \<and> cv_documents s = [JObj [(''_id'', JStr ''doc-a'')]]
     \<and> (\<forall>n collection payload. Cv_load n collection payload \<notin> set q)"
  using ex_stale_reach unfolding ex_stale_eq by (intro exI conjI) (auto simp: ex_s_def ex_a_def cv_init_def)

text \<open>Instances of the theorems above on the run.\<close>

theorem cv_loading_iff_newest_pending_witness:
  "cv_loading (fst ex_open) \<longleftrightarrow>
     (\<exists>collection payload. Cv_load (cv_latestRequest (fst ex_open)) collection payload \<in> set (snd ex_open))"
  by (rule cv_loading_iff_newest_pending) (simp add: ex_open_reach)

definition ex_two :: "cv_state \<times> cv_pending list" where
  "ex_two = do_event cv_handle (Cv_select ''b'') ex_open"

lemma ex_two_eq:
  "ex_two =
     (ex_a\<lparr>cv_documents := [], cv_loading := True, cv_selectedCollection := ''b'', cv_latestRequest := 2\<rparr>,
      [] @ Cv_load 1 ''a'' (cv_payload cv_init) # [Cv_load 2 ''b'' (cv_payload cv_init)])"
  unfolding ex_two_def ex_open_eq by code_simp

lemma ex_two_reach: "cv_reach ex_two"
  unfolding ex_two_def
  by (rule reach_do_event [OF ex_open_reach], rule clicks_can, unfold ex_open_eq) code_simp


theorem cv_selection_listed_witness:
  "cv_selectedCollection (fst ex_open) = [] \<or>
     cv_selectedCollection (fst ex_open) \<in> co_name ` set (cv_collections (fst ex_open))"
  by (rule cv_selection_listed [where q = "snd ex_open"]) (simp add: ex_open_reach)

theorem cv_event_queries_selection_witness:
  "''b'' = cv_selectedCollection (fst (cv_handle (Cv_select ''b'') ex_a))
     \<and> cv_payload ex_a = cv_payload (fst (cv_handle (Cv_select ''b'') ex_a))
     \<and> 2 = cv_latestRequest (fst (cv_handle (Cv_select ''b'') ex_a))"
  by (rule cv_event_queries_selection) code_simp

theorem cv_clear_reloads_old_filter_witness:
  "cv_handle Cv_clear (ex_a\<lparr>cv_filterField := ''name''\<rparr>) = (ex_a, [Cv_timer (ex_a\<lparr>cv_filterField := ''name''\<rparr>)])"
proof -
  have "trim ''name'' \<noteq> []" by code_simp
  then show ?thesis
    using cv_clear_reloads_old_filter [of "ex_a\<lparr>cv_filterField := ''name''\<rparr>" ex_a]
    by (simp add: ex_a_def cv_init_def)
qed

section \<open>Columns, filters and saves\<close>

text \<open>
  C33.  The table has at most six columns, no column twice, each a key of a loaded document, and
  every key when there are no more than six.
\<close>

theorem allKeys_columns:
  "distinct (allKeys docs) \<and> length (allKeys docs) \<le> 6
     \<and> set (allKeys docs) \<subseteq> (\<Union>d \<in> set docs. set (object_keys d))
     \<and> (card (\<Union>d \<in> set docs. set (object_keys d)) \<le> 6 \<longrightarrow>
          set (allKeys docs) = (\<Union>d \<in> set docs. set (object_keys d)))"
proof -
  let ?ks = "dedup (concat (map object_keys docs))"
  have set: "set ?ks = (\<Union>d \<in> set docs. set (object_keys d))" by simp
  have "length ?ks = card (set ?ks)" by (simp only: distinct_card [OF distinct_dedup])
  then have "card (\<Union>d \<in> set docs. set (object_keys d)) \<le> 6 \<Longrightarrow> take 6 ?ks = ?ks"
    by (simp only: set) simp
  then show ?thesis
    using set set_take_subset [of 6 ?ks] unfolding allKeys_def by (auto simp del: set_dedup)
qed

theorem allKeys_columns_witness:
  "set (allKeys [JObj [(''_id'', JNull), (''a'', JNull)], JObj [(''b'', JNull), (''a'', JNull)]]) = {''_id'', ''a'', ''b''}"
  using allKeys_columns [of "[JObj [(''_id'', JNull), (''a'', JNull)], JObj [(''b'', JNull), (''a'', JNull)]]"]
  by (simp add: insert_commute)



definition ex_body :: string where
  "ex_body = ''{'' @ quote ''_id'' @ '':'' @ quote ''k1'' @ '','' @ quote ''n'' @ '':[-1.50,null]}''"


end
