(* ===== verification/Query_Console.thy ===== *)
theory Query_Console
  imports Collections_View
begin

text \<open>
  The query console of the Studio (\<open>studio/frontend/src/views/QueryConsoleView.tsx\<close>): the
  query builder, the execution of a query, the Go snippet and the results pane.
\<close>

record qc_state =
  qc_collections :: "CatalogObject list"
  qc_selectedCollection :: string
  qc_whereField :: string
  qc_whereOp :: string
  qc_whereVal :: string
  qc_orderField :: string
  qc_orderDesc :: bool
  qc_limit :: jsnum
  qc_result :: "QueryResult option"
  qc_loading :: bool
  qc_error :: "string option"

text \<open>The first name of a list of catalog objects, \<open>collections[0]?.name || ''\<close>.\<close>

definition first_name :: "CatalogObject list \<Rightarrow> string" where
  "first_name cs = (case cs of [] \<Rightarrow> [] | c # _ \<Rightarrow> co_name c)"

definition qc_init :: "CatalogData option \<Rightarrow> qc_state" where
  "qc_init cat =
     (let cs = or_list (Option.bind cat cat_collections)
      in \<lparr>qc_collections = cs, qc_selectedCollection = first_name cs, qc_whereField = [], qc_whereOp = ''eq'',
          qc_whereVal = [], qc_orderField = [], qc_orderDesc = False, qc_limit = Fin 20, qc_result = None,
          qc_loading = False, qc_error = None\<rparr>)"

datatype qc_pending = Qc_run string query_payload

datatype qc_event =
    Qc_catalog "CatalogData option"
  | Qc_collection string
  | Qc_setWhereField string
  | Qc_setWhereOp string
  | Qc_setWhereVal string
  | Qc_setOrderField string
  | Qc_setDirection string
  | Qc_setLimit string
  | Qc_execute bool

definition qc_filters :: "qc_state \<Rightarrow> query_filter list" where
  "qc_filters s =
     (if trim (qc_whereField s) \<noteq> []
      then [\<lparr>f_field = trim (qc_whereField s), f_op = qc_whereOp s, f_value = filter_value (qc_whereVal s)\<rparr>]
      else [])"

definition qc_payload :: "bool \<Rightarrow> qc_state \<Rightarrow> query_payload" where
  "qc_payload explainOnly s =
     \<lparr>q_filters = Some (qc_filters s),
      q_order_by = (if trim (qc_orderField s) \<noteq> [] then Some (trim (qc_orderField s), qc_orderDesc s) else None),
      q_limit = Some (qc_limit s), q_offset = None, q_explain = Some explainOnly\<rparr>"

definition handleExecute :: "bool \<Rightarrow> qc_state \<Rightarrow> qc_state \<times> qc_pending list" where
  "handleExecute explainOnly s =
     (if qc_selectedCollection s = [] then (s, [])
      else (s\<lparr>qc_loading := True, qc_error := None\<rparr>, [Qc_run (qc_selectedCollection s) (qc_payload explainOnly s)]))"

definition handleExecute_done :: "QueryResult outcome \<Rightarrow> qc_state \<Rightarrow> qc_state" where
  "handleExecute_done r s =
     (case r of
        Inr res \<Rightarrow> s\<lparr>qc_result := Some res, qc_loading := False\<rparr>
      | Inl e \<Rightarrow> s\<lparr>qc_error := Some (or_str (message e) ''Query execution failed''), qc_loading := False\<rparr>)"

fun qc_handle :: "qc_event \<Rightarrow> qc_state \<Rightarrow> qc_state \<times> qc_pending list" where
  "qc_handle (Qc_catalog cat) s = (s\<lparr>qc_collections := or_list (Option.bind cat cat_collections)\<rparr>, [])"
| "qc_handle (Qc_collection v) s = (s\<lparr>qc_selectedCollection := v\<rparr>, [])"
| "qc_handle (Qc_setWhereField v) s = (s\<lparr>qc_whereField := v\<rparr>, [])"
| "qc_handle (Qc_setWhereOp v) s = (s\<lparr>qc_whereOp := v\<rparr>, [])"
| "qc_handle (Qc_setWhereVal v) s = (s\<lparr>qc_whereVal := v\<rparr>, [])"
| "qc_handle (Qc_setOrderField v) s = (s\<lparr>qc_orderField := v\<rparr>, [])"
| "qc_handle (Qc_setDirection v) s = (s\<lparr>qc_orderDesc := (v = ''desc'')\<rparr>, [])"
| "qc_handle (Qc_setLimit v) s = (s\<lparr>qc_limit := Number v\<rparr>, [])"
| "qc_handle (Qc_execute b) s = handleExecute b s"

fun qc_resume :: "qc_pending \<Rightarrow> QueryResult outcome \<Rightarrow> qc_state \<Rightarrow> qc_state \<times> qc_pending list" where
  "qc_resume (Qc_run _ _) r s = (handleExecute_done r s, [])"

section \<open>The Go snippet\<close>

definition op_method :: "string \<Rightarrow> string" where
  "op_method op =
     (if op = ''gte'' then ''Gte'' else if op = ''gt'' then ''Gt'' else if op = ''lt'' then ''Lt''
      else if op = ''lte'' then ''Lte'' else ''Eq'')"

definition codeSnippet :: "qc_state \<Rightarrow> string" where
  "codeSnippet s =
     ''col := db.Collection('' @ [CHR 0x22] @ or_str (qc_selectedCollection s) ''collection'' @ [CHR 0x22] @ '')'' @ [CHR 10] @
     ''rows, err := col.Query()'' @
     (if qc_whereField s \<noteq> []
      then [CHR 10] @ ''  .Where('' @ [CHR 0x22] @ qc_whereField s @ [CHR 0x22] @ '').'' @ op_method (qc_whereOp s) @
           ''('' @ qc_whereVal s @ '')'' else []) @
     (if qc_orderField s \<noteq> []
      then [CHR 10] @ ''  .OrderBy('' @ [CHR 0x22] @ qc_orderField s @ [CHR 0x22] @ '', coco.'' @
           (if qc_orderDesc s then ''Desc'' else ''Asc'') @ '')'' else []) @
     (if truthy (Some (JNum (qc_limit s))) then [CHR 10] @ ''  .Limit('' @ num_to_string (qc_limit s) @ '')'' else []) @
     [CHR 10] @ ''  .All()''"

section \<open>Rendering\<close>

text \<open>The options of a collection select, shared by the console and the two playgrounds.\<close>

definition collection_options :: "CatalogObject list \<Rightarrow> 'e node list" where
  "collection_options cs =
     (if cs = [] then [El ''option'' [Attr ''value'' []] [Txt ''(No collections in database)'']]
      else map (\<lambda>c. El ''option'' [Attr ''value'' (co_name c)] [Txt (co_name c)]) cs)"

definition error_banner :: "string option \<Rightarrow> 'e node list" where
  "error_banner e =
     (case e of
        None \<Rightarrow> []
      | Some m \<Rightarrow> if m = [] then [] else [El ''div'' [] [El ''AlertCircle'' [] [], El ''span'' [] [Txt m]]])"

definition qc_builder :: "qc_state \<Rightarrow> qc_event node" where
  "qc_builder s =
     El ''div'' []
       [El ''div'' []
         [El ''h2'' [] [Txt ''Query Parameters''],
          El ''div'' [] [El ''label'' [] [Txt ''Target Collection''],
            El ''select'' [Attr ''value'' (qc_selectedCollection s), OnChange Qc_collection] (collection_options (qc_collections s))],
          El ''div'' [] [El ''label'' [] [Txt ''Predicate (Where)''],
            El ''div'' []
              [El ''input'' [Attr ''type'' ''text'', Attr ''placeholder'' ''field'', Attr ''value'' (qc_whereField s), OnChange Qc_setWhereField] [],
               El ''select'' [Attr ''value'' (qc_whereOp s), OnChange Qc_setWhereOp]
                 [El ''option'' [Attr ''value'' ''eq''] [Txt ''==''], El ''option'' [Attr ''value'' ''gt''] [Txt ''>''],
                  El ''option'' [Attr ''value'' ''gte''] [Txt ''>=''], El ''option'' [Attr ''value'' ''lt''] [Txt ''<''],
                  El ''option'' [Attr ''value'' ''lte''] [Txt ''<='']],
               El ''input'' [Attr ''type'' ''text'', Attr ''placeholder'' ''value'', Attr ''value'' (qc_whereVal s), OnChange Qc_setWhereVal] []]],
          El ''div'' []
            [El ''div'' [] [El ''label'' [] [Txt ''Order By''],
               El ''input'' [Attr ''type'' ''text'', Attr ''placeholder'' ''field'', Attr ''value'' (qc_orderField s), OnChange Qc_setOrderField] []],
             El ''div'' [] [El ''label'' [] [Txt ''Direction''],
               El ''select'' [Attr ''value'' (if qc_orderDesc s then ''desc'' else ''asc''), OnChange Qc_setDirection]
                 [El ''option'' [Attr ''value'' ''asc''] [Txt ''Ascending (ASC)''],
                  El ''option'' [Attr ''value'' ''desc''] [Txt ''Descending (DESC)'']]]],
          El ''div'' [] [El ''label'' [] [Txt ''Result Limit''],
            El ''input'' [Attr ''type'' ''number'', Attr ''value'' (num_to_string (qc_limit s)), OnChange Qc_setLimit] []],
          El ''div'' []
            [El ''button'' [OnClick (Qc_execute False), Disabled (qc_loading s \<or> qc_selectedCollection s = [])]
               [El ''Play'' [] [], El ''span'' [] [Txt ''Execute'']],
             El ''button'' [OnClick (Qc_execute True), Disabled (qc_loading s \<or> qc_selectedCollection s = [])] [Txt ''Explain Plan'']]],
        El ''div'' []
          [El ''div'' [] [El ''Code2'' [] [], El ''span'' [] [Txt ''Equivalent Go Code'']],
           El ''pre'' [] [Txt (codeSnippet s)]]]"

definition qc_plan :: "qc_state \<Rightarrow> qc_event node list" where
  "qc_plan s =
     (case Option.bind (qc_result s) qr_execution_plan of
        None \<Rightarrow> []
      | Some p \<Rightarrow>
          if p = [] then []
          else [El ''div'' []
                  [El ''div'' [] [El ''Layers'' [] [], El ''span'' [] [Txt ''Volcano Physical Execution Plan'']],
                   El ''div'' [] [Txt p]]])"

text \<open>Reading \<open>length\<close> of a missing list throws, and with it the render.\<close>

definition null_length_error :: js_error where
  "null_length_error = Js_error ''Cannot read properties of null''"

definition qc_results :: "qc_state \<Rightarrow> qc_event node outcome" where
  "qc_results s =
     (let rows = nat_to_string (length (or_list (Option.bind (qc_result s) qr_documents)));
          title = El ''div'' [] [El ''CheckCircle2'' [] [], El ''span'' [] [Txt (''Query Results ('' @ rows @ '' rows)'')]];
          timing = (case qc_result s of
                      None \<Rightarrow> []
                    | Some r \<Rightarrow> [El ''span'' [] [El ''Clock'' [] [], Txt (toFixed 2 (qr_duration_ms r) @ '' ms'')]]);
          box = (\<lambda>n. El ''div'' [] [El ''div'' [] (title # timing), El ''div'' [] [n]])
      in if qc_loading s then Inr (box (El ''div'' [] [Txt ''Executing Volcano operators...'']))
         else (case qc_result s of
                 None \<Rightarrow> Inr (box (El ''div'' [] [Txt ''Click Execute to run the query and view results.'']))
               | Some r \<Rightarrow>
                   (case qr_documents r of
                      None \<Rightarrow> Inl null_length_error
                    | Some [] \<Rightarrow> Inr (box (El ''div'' [] [Txt ''No documents matched the query predicates.'']))
                    | Some ds \<Rightarrow> Inr (box (El ''pre'' [] [Txt (JSON_pretty (JArr ds))])))))"

definition qc_render :: "qc_state \<Rightarrow> qc_event node outcome" where
  "qc_render s =
     (case qc_results s of
        Inl e \<Rightarrow> Inl e
      | Inr results \<Rightarrow>
          Inr (El ''div'' []
            [El ''div'' []
               [El ''h1'' [] [El ''Terminal'' [] [], El ''span'' [] [Txt ''Query Console & Execution Planner'']],
                El ''p'' [] [Txt ''Execute structured queries, inspect Volcano physical operators, and analyze AST plans'']],
             El ''div'' []
               [qc_builder s, El ''div'' [] (qc_plan s @ error_banner (qc_error s) @ [results])]]))"

definition qc_can :: "qc_state \<Rightarrow> qc_event \<Rightarrow> bool" where
  "qc_can s e = ((\<exists>n. qc_render s = Inr n \<and> user_can n e) \<or> (\<exists>cat. e = Qc_catalog cat))"

section \<open>One query at a time\<close>

abbreviation qc_reach :: "CatalogData option \<Rightarrow> qc_state \<times> qc_pending list \<Rightarrow> bool" where
  "qc_reach cat \<equiv> view_reach (qc_init cat, []) qc_can qc_handle (\<lambda>_ _. True) qc_resume"

lemmas qc_render_defs =
  qc_render_def qc_builder_def qc_plan_def error_banner_def qc_results_def collection_options_def

lemma qc_results_inert: "qc_results s = Inr n \<Longrightarrow> \<not> user_can n e"
  by (auto simp: qc_results_def Let_def split: if_splits option.splits list.splits)

lemma banner_inert [simp]:
  "c \<in> set (error_banner x) \<Longrightarrow> \<not> user_can c e" "d \<in> set (collection_options cs) \<Longrightarrow> \<not> user_can d e'"
  by (auto simp: error_banner_def collection_options_def split: option.splits if_splits)

interpretation qc_drain: drains "\<lambda>_ _. True" qc_resume "\<lambda>_. 1 :: nat"
proof unfold_locales
  show "sum_list (map (\<lambda>_. 1) (snd (qc_resume p r s))) < (1 :: nat)" for p r s by (cases p) simp
qed simp

lemma qc_plan_inert: "c \<in> set (qc_plan s) \<Longrightarrow> \<not> user_can c e"
  by (auto simp: qc_plan_def split: option.splits if_splits)

lemma qc_builder_no_catalog: "\<not> user_can (qc_builder s) (Qc_catalog cat)"
  by (simp add: qc_builder_def)

lemma qc_no_catalog: "qc_render s = Inr n \<Longrightarrow> \<not> user_can n (Qc_catalog cat)"
proof (cases "qc_results s")
  case (Inr results)
  then have "\<not> user_can results (Qc_catalog cat)" by (rule qc_results_inert)
  then show "qc_render s = Inr n \<Longrightarrow> \<not> user_can n (Qc_catalog cat)"
    using Inr qc_plan_inert qc_builder_no_catalog by (auto simp: qc_render_def)
qed (simp add: qc_render_def)

interpretation qc_prop: prop_view "\<lambda>s e. \<exists>n. qc_render s = Inr n \<and> user_can n e" qc_handle qc_resume Qc_catalog
  "\<lambda>cat. or_list (Option.bind cat cat_collections)" qc_collections
proof unfold_locales
  show "\<exists>n. qc_render s = Inr n \<and> user_can n e \<Longrightarrow> qc_collections (fst (qc_handle e s)) = qc_collections s" for s e
    using qc_no_catalog by (cases e) (auto simp: handleExecute_def)
  show "qc_collections (fst (qc_resume p r s)) = qc_collections s" for p r s
    by (cases p) (simp add: handleExecute_done_def split: sum.splits)
qed simp

lemma qc_can_execute: "qc_can s (Qc_execute b) \<Longrightarrow> \<not> qc_loading s \<and> qc_selectedCollection s \<noteq> []"
  using qc_results_inert
  by (fastforce simp: qc_can_def qc_render_def qc_builder_def qc_plan_def error_banner_def collection_options_def
      has_button_def split: sum.splits option.splits if_splits)

interpretation qc: single_flight "(qc_init cat, [])" qc_can qc_handle "\<lambda>_ _. True" qc_resume qc_loading "\<lambda>_. True"
proof unfold_locales
  fix s e
  assume "qc_can s e"
  then show "(qc_loading (fst (qc_handle e s)) = qc_loading s \<and> tracked_count (\<lambda>_. True) (snd (qc_handle e s)) = 0)
      \<or> (\<not> qc_loading s \<and> qc_loading (fst (qc_handle e s)) \<and> tracked_count (\<lambda>_. True) (snd (qc_handle e s)) = 1)"
    using qc_can_execute [of s] by (cases e) (auto simp: handleExecute_def)
next
  fix s p r
  show "\<not> qc_loading (fst (qc_resume p r s)) \<and> tracked_count (\<lambda>_. True) (snd (qc_resume p r s)) = 0"
    by (cases p) (simp add: handleExecute_done_def split: sum.splits)
qed (simp_all add: qc_init_def Let_def)

text \<open>
  C22.  The console never has two queries in flight, and its loading flag is up exactly while one
  is: the Execute and Explain buttons are disabled while a query runs.
\<close>

theorem qc_single_flight:
  assumes "qc_reach cat (s, q)"
  shows "length q = (if qc_loading s then 1 else 0)"
  using qc.flight_count [OF assms] by (simp add: tracked_count_def)

text \<open>
  The console fails to render exactly when it holds a result without a document list and no query
  runs.
\<close>

theorem qc_render_fails_iff:
  "(\<exists>e. qc_render s = Inl e) \<longleftrightarrow>
     \<not> qc_loading s \<and> (\<exists>r. qc_result s = Some r \<and> qr_documents r = None)"
  by (auto simp: qc_render_def qc_results_def Let_def split: option.splits list.splits)

text \<open>
  A catalog that arrives after the console has opened leaves the selection as it was: opened
  without a catalog, the console keeps an empty selection and both of its buttons stay disabled,
  whatever collections the catalog then lists, until the user changes the select.
\<close>

theorem qc_late_catalog_not_selected:
  "qc_selectedCollection (fst (qc_handle (Qc_catalog cat) (qc_init None))) = []
     \<and> \<not> qc_can (fst (qc_handle (Qc_catalog cat) (qc_init None))) (Qc_execute b)"
proof -
  let ?s = "fst (qc_handle (Qc_catalog cat) (qc_init None))"
  have "qc_selectedCollection ?s = []" by (simp add: qc_init_def first_name_def)
  then show ?thesis using qc_can_execute [of ?s b] by blast
qed

definition ex_console :: "qc_state \<times> qc_pending list" where
  "ex_console = do_event qc_handle (Qc_execute False) (qc_init (Some ex_catalog), [])"

lemma qc_can_init: "qc_can (qc_init (Some ex_catalog)) (Qc_execute False)"
  by (simp add: qc_can_def qc_render_defs qc_init_def ex_catalog_def ex_object_def first_name_def Let_def)

lemma ex_console_reach: "qc_reach (Some ex_catalog) ex_console"
  unfolding ex_console_def using qc_can_init by (intro reach_do_event [OF view_reach.mount]) simp

theorem qc_single_flight_witness:
  "length (snd ex_console) = 1 \<and> qc_loading (fst ex_console)"
proof -
  have "length (snd ex_console) = (if qc_loading (fst ex_console) then 1 else 0)"
    by (rule qc_single_flight [of "Some ex_catalog"]) (simp add: ex_console_reach)
  moreover have "qc_loading (fst ex_console)" by code_simp
  ultimately show ?thesis by simp
qed

end
