(* ===== verification/Messaging_Views.thy ===== *)
theory Messaging_Views
  imports Query_Console
begin

text \<open>
  The two messaging pages of the Studio: the task queues
  (\<open>studio/frontend/src/views/QueueView.tsx\<close>) and the publish/subscribe broker
  (\<open>studio/frontend/src/views/PubSubView.tsx\<close>).  Both poll the server on a timer whose
  callback is the closure of the first render.
\<close>

section \<open>Task queues\<close>

record qv_state =
  qv_queues :: "QueueItem list"
  qv_selectedQueue :: string
  qv_loading :: bool
  qv_error :: "string option"
  qv_success :: "string option"
  qv_payload :: string
  qv_dedupId :: string
  qv_priority :: jsnum
  qv_delayMs :: jsnum
  qv_lastDequeued :: "DequeueResult option"
  qv_autoAck :: bool

definition default_task :: string where
  "default_task =
     ''{'' @ [CHR 10] @ ''  '' @ [CHR 0x22] @ ''order_id'' @ [CHR 0x22] @ '': '' @ [CHR 0x22] @ ''ORD-9988'' @ [CHR 0x22] @ '','' @ [CHR 10] @
     ''  '' @ [CHR 0x22] @ ''action'' @ [CHR 0x22] @ '': '' @ [CHR 0x22] @ ''charge_customer'' @ [CHR 0x22] @ '','' @ [CHR 10] @
     ''  '' @ [CHR 0x22] @ ''amount'' @ [CHR 0x22] @ '': 250.00'' @ [CHR 10] @ ''}''"

definition qv_init :: "string option \<Rightarrow> qv_state" where
  "qv_init initialQueue =
     \<lparr>qv_queues = [], qv_selectedQueue = or_str (case initialQueue of None \<Rightarrow> [] | Some q \<Rightarrow> q) ''default_tasks'',
      qv_loading = False, qv_error = None, qv_success = None, qv_payload = default_task,
      qv_dedupId = ''order_ORD-9988'', qv_priority = Fin 128, qv_delayMs = Fin 0, qv_lastDequeued = None, qv_autoAck = True\<rparr>"

text \<open>A continuation keeps the selected queue, or the auto-ack choice, of its closure.\<close>

datatype qv_pending =
    Qv_listing string
  | Qv_enqueuing string api_call
  | Qv_dequeuing string bool api_call

datatype qv_reply =
    Qv_queues "QueueItem list option outcome"
  | Qv_message_id "string outcome"
  | Qv_task "DequeueResult outcome"

fun qv_fit :: "qv_pending \<Rightarrow> qv_reply \<Rightarrow> bool" where
  "qv_fit (Qv_listing _) (Qv_queues _) = True"
| "qv_fit (Qv_enqueuing _ _) (Qv_message_id _) = True"
| "qv_fit (Qv_dequeuing _ _ _) (Qv_task _) = True"
| "qv_fit _ _ = False"

datatype qv_event =
    Qv_timer
  | Qv_refresh
  | Qv_select string
  | Qv_setPayload string
  | Qv_setDedupId string
  | Qv_setPriority string
  | Qv_setDelayMs string
  | Qv_setAutoAck bool
  | Qv_enqueue
  | Qv_dequeue

definition loadQueues :: "string \<Rightarrow> qv_state \<Rightarrow> qv_state \<times> qv_pending list" where
  "loadQueues selected s = (s\<lparr>qv_loading := True\<rparr>, [Qv_listing selected])"

definition loadQueues_done :: "string \<Rightarrow> QueueItem list option outcome \<Rightarrow> qv_state \<Rightarrow> qv_state" where
  "loadQueues_done selected r s =
     (case r of
        Inr queues \<Rightarrow>
          (let s' = s\<lparr>qv_queues := or_list queues, qv_loading := False\<rparr>
           in case queues of
                Some (q # _) \<Rightarrow> if selected = [] then s'\<lparr>qv_selectedQueue := qi_name q\<rparr> else s'
              | _ \<Rightarrow> s')
      | Inl e \<Rightarrow> s\<lparr>qv_error := Some (message e), qv_loading := False\<rparr>)"

definition currentQueueInfo :: "qv_state \<Rightarrow> QueueItem option" where
  "currentQueueInfo s = List.find (\<lambda>q. qi_name q = qv_selectedQueue s) (qv_queues s)"

definition opt_nonempty :: "string \<Rightarrow> string option" where
  "opt_nonempty x = (if x = [] then None else Some x)"

definition handleEnqueue :: "qv_state \<Rightarrow> qv_state \<times> qv_pending list" where
  "handleEnqueue s =
     (s\<lparr>qv_error := None, qv_success := None\<rparr>,
      [Qv_enqueuing (qv_selectedQueue s)
         (enqueueTask (qv_selectedQueue s) (qv_payload s) (opt_nonempty (qv_dedupId s)) (qv_priority s) (qv_delayMs s))])"

definition handleEnqueue_done :: "string \<Rightarrow> string outcome \<Rightarrow> qv_state \<Rightarrow> qv_state \<times> qv_pending list" where
  "handleEnqueue_done selected r s =
     (case r of
        Inr mid \<Rightarrow> loadQueues selected (s\<lparr>qv_success := Some (''Task enqueued successfully! Message ID: '' @ mid)\<rparr>)
      | Inl e \<Rightarrow> (s\<lparr>qv_error := Some (message e)\<rparr>, []))"

definition handleDequeue :: "qv_state \<Rightarrow> qv_state \<times> qv_pending list" where
  "handleDequeue s =
     (s\<lparr>qv_error := None, qv_success := None\<rparr>,
      [Qv_dequeuing (qv_selectedQueue s) (qv_autoAck s) (dequeueTask (qv_selectedQueue s) (qv_autoAck s))])"

definition handleDequeue_done :: "string \<Rightarrow> bool \<Rightarrow> DequeueResult outcome \<Rightarrow> qv_state \<Rightarrow> qv_state \<times> qv_pending list" where
  "handleDequeue_done selected autoAck r s =
     (case r of
        Inr res \<Rightarrow>
          loadQueues selected
            (s\<lparr>qv_lastDequeued := Some res,
               qv_success := Some (if dq_found res
                 then ''Task dequeued: '' @ opt_to_string (map_option JStr (dq_message_id res)) @ '' ('' @
                      (if autoAck then ''Auto-Acked'' else ''Leased'') @ '')''
                 else ''Queue is currently empty.'')\<rparr>)
      | Inl e \<Rightarrow> (s\<lparr>qv_error := Some (message e)\<rparr>, []))"

text \<open>The mount effect loads the queues; its timer calls the \<open>loadQueues\<close> of the first render.\<close>

definition qv_start :: "string option \<Rightarrow> qv_state \<times> qv_pending list" where
  "qv_start iq = loadQueues (qv_selectedQueue (qv_init iq)) (qv_init iq)"

fun qv_handle :: "string option \<Rightarrow> qv_event \<Rightarrow> qv_state \<Rightarrow> qv_state \<times> qv_pending list" where
  "qv_handle iq Qv_timer s = loadQueues (qv_selectedQueue (qv_init iq)) s"
| "qv_handle iq Qv_refresh s = loadQueues (qv_selectedQueue s) s"
| "qv_handle iq (Qv_select v) s = (s\<lparr>qv_selectedQueue := v\<rparr>, [])"
| "qv_handle iq (Qv_setPayload v) s = (s\<lparr>qv_payload := v\<rparr>, [])"
| "qv_handle iq (Qv_setDedupId v) s = (s\<lparr>qv_dedupId := v\<rparr>, [])"
| "qv_handle iq (Qv_setPriority v) s = (s\<lparr>qv_priority := or_num (parseInt v) (Fin 128)\<rparr>, [])"
| "qv_handle iq (Qv_setDelayMs v) s = (s\<lparr>qv_delayMs := or_num (parseInt v) (Fin 0)\<rparr>, [])"
| "qv_handle iq (Qv_setAutoAck b) s = (s\<lparr>qv_autoAck := b\<rparr>, [])"
| "qv_handle iq Qv_enqueue s = handleEnqueue s"
| "qv_handle iq Qv_dequeue s = handleDequeue s"

fun qv_resume :: "qv_pending \<Rightarrow> qv_reply \<Rightarrow> qv_state \<Rightarrow> qv_state \<times> qv_pending list" where
  "qv_resume (Qv_listing sel) (Qv_queues r) s = (loadQueues_done sel r s, [])"
| "qv_resume (Qv_enqueuing sel _) (Qv_message_id r) s = handleEnqueue_done sel r s"
| "qv_resume (Qv_dequeuing sel a _) (Qv_task r) s = handleDequeue_done sel a r s"
| "qv_resume _ _ s = (s, [])"

subsection \<open>Rendering\<close>

definition warning_banner :: "string option \<Rightarrow> 'e node list" where
  "warning_banner e =
     (case e of
        None \<Rightarrow> []
      | Some m \<Rightarrow> if m = [] then [] else [El ''div'' [] [El ''AlertTriangle'' [] [], El ''span'' [] [Txt m]]])"

definition success_banner :: "string option \<Rightarrow> 'e node list" where
  "success_banner e =
     (case e of
        None \<Rightarrow> []
      | Some m \<Rightarrow> if m = [] then [] else [El ''div'' [] [El ''CheckCircle2'' [] [], El ''span'' [] [Txt m]]])"

definition stat_of :: "(QueueStats \<Rightarrow> int) \<Rightarrow> QueueItem option \<Rightarrow> string" where
  "stat_of f q = (case Option.bind q qi_stats of None \<Rightarrow> ''0'' | Some st \<Rightarrow> int_to_string (f st))"

definition qv_header :: "qv_state \<Rightarrow> qv_event node" where
  "qv_header s =
     El ''div'' []
       [El ''div'' []
          [El ''h1'' [] [El ''Package'' [] [], El ''span'' [] [Txt ''Transactional Task Queues''],
             El ''span'' [] [Txt ''Exactly-Once Dedup & DLQ'']],
           El ''p'' [] [Txt ''Durable task scheduling, visibility timeout leases, and distributed deduplication engine'']],
        El ''div'' []
          [El ''button'' [OnClick Qv_refresh, Disabled (qv_loading s)]
             [El ''RefreshCw'' [Attr ''className'' (if qv_loading s then ''animate-spin'' else [])] [],
              El ''span'' [] [Txt ''Refresh'']]]]"

definition qv_metrics :: "qv_state \<Rightarrow> qv_event node" where
  "qv_metrics s =
     El ''div'' []
       [El ''div'' []
          [El ''label'' [] [Txt ''Select / Active Queue''],
           El ''div'' [] [El ''input'' [Attr ''type'' ''text'', Attr ''value'' (qv_selectedQueue s), OnChange Qv_select,
             Attr ''placeholder'' ''e.g. order_processing''] []]],
        El ''div'' []
          [El ''div'' [] [El ''span'' [] [Txt ''Ready Tasks''], El ''Play'' [] []],
           El ''div'' [] [Txt (stat_of ReadyCount (currentQueueInfo s))], El ''p'' [] [Txt ''Available for workers'']],
        El ''div'' []
          [El ''div'' [] [El ''span'' [] [Txt ''In-Flight (Leased)''], El ''Clock'' [] []],
           El ''div'' [] [Txt (stat_of InFlightCount (currentQueueInfo s))], El ''p'' [] [Txt ''Under visibility lease'']],
        El ''div'' []
          [El ''div'' [] [El ''span'' [] [Txt ''Dead-Letter (DLQ)''], El ''AlertTriangle'' [] []],
           El ''div'' [] [Txt (stat_of DLQCount (currentQueueInfo s))], El ''p'' [] [Txt ''Exceeded max retries'']]]"

definition qv_enqueuePanel :: "qv_state \<Rightarrow> qv_event node" where
  "qv_enqueuePanel s =
     El ''div'' []
       [El ''div'' [] [El ''h2'' [] [El ''Plus'' [] [], El ''span'' [] [Txt ''Enqueue Task'']],
          El ''span'' [] [Txt ''Durable B+Tree Backed'']],
        El ''form'' [OnSubmit Qv_enqueue]
          [El ''div'' [] [El ''label'' [] [Txt ''Payload (JSON or Text)''],
             El ''textarea'' [Attr ''rows'' ''4'', Attr ''value'' (qv_payload s), OnChange Qv_setPayload] []],
           El ''div'' []
             [El ''div'' [] [El ''label'' [] [Txt ''Dedup ID (Idempotency)''],
                El ''input'' [Attr ''type'' ''text'', Attr ''value'' (qv_dedupId s), OnChange Qv_setDedupId,
                  Attr ''placeholder'' ''e.g. order_9988''] []],
              El ''div'' [] [El ''label'' [] [Txt ''Priority (0 - 255)''],
                El ''input'' [Attr ''type'' ''number'', Attr ''min'' ''0'', Attr ''max'' ''255'',
                  Attr ''value'' (num_to_string (qv_priority s)), OnChange Qv_setPriority] []],
              El ''div'' [] [El ''label'' [] [Txt ''Delay (ms)''],
                El ''input'' [Attr ''type'' ''number'', Attr ''min'' ''0'', Attr ''step'' ''100'',
                  Attr ''value'' (num_to_string (qv_delayMs s)), OnChange Qv_setDelayMs] []]],
           El ''button'' [Attr ''type'' ''submit'']
             [El ''Zap'' [] [], El ''span'' [] [Txt (''Enqueue Task to '' @ [CHR 0x22] @ qv_selectedQueue s @ [CHR 0x22])]]]]"

definition shown :: "string option \<Rightarrow> string" where
  "shown x = (case x of None \<Rightarrow> [] | Some t \<Rightarrow> t)"

definition qv_lastTask :: "qv_state \<Rightarrow> qv_event node" where
  "qv_lastTask s =
     (case qv_lastDequeued s of
        Some d \<Rightarrow>
          if dq_found d then
            El ''div'' []
              [El ''div'' []
                 [El ''span'' [] [Txt ''ID: '', Txt (shown (dq_message_id d))],
                  El ''span'' [] [Txt ''Priority: '', Txt (shown (map_option int_to_string (dq_priority d))), Txt '' | Retries: '',
                    Txt (shown (map_option int_to_string (dq_retry_count d)))]],
               El ''pre'' [] [Txt (shown (dq_payload d))]]
          else El ''div'' [] [El ''Package'' [] [], El ''p'' [] [Txt ''No task dequeued yet'']]
      | None \<Rightarrow> El ''div'' [] [El ''Package'' [] [], El ''p'' [] [Txt ''No task dequeued yet'']])"

definition qv_workerPanel :: "qv_state \<Rightarrow> qv_event node" where
  "qv_workerPanel s =
     El ''div'' []
       [El ''div'' []
          [El ''h2'' [] [El ''ShieldCheck'' [] [], El ''span'' [] [Txt ''Worker Simulator & Dequeue'']],
           El ''div'' [] [El ''label'' []
             [El ''input'' [Attr ''type'' ''checkbox'', Attr ''checked'' (if qv_autoAck s then ''true'' else ''false''),
                OnToggle Qv_setAutoAck] [],
              El ''span'' [] [Txt ''Auto-Ack'']]]],
        El ''div'' []
          [qv_lastTask s,
           El ''button'' [OnClick Qv_dequeue] [El ''Play'' [] [], El ''span'' [] [Txt ''Simulate Worker Dequeue'']]]]"

definition qv_card :: "qv_state \<Rightarrow> QueueItem \<Rightarrow> qv_event node" where
  "qv_card s q =
     El ''div'' [OnClick (Qv_select (qi_name q)),
       Attr ''className'' (if qv_selectedQueue s = qi_name q then ''active'' else ''inactive'')]
       [El ''div'' [] [El ''span'' [] [Txt (qi_name q)],
          El ''span'' [] [Txt (''DLQ: '' @ (if qi_has_dlq q then ''ON'' else ''OFF''))]],
        El ''div'' []
          [El ''span'' [] [Txt ''Ready: '', El ''strong'' [] [Txt (stat_of ReadyCount (Some q))]],
           El ''span'' [] [Txt ''In-Flight: '', El ''strong'' [] [Txt (stat_of InFlightCount (Some q))]],
           El ''span'' [] [Txt ''DLQ: '', El ''strong'' [] [Txt (stat_of DLQCount (Some q))]]]]"

definition qv_catalog :: "qv_state \<Rightarrow> qv_event node" where
  "qv_catalog s =
     El ''div'' []
       [El ''h3'' [] [El ''Layers'' [] [],
          El ''span'' [] [Txt (''Registered Persistent Queues ('' @ nat_to_string (length (qv_queues s)) @ '')'')]],
        if qv_queues s = [] then El ''p'' [] [Txt ''No active queues recorded in storage catalog yet.'']
        else El ''div'' [] (map (qv_card s) (qv_queues s))]"

definition qv_render :: "qv_state \<Rightarrow> qv_event node" where
  "qv_render s =
     El ''div'' []
       ([qv_header s] @ warning_banner (qv_error s) @ success_banner (qv_success s) @
        [qv_metrics s, El ''div'' [] [qv_enqueuePanel s, qv_workerPanel s], qv_catalog s])"

definition qv_can :: "qv_state \<Rightarrow> qv_event \<Rightarrow> bool" where
  "qv_can s e = (user_can (qv_render s) e \<or> e = Qv_timer)"

abbreviation qv_reach :: "string option \<Rightarrow> qv_state \<times> qv_pending list \<Rightarrow> bool" where
  "qv_reach iq \<equiv> view_reach (qv_start iq) qv_can (qv_handle iq) qv_fit qv_resume"

subsection \<open>Properties\<close>

lemmas qv_defs =
  loadQueues_def loadQueues_done_def handleEnqueue_def handleEnqueue_done_def handleDequeue_def handleDequeue_done_def
  qv_start_def qv_init_def

definition is_listing :: "qv_pending \<Rightarrow> bool" where
  "is_listing p = (case p of Qv_listing _ \<Rightarrow> True | _ \<Rightarrow> False)"

fun qv_weight :: "qv_pending \<Rightarrow> nat" where
  "qv_weight (Qv_listing _) = 1"
| "qv_weight _ = 2"

interpretation qv_drain: drains qv_fit qv_resume qv_weight
proof unfold_locales
  show "qv_fit p r \<Longrightarrow> sum_list (map qv_weight (snd (qv_resume p r s))) < qv_weight p" for p r s
    by (cases "(p, r)" rule: qv_fit.cases)
      (auto simp: handleEnqueue_done_def handleDequeue_done_def loadQueues_def Let_def split: sum.splits option.splits)
  show "\<exists>r. qv_fit p r" for p by (cases p) (metis qv_fit.simps)+
qed

interpretation qv_flag: backed_flag "qv_start iq" qv_can "qv_handle iq" qv_fit qv_resume qv_loading is_listing
proof unfold_locales
  show "qv_loading (fst (qv_handle iq e s)) \<Longrightarrow> qv_loading s \<or> tracked_count is_listing (snd (qv_handle iq e s)) \<noteq> 0" for s e
    by (cases e) (auto simp: qv_defs is_listing_def)
next
  fix s p r
  assume "qv_fit p r" and "is_listing p" and "qv_loading (fst (qv_resume p r s))"
  then show "tracked_count is_listing (snd (qv_resume p r s)) \<noteq> 0"
    by (cases "(p, r)" rule: qv_fit.cases)
      (auto simp: is_listing_def loadQueues_done_def Let_def split: sum.splits option.splits list.splits if_splits)
next
  fix s p r
  assume "qv_fit p r" and "\<not> is_listing p" and "qv_loading (fst (qv_resume p r s))"
  then show "qv_loading s \<or> tracked_count is_listing (snd (qv_resume p r s)) \<noteq> 0"
    by (cases "(p, r)" rule: qv_fit.cases) (auto simp: is_listing_def qv_defs split: sum.splits)
qed (simp add: qv_defs is_listing_def)

text \<open>
  C26.  The Refresh button of the queue page is never locked for good: in every run it is disabled
  only while a listing of the queues is still to be answered.
\<close>

theorem qv_refresh_locked_only_while_listing:
  assumes "qv_reach iq (s, q)" and "\<not> qv_can s Qv_refresh"
  shows "\<exists>sel. Qv_listing sel \<in> set q"
proof -
  have "qv_loading s"
    using assms(2) by (auto simp: qv_can_def qv_render_def qv_header_def)
  then obtain p where "p \<in> set q" "is_listing p"
    using qv_flag.busy_backed [OF assms(1)] by auto
  then show ?thesis by (auto simp: is_listing_def split: qv_pending.split_asm)
qed

theorem qv_refresh_locked_only_while_listing_witness:
  "\<exists>sel. Qv_listing sel \<in> set (snd (qv_start None))"
proof -
  have "qv_reach None (fst (qv_start None), snd (qv_start None))"
    using view_reach.mount by simp
  moreover have "\<not> qv_can (fst (qv_start None)) Qv_refresh"
    by (simp add: qv_can_def qv_render_def qv_header_def qv_metrics_def qv_enqueuePanel_def qv_workerPanel_def
        qv_lastTask_def qv_catalog_def warning_banner_def success_banner_def qv_defs)
  ultimately show ?thesis by (rule qv_refresh_locked_only_while_listing)
qed

lemma or_num_truthy: "d \<noteq> Fin 0 \<Longrightarrow> d \<noteq> NaN \<Longrightarrow> or_num x d \<noteq> Fin 0 \<and> or_num x d \<noteq> NaN"
  by (simp add: or_num_def)

lemma or_num_number: "d \<noteq> NaN \<Longrightarrow> or_num x d \<noteq> NaN"
  by (simp add: or_num_def)

definition enqueue_ok :: "qv_pending \<Rightarrow> bool" where
  "enqueue_ok p =
     (case p of Qv_enqueuing _ (enqueueTask _ _ dd pr dl) \<Rightarrow> pr \<noteq> Fin 0 \<and> pr \<noteq> NaN \<and> dl \<noteq> NaN \<and> dd \<noteq> Some []
      | _ \<Rightarrow> True)"

interpretation qv_prio: view_invariant "qv_start iq" qv_can "qv_handle iq" qv_fit qv_resume
  "\<lambda>s q. qv_priority s \<noteq> Fin 0 \<and> qv_priority s \<noteq> NaN \<and> qv_delayMs s \<noteq> NaN \<and> list_all enqueue_ok q"
proof unfold_locales
  fix s :: qv_state and q e
  assume "qv_priority s \<noteq> Fin 0 \<and> qv_priority s \<noteq> NaN \<and> qv_delayMs s \<noteq> NaN \<and> list_all enqueue_ok q"
  then show "qv_priority (fst (qv_handle iq e s)) \<noteq> Fin 0 \<and> qv_priority (fst (qv_handle iq e s)) \<noteq> NaN
      \<and> qv_delayMs (fst (qv_handle iq e s)) \<noteq> NaN \<and> list_all enqueue_ok (q @ snd (qv_handle iq e s))"
    by (cases e) (simp_all add: qv_defs enqueue_ok_def opt_nonempty_def or_num_truthy or_num_number)
next
  fix s :: qv_state and q1 p q2 r
  assume "qv_priority s \<noteq> Fin 0 \<and> qv_priority s \<noteq> NaN \<and> qv_delayMs s \<noteq> NaN \<and> list_all enqueue_ok (q1 @ p # q2)" "qv_fit p r"
  then show "qv_priority (fst (qv_resume p r s)) \<noteq> Fin 0 \<and> qv_priority (fst (qv_resume p r s)) \<noteq> NaN
      \<and> qv_delayMs (fst (qv_resume p r s)) \<noteq> NaN \<and> list_all enqueue_ok (q1 @ q2 @ snd (qv_resume p r s))"
    by (cases "(p, r)" rule: qv_fit.cases)
      (simp_all add: qv_defs enqueue_ok_def Let_def split: sum.splits option.splits list.splits)
qed (simp add: qv_defs enqueue_ok_def)

text \<open>
  No run of the queue page sends a task of priority 0: the form offers the range 0 to 255, and
  whatever is typed, an enqueue request in flight has a priority that is neither 0 nor NaN, a
  delay that is not NaN and no empty deduplication id.
\<close>

theorem qv_never_enqueues_priority_zero:
  assumes "qv_reach iq (s, q)" and "Qv_enqueuing sel (enqueueTask queue pl dd pr dl) \<in> set q"
  shows "pr \<noteq> Fin 0 \<and> pr \<noteq> NaN \<and> dl \<noteq> NaN \<and> dd \<noteq> Some []"
  using qv_prio.reach_inv [OF assms(1)] assms(2) by (auto simp: list_all_iff enqueue_ok_def)

definition ex_priority :: "qv_state \<times> qv_pending list" where
  "ex_priority = do_event (qv_handle None) Qv_enqueue (do_event (qv_handle None) (Qv_setPriority ''0'') (qv_start None))"

lemma ex_priority_reach: "qv_reach None ex_priority"
  unfolding ex_priority_def
  by (intro reach_do_event view_reach.mount)
    (simp_all add: qv_can_def qv_render_def qv_enqueuePanel_def has_button_def)

theorem qv_never_enqueues_priority_zero_witness:
  "snd ex_priority = [Qv_listing ''default_tasks'',
       Qv_enqueuing ''default_tasks'' (enqueueTask ''default_tasks'' default_task (Some ''order_ORD-9988'') (Fin 128) (Fin 0))]
     \<and> Fin 128 \<noteq> Fin 0"
proof -
  have q: "snd ex_priority = [Qv_listing ''default_tasks'',
       Qv_enqueuing ''default_tasks'' (enqueueTask ''default_tasks'' default_task (Some ''order_ORD-9988'') (Fin 128) (Fin 0))]"
    by code_simp
  have "qv_reach None (fst ex_priority, snd ex_priority)" using ex_priority_reach by simp
  then have "Fin 128 \<noteq> Fin 0"
    using qv_never_enqueues_priority_zero [of None _ "snd ex_priority" "''default_tasks''"] q by auto
  with q show ?thesis by blast
qed

text \<open>
  C27.  The page never changes the queue name under the user while it polls: a reply changes the
  selection only if it answers a listing that was asked for while the field was empty, and the
  timer never asks for one so.
\<close>

theorem qv_reply_keeps_selection:
  assumes "qv_fit p r" and "p \<noteq> Qv_listing []"
  shows "qv_selectedQueue (fst (qv_resume p r s)) = qv_selectedQueue s
     \<and> Qv_listing [] \<notin> set (snd (qv_handle iq Qv_timer s))"
proof -
  have "qv_selectedQueue (qv_init iq) \<noteq> []"
    by (simp add: qv_init_def or_str_nonempty)
  then show ?thesis
    using assms by (cases "(p, r)" rule: qv_fit.cases)
      (auto simp: qv_defs Let_def split: sum.splits option.splits list.splits)
qed

definition ex_queue :: QueueItem where
  "ex_queue = \<lparr>qi_name = ''emails'', qi_stats = None, qi_has_dlq = False, qi_dlq_stats = None\<rparr>"

theorem qv_reply_keeps_selection_witness:
  "qv_selectedQueue (fst (qv_resume (Qv_listing ''jobs'') (Qv_queues (Inr (Some [ex_queue]))) (qv_init (Some ''jobs''))))
     = qv_selectedQueue (qv_init (Some ''jobs''))"
  by (rule qv_reply_keeps_selection [THEN conjunct1]) simp_all


section \<open>Publish and subscribe\<close>

record ps_state =
  ps_events :: "PubSubEvent list"
  ps_loading :: bool
  ps_error :: "string option"
  ps_success :: "string option"
  ps_topic :: string
  ps_payload :: string
  ps_dedupId :: string

definition default_reading :: string where
  "default_reading =
     ''{'' @ [CHR 10] @ ''  '' @ [CHR 0x22] @ ''device_id'' @ [CHR 0x22] @ '': '' @ [CHR 0x22] @ ''SENSOR-01'' @ [CHR 0x22] @ '','' @ [CHR 10] @
     ''  '' @ [CHR 0x22] @ ''temp_celsius'' @ [CHR 0x22] @ '': 24.5,'' @ [CHR 10] @
     ''  '' @ [CHR 0x22] @ ''humidity'' @ [CHR 0x22] @ '': 55'' @ [CHR 10] @ ''}''"

definition ps_init :: ps_state where
  "ps_init = \<lparr>ps_events = [], ps_loading = False, ps_error = None, ps_success = None,
     ps_topic = ''sensors.iot.temperature'', ps_payload = default_reading, ps_dedupId = []\<rparr>"

datatype ps_pending = Ps_history | Ps_publishing api_call

datatype ps_reply =
    Ps_events "PubSubEvent list option outcome"
  | Ps_hit "(string \<times> int) outcome"

fun ps_fit :: "ps_pending \<Rightarrow> ps_reply \<Rightarrow> bool" where
  "ps_fit Ps_history (Ps_events _) = True"
| "ps_fit (Ps_publishing _) (Ps_hit _) = True"
| "ps_fit _ _ = False"

datatype ps_event =
    Ps_timer
  | Ps_refresh
  | Ps_setTopic string
  | Ps_setPayload string
  | Ps_setDedupId string
  | Ps_publish

definition loadHistory :: "ps_state \<Rightarrow> ps_state \<times> ps_pending list" where
  "loadHistory s = (s, [Ps_history])"

definition loadHistory_done :: "PubSubEvent list option outcome \<Rightarrow> ps_state \<Rightarrow> ps_state" where
  "loadHistory_done r s = (case r of Inr es \<Rightarrow> s\<lparr>ps_events := or_list es\<rparr> | Inl _ \<Rightarrow> s)"

definition handlePublish :: "ps_state \<Rightarrow> ps_state \<times> ps_pending list" where
  "handlePublish s =
     (s\<lparr>ps_error := None, ps_success := None, ps_loading := True\<rparr>,
      [Ps_publishing (publishPubSub (ps_topic s) (ps_payload s) (opt_nonempty (ps_dedupId s)))])"

definition handlePublish_done :: "(string \<times> int) outcome \<Rightarrow> ps_state \<Rightarrow> ps_state \<times> ps_pending list" where
  "handlePublish_done r s =
     (case r of
        Inr (topic, hit) \<Rightarrow>
          (case loadHistory (s\<lparr>ps_success := Some (''Event broadcasted to topic '' @ [CHR 0x22] @ topic @ [CHR 0x22] @ '' ('' @
                               int_to_string hit @ '' active subscribers hit)'')\<rparr>) of
             (s', ps) \<Rightarrow> (s'\<lparr>ps_loading := False\<rparr>, ps))
      | Inl e \<Rightarrow> (s\<lparr>ps_error := Some (message e), ps_loading := False\<rparr>, []))"

definition ps_start :: "ps_state \<times> ps_pending list" where
  "ps_start = loadHistory ps_init"

fun ps_handle :: "ps_event \<Rightarrow> ps_state \<Rightarrow> ps_state \<times> ps_pending list" where
  "ps_handle Ps_timer s = loadHistory s"
| "ps_handle Ps_refresh s = loadHistory s"
| "ps_handle (Ps_setTopic v) s = (s\<lparr>ps_topic := v\<rparr>, [])"
| "ps_handle (Ps_setPayload v) s = (s\<lparr>ps_payload := v\<rparr>, [])"
| "ps_handle (Ps_setDedupId v) s = (s\<lparr>ps_dedupId := v\<rparr>, [])"
| "ps_handle Ps_publish s = handlePublish s"

fun ps_resume :: "ps_pending \<Rightarrow> ps_reply \<Rightarrow> ps_state \<Rightarrow> ps_state \<times> ps_pending list" where
  "ps_resume Ps_history (Ps_events r) s = (loadHistory_done r s, [])"
| "ps_resume (Ps_publishing _) (Ps_hit r) s = handlePublish_done r s"
| "ps_resume _ _ s = (s, [])"

subsection \<open>Rendering\<close>

text \<open>
  \<open>localeTime\<close> stands for \<open>new Date(t).toLocaleTimeString()\<close>, whose result depends on the
  locale and time zone of the host.
\<close>

definition ps_header :: "ps_event node" where
  "ps_header =
     El ''div'' []
       [El ''div'' []
          [El ''h1'' [] [El ''Radio'' [] [], El ''span'' [] [Txt ''Real-Time Pub/Sub Broker''],
             El ''span'' [] [Txt ''Wildcards & Consumer Groups'']],
           El ''p'' [] [Txt ''Ultra-fast in-memory topic routing, wildcard subscriptions, and distributed worker group load-sharing'']],
        El ''div'' [] [El ''button'' [OnClick Ps_refresh] [El ''RefreshCw'' [] [], El ''span'' [] [Txt ''Refresh'']]]]"

definition ps_highlights :: "ps_event node" where
  "ps_highlights =
     El ''div'' []
       [El ''div'' [] [El ''div'' [] [El ''Activity'' [] []],
          El ''div'' [] [El ''h4'' [] [Txt ''~1.95M Broadcasts/sec''],
            El ''p'' [] [Txt ''High-throughput lock-free routing tree with zero interface allocations.'']]],
        El ''div'' [] [El ''div'' [] [El ''Layers'' [] []],
          El ''div'' [] [El ''h4'' [] [Txt ''Wildcard Patterns''],
            El ''p'' [] [Txt ''Supports '', El ''code'' [] [Txt ''*''], Txt '' (single-segment) and '', El ''code'' [] [Txt ''>''],
              Txt '' (multi-level wildcards).'']]],
        El ''div'' [] [El ''div'' [] [El ''Users'' [] []],
          El ''div'' [] [El ''h4'' [] [Txt ''Consumer Groups''],
            El ''p'' [] [Txt ''Dispatches each message to exactly one competing worker in a group.'']]]]"

definition ps_form :: "ps_state \<Rightarrow> ps_event node" where
  "ps_form s =
     El ''div'' []
       [El ''h2'' [] [El ''Send'' [] [], El ''span'' [] [Txt ''Publish Topic Event'']],
        El ''form'' [OnSubmit Ps_publish]
          [El ''div'' [] [El ''label'' [] [Txt ''Topic Name''],
             El ''input'' [Attr ''type'' ''text'', Attr ''value'' (ps_topic s), OnChange Ps_setTopic,
               Attr ''placeholder'' ''e.g. orders.created or sensors.kitchen.temp''] []],
           El ''div'' [] [El ''label'' [] [Txt ''Payload''],
             El ''textarea'' [Attr ''rows'' ''5'', Attr ''value'' (ps_payload s), OnChange Ps_setPayload] []],
           El ''div'' [] [El ''label'' [] [Txt ''Dedup ID (Optional Deduplication Window)''],
             El ''input'' [Attr ''type'' ''text'', Attr ''value'' (ps_dedupId s), OnChange Ps_setDedupId,
               Attr ''placeholder'' ''e.g. evt_unique_123''] []],
           El ''button'' [Attr ''type'' ''submit'', Disabled (ps_loading s)]
             [El ''Zap'' [] [], El ''span'' [] [Txt ''Broadcast Event'']]]]"

definition ps_item :: "(string \<Rightarrow> string) \<Rightarrow> PubSubEvent \<Rightarrow> ps_event node" where
  "ps_item localeTime ev =
     El ''div'' [Attr ''key'' (ev_id ev)]
       ([El ''div'' [] [El ''span'' [] [Txt (ev_topic ev)], El ''span'' [] [Txt (localeTime (ev_created_at ev))]],
         El ''pre'' [] [Txt (ev_payload ev)]] @
        (case ev_dedup_id ev of
           None \<Rightarrow> []
         | Some d \<Rightarrow> if d = [] then [] else [El ''div'' [] [Txt ''Dedup ID: '', El ''span'' [] [Txt d]]]))"

definition ps_stream :: "(string \<Rightarrow> string) \<Rightarrow> ps_state \<Rightarrow> ps_event node" where
  "ps_stream localeTime s =
     El ''div'' []
       [El ''div'' []
          [El ''h2'' [] [El ''Activity'' [] [],
             El ''span'' [] [Txt (''Live Broadcast Stream ('' @ nat_to_string (length (ps_events s)) @ '')'')]],
           El ''span'' [] [Txt ''Auto-refreshing'']],
        El ''div'' []
          (if ps_events s = [] then [El ''div'' [] [El ''Radio'' [] [], El ''p'' [] [Txt ''No broadcast events recorded yet.'']]]
           else map (ps_item localeTime) (ps_events s))]"

definition ps_render :: "(string \<Rightarrow> string) \<Rightarrow> ps_state \<Rightarrow> ps_event node" where
  "ps_render localeTime s =
     El ''div'' []
       ([ps_header] @ warning_banner (ps_error s) @ success_banner (ps_success s) @
        [ps_highlights, El ''div'' [] [ps_form s, ps_stream localeTime s]])"

definition ps_can :: "(string \<Rightarrow> string) \<Rightarrow> ps_state \<Rightarrow> ps_event \<Rightarrow> bool" where
  "ps_can localeTime s e = (user_can (ps_render localeTime s) e \<or> e = Ps_timer)"

abbreviation ps_reach :: "(string \<Rightarrow> string) \<Rightarrow> ps_state \<times> ps_pending list \<Rightarrow> bool" where
  "ps_reach localeTime \<equiv> view_reach ps_start (ps_can localeTime) ps_handle ps_fit ps_resume"

subsection \<open>Properties\<close>

lemmas ps_defs =
  loadHistory_def loadHistory_done_def handlePublish_def handlePublish_done_def ps_start_def ps_init_def

lemma banners_inert [simp]:
  "c \<in> set (warning_banner m) \<Longrightarrow> \<not> user_can c e" "d \<in> set (success_banner m') \<Longrightarrow> \<not> user_can d e'"
  by (auto simp: warning_banner_def success_banner_def split: option.splits if_splits)

lemma ps_stream_inert: "\<not> user_can (ps_stream lt s) e"
  by (auto simp: ps_stream_def ps_item_def split: option.splits if_splits)

lemma ps_can_publish: "ps_can lt s Ps_publish \<longleftrightarrow> \<not> ps_loading s"
  by (auto simp: ps_can_def ps_render_def ps_header_def ps_highlights_def ps_form_def ps_stream_inert has_button_def)

definition is_publishing :: "ps_pending \<Rightarrow> bool" where
  "is_publishing p = (p \<noteq> Ps_history)"

fun ps_weight :: "ps_pending \<Rightarrow> nat" where
  "ps_weight Ps_history = 1"
| "ps_weight (Ps_publishing _) = 2"

interpretation ps_drain: drains ps_fit ps_resume ps_weight
proof unfold_locales
  show "ps_fit p r \<Longrightarrow> sum_list (map ps_weight (snd (ps_resume p r s))) < ps_weight p" for p r s
    by (cases "(p, r)" rule: ps_fit.cases)
      (auto simp: handlePublish_done_def loadHistory_def Let_def split: sum.splits)
  show "\<exists>r. ps_fit p r" for p by (cases p) (metis ps_fit.simps)+
qed

interpretation psf: single_flight ps_start "ps_can lt" ps_handle ps_fit ps_resume ps_loading is_publishing
proof unfold_locales
  fix s e
  assume "ps_can lt s e"
  then show "(ps_loading (fst (ps_handle e s)) = ps_loading s \<and> tracked_count is_publishing (snd (ps_handle e s)) = 0)
      \<or> (\<not> ps_loading s \<and> ps_loading (fst (ps_handle e s)) \<and> tracked_count is_publishing (snd (ps_handle e s)) = 1)"
    by (cases e) (auto simp: ps_defs is_publishing_def ps_can_publish)
next
  fix s p r
  assume "ps_fit p r" and "is_publishing p"
  then show "\<not> ps_loading (fst (ps_resume p r s)) \<and> tracked_count is_publishing (snd (ps_resume p r s)) = 0"
    by (cases "(p, r)" rule: ps_fit.cases) (auto simp: ps_defs is_publishing_def split: sum.splits)
next
  fix s p r
  assume "ps_fit p r" and "\<not> is_publishing p"
  then show "ps_loading (fst (ps_resume p r s)) = ps_loading s \<and> tracked_count is_publishing (snd (ps_resume p r s)) = 0"
    by (cases "(p, r)" rule: ps_fit.cases) (auto simp: ps_defs is_publishing_def split: sum.splits)
qed (simp add: ps_defs is_publishing_def)

text \<open>
  C36.  An event is not broadcast twice by a second click: in every run of the broker page at most
  one publication is in flight, and the form can be submitted exactly when none is.
\<close>

theorem ps_publish_single_flight:
  assumes "ps_reach lt (s, q)"
  shows "length (filter is_publishing q) \<le> 1 \<and> (ps_can lt s Ps_publish \<longleftrightarrow> filter is_publishing q = [])"
  using psf.flight_count [OF assms] by (auto simp: ps_can_publish tracked_count_def split: if_splits)

definition ex_broadcast :: "ps_state \<times> ps_pending list" where
  "ex_broadcast = do_event ps_handle Ps_publish ps_start"

theorem ps_publish_single_flight_witness:
  "length (filter is_publishing (snd ex_broadcast)) \<le> 1 \<and> \<not> ps_can (\<lambda>t. t) (fst ex_broadcast) Ps_publish"
proof -
  have "ps_reach (\<lambda>t. t) ex_broadcast"
    unfolding ex_broadcast_def by (rule reach_do_event [OF view_reach.mount]) (simp add: ps_can_publish ps_defs)
  then have "ps_reach (\<lambda>t. t) (fst ex_broadcast, snd ex_broadcast)" by simp
  from ps_publish_single_flight [OF this] show ?thesis
    by (simp add: ex_broadcast_def do_event_def ps_defs is_publishing_def)
qed

end
