(* ===== verification/Date_Time.thy ===== *)
theory Date_Time
  imports Prelude
begin

text \<open>
  The dates of the language as far as the time-series page uses them: a time value is a number
  of milliseconds since 1970-01-01 UTC, \<open>toISOString\<close> prints it, and \<open>new Date(s)\<close> reads the
  value of a \<open>datetime-local\<close> field in the time zone of the host.  The time zone is a
  parameter, as a function from times to offsets in minutes.
\<close>

section \<open>The calendar\<close>

definition day_from_year :: "int \<Rightarrow> int" where
  "day_from_year y = 365 * (y - 1970) + (y - 1969) div 4 - (y - 1901) div 100 + (y - 1601) div 400"

definition is_leap :: "int \<Rightarrow> bool" where
  "is_leap y = (y mod 4 = 0 \<and> (y mod 100 \<noteq> 0 \<or> y mod 400 = 0))"

text \<open>The first day of a month, counted from the first day of its year.\<close>

definition month_start :: "bool \<Rightarrow> int \<Rightarrow> int" where
  "month_start leap m =
     (let l = (if leap then 1 else 0)
      in if m = 1 then 0 else if m = 2 then 31 else if m = 3 then 59 + l else if m = 4 then 90 + l
         else if m = 5 then 120 + l else if m = 6 then 151 + l else if m = 7 then 181 + l else if m = 8 then 212 + l
         else if m = 9 then 243 + l else if m = 10 then 273 + l else if m = 11 then 304 + l
         else if m = 12 then 334 + l else 365 + l)"

definition year_from_day :: "int \<Rightarrow> int" where
  "year_from_day d =
     (let y = 1970 + 400 * d div 146097
      in if day_from_year (y + 1) \<le> d then y + 1 else if day_from_year y \<le> d then y else y - 1)"

definition month_of :: "bool \<Rightarrow> int \<Rightarrow> int" where
  "month_of leap n =
     (if n < month_start leap 2 then 1 else if n < month_start leap 3 then 2 else if n < month_start leap 4 then 3
      else if n < month_start leap 5 then 4 else if n < month_start leap 6 then 5 else if n < month_start leap 7 then 6
      else if n < month_start leap 8 then 7 else if n < month_start leap 9 then 8 else if n < month_start leap 10 then 9
      else if n < month_start leap 11 then 10 else if n < month_start leap 12 then 11 else 12)"

definition civil_of_day :: "int \<Rightarrow> int \<times> int \<times> int" where
  "civil_of_day d =
     (let y = year_from_day d; n = d - day_from_year y; m = month_of (is_leap y) n
      in (y, m, n - month_start (is_leap y) m + 1))"

definition day_of_civil :: "int \<Rightarrow> int \<Rightarrow> int \<Rightarrow> int" where
  "day_of_civil y m d = day_from_year y + month_start (is_leap y) m + d - 1"

definition valid_civil :: "int \<Rightarrow> int \<Rightarrow> int \<Rightarrow> bool" where
  "valid_civil y m d =
     (1 \<le> m \<and> m \<le> 12 \<and> 1 \<le> d \<and> d \<le> month_start (is_leap y) (m + 1) - month_start (is_leap y) m)"

lemma div_bounds:
  fixes x k :: int
  assumes "0 < k"
  shows "k * (x div k) \<le> x" "x < k * (x div k) + k"
  using mult_div_mod_eq [of k x] pos_mod_sign [OF assms, of x] pos_mod_bound [OF assms, of x] by linarith+

lemma div_succ: "0 < k \<Longrightarrow> (x + 1) div k = x div k + (if (x + 1) mod k = 0 then 1 else 0)" for x k :: int
proof -
  assume k: "0 < k"
  let ?q = "x div k" and ?r = "x mod k"
  have x: "x + 1 = ?r + 1 + ?q * k" by simp
  have r: "0 \<le> ?r" "?r < k" using k by simp_all
  show ?thesis
  proof (cases "?r + 1 = k")
    case True
    then have "x + 1 = (?q + 1) * k" using x by (simp add: algebra_simps)
    then show ?thesis using k by simp
  next
    case False
    then have "?r + 1 < k" using r by simp
    then have "(?r + 1 + ?q * k) div k = ?q" "(?r + 1 + ?q * k) mod k = ?r + 1"
      using k r by (simp_all only: div_mult_self1 mod_mult_self1) (simp_all add: div_pos_pos_trivial mod_pos_pos_trivial)
    then have "(x + 1) div k = ?q" "(x + 1) mod k = ?r + 1" by (simp_all only: x [symmetric])
    then show ?thesis using r(1) by (simp only: if_False) simp
  qed
qed

lemma day_from_year_bounds:
  "146097 * (y - 1970) - 800 \<le> 400 * day_from_year y" "400 * day_from_year y \<le> 146097 * (y - 1970) + 800"
proof -
  define a b c where "a = (y - 1969) div 4" and "b = (y - 1901) div 100" and "c = (y - 1601) div 400"
  have "4 * a \<le> y - 1969" "y - 1969 < 4 * a + 4" "100 * b \<le> y - 1901" "y - 1901 < 100 * b + 100"
    "400 * c \<le> y - 1601" "y - 1601 < 400 * c + 400"
    unfolding a_def b_def c_def by (rule div_bounds, simp)+
  moreover have "day_from_year y = 365 * (y - 1970) + a - b + c" by (simp add: day_from_year_def a_def b_def c_def)
  ultimately show "146097 * (y - 1970) - 800 \<le> 400 * day_from_year y" "400 * day_from_year y \<le> 146097 * (y - 1970) + 800"
    by (simp_all add: algebra_simps)
qed

lemma leap_count:
  "(c \<longrightarrow> b) \<Longrightarrow> (b \<longrightarrow> a) \<Longrightarrow>
     (if a then 1 else 0) - (if b then 1 else 0) + (if c then 1 else 0) = (if a \<and> (\<not> b \<or> c) then 1 else (0 :: int))"
  by (cases a; cases b; cases c) simp_all

lemma day_from_year_Suc: "day_from_year (y + 1) = day_from_year y + (if is_leap y then 366 else 365)"
proof -
  have m: "(y - 1969 + 1) mod 4 = y mod 4" "(y - 1901 + 1) mod 100 = y mod 100" "(y - 1601 + 1) mod 400 = y mod 400"
    using mod_mult_self1 [of y "- 492" 4] mod_mult_self1 [of y "- 19" 100] mod_mult_self1 [of y "- 4" 400]
    by (simp_all add: algebra_simps)
  have "y mod 4 = y mod 100 mod 4" "y mod 100 = y mod 400 mod 100"
    by (simp_all add: mod_mod_cancel)
  then have i: "y mod 400 = 0 \<Longrightarrow> y mod 100 = 0" "y mod 100 = 0 \<Longrightarrow> y mod 4 = 0" by simp_all
  have "day_from_year (y + 1) = 365 * (y - 1970) + 365 + ((y - 1969) + 1) div 4 - ((y - 1901) + 1) div 100 + ((y - 1601) + 1) div 400"
    by (simp add: day_from_year_def algebra_simps)
  also have "\<dots> = day_from_year y + 365 +
      ((if y mod 4 = 0 then 1 else 0) - (if y mod 100 = 0 then 1 else 0) + (if y mod 400 = 0 then 1 else 0))"
    by (subst (1 2 3) div_succ, simp, simp, simp, simp only: m day_from_year_def)
  also have "\<dots> = day_from_year y + 365 + (if is_leap y then 1 else 0)"
    unfolding is_leap_def by (subst leap_count) (use i in blast)+
  finally show ?thesis by simp
qed

lemma year_from_day:
  "day_from_year (year_from_day d) \<le> d \<and> d < day_from_year (year_from_day d + 1)"
proof -
  define y where "y = 1970 + 400 * d div 146097"
  have e: "146097 * (y - 1970) \<le> 400 * d" "400 * d < 146097 * (y - 1970) + 146097"
    unfolding y_def using div_bounds [of 146097 "400 * d"] by simp_all
  have lo: "day_from_year (y - 1) \<le> d"
    using day_from_year_bounds(2) [of "y - 1"] e by (simp add: algebra_simps)
  have hi: "d < day_from_year (y + 2)"
    using day_from_year_bounds(1) [of "y + 2"] e by (simp add: algebra_simps)
  show ?thesis using lo hi by (simp add: year_from_day_def Let_def y_def [symmetric] add.commute [of 2 y])
qed

lemma month_of:
  assumes "0 \<le> n" and "n < (if leap then 366 else 365)"
  shows "1 \<le> month_of leap n \<and> month_of leap n \<le> 12 \<and> month_start leap (month_of leap n) \<le> n
    \<and> n < month_start leap (month_of leap n + 1)"
  using assms by (cases leap) (auto simp: month_of_def month_start_def Let_def)

text \<open>Printing a day and reading it back gives the day, and prints only days that exist.\<close>

lemma civil_roundtrip: "civil_of_day d = (y, m, dd) \<Longrightarrow> day_of_civil y m dd = d \<and> valid_civil y m dd"
proof -
  assume c: "civil_of_day d = (y, m, dd)"
  have y: "y = year_from_day d" using c by (simp add: civil_of_day_def Let_def)
  have "0 \<le> d - day_from_year y" "d - day_from_year y < (if is_leap y then 366 else 365)"
    using year_from_day [of d] unfolding y day_from_year_Suc by auto
  from month_of [OF this] show ?thesis
    using c by (auto simp: civil_of_day_def y Let_def day_of_civil_def valid_civil_def)
qed

section \<open>Printing and reading\<close>

definition msPerDay :: int where
  "msPerDay = 86400000"

definition pad :: "nat \<Rightarrow> int \<Rightarrow> string" where
  "pad k n = pad_zeros k (nat_to_string (nat n))"

definition year_string :: "int \<Rightarrow> string" where
  "year_string y = (if 0 \<le> y \<and> y \<le> 9999 then pad 4 y else if y < 0 then CHR ''-'' # pad 6 (- y) else CHR ''+'' # pad 6 y)"

text \<open>\<open>toISOString\<close>: a time value out of range is a \<open>RangeError\<close>.\<close>

definition time_clip :: "int \<Rightarrow> bool" where
  "time_clip t = (\<bar>t\<bar> \<le> 8640000000000000)"

definition toISOString :: "int \<Rightarrow> string" where
  "toISOString t =
     (let (y, m, d) = civil_of_day (t div msPerDay); ms = t mod msPerDay
      in year_string y @ ''-'' @ pad 2 m @ ''-'' @ pad 2 d @ ''T'' @ pad 2 (ms div 3600000) @ '':'' @ pad 2 (ms div 60000 mod 60) @
         '':'' @ pad 2 (ms div 1000 mod 60) @ ''.'' @ pad 3 (ms mod 1000) @ ''Z'')"

definition read_digits :: "nat \<Rightarrow> string \<Rightarrow> (int \<times> string) option" where
  "read_digits k s =
     (if k \<le> length s \<and> list_all is_digit (take k s) then Some (int (digits_val (take k s)), drop k s) else None)"

definition expect :: "char \<Rightarrow> string \<Rightarrow> string option" where
  "expect c s = (case s of x # r \<Rightarrow> if x = c then Some r else None | [] \<Rightarrow> None)"

text \<open>The seconds of a \<open>datetime-local\<close> value, absent or with a fraction of three digits.\<close>

definition read_seconds :: "string \<Rightarrow> (int \<times> int) option" where
  "read_seconds s =
     (if s = [] then Some (0, 0)
      else Option.bind (expect CHR '':'' s) (\<lambda>s. Option.bind (read_digits 2 s) (\<lambda>(sec, s).
        if s = [] then Some (sec, 0)
        else Option.bind (expect CHR ''.'' s) (\<lambda>s. Option.bind (read_digits 3 s) (\<lambda>(ms, s).
          if s = [] then Some (sec, ms) else None)))))"

definition local_value :: "int \<Rightarrow> int \<Rightarrow> int \<Rightarrow> int \<Rightarrow> int \<Rightarrow> int \<Rightarrow> int \<Rightarrow> int option" where
  "local_value y mo d h mi sec ms =
     (if valid_civil y mo d \<and> h \<le> 24 \<and> mi \<le> 59 \<and> sec \<le> 59 \<and> (h = 24 \<longrightarrow> mi = 0 \<and> sec = 0 \<and> ms = 0)
      then Some (day_of_civil y mo d * msPerDay + h * 3600000 + mi * 60000 + sec * 1000 + ms) else None)"

definition read_local :: "string \<Rightarrow> int option" where
  "read_local s =
     Option.bind (read_digits 4 s) (\<lambda>(y, s). Option.bind (expect CHR ''-'' s) (\<lambda>s.
     Option.bind (read_digits 2 s) (\<lambda>(mo, s). Option.bind (expect CHR ''-'' s) (\<lambda>s.
     Option.bind (read_digits 2 s) (\<lambda>(d, s). Option.bind (expect CHR ''T'' s) (\<lambda>s.
     Option.bind (read_digits 2 s) (\<lambda>(h, s). Option.bind (expect CHR '':'' s) (\<lambda>s.
     Option.bind (read_digits 2 s) (\<lambda>(mi, s). Option.bind (read_seconds s) (\<lambda>(sec, ms).
       local_value y mo d h mi sec ms))))))))))"

text \<open>
  The time zone of the host: \<open>tz_offset\<close> is \<open>getTimezoneOffset\<close> of a time in minutes,
  \<open>tz_local\<close> the offset the host assigns to a local time.
\<close>

record time_zone =
  tz_offset :: "int \<Rightarrow> int"
  tz_local :: "int \<Rightarrow> int"

definition invalid_time :: js_error where
  "invalid_time = Js_error ''Invalid time value''"

text \<open>\<open>new Date(s).toISOString()\<close>.\<close>

definition input_time :: "time_zone \<Rightarrow> string \<Rightarrow> int option" where
  "input_time tz s = map_option (\<lambda>l. l + tz_local tz l * 60000) (read_local s)"

definition input_iso :: "time_zone \<Rightarrow> string \<Rightarrow> string outcome" where
  "input_iso tz s =
     (case input_time tz s of Some t \<Rightarrow> if time_clip t then Inr (toISOString t) else Inl invalid_time | None \<Rightarrow> Inl invalid_time)"

definition toLocalInput :: "time_zone \<Rightarrow> int \<Rightarrow> string" where
  "toLocalInput tz t = take 16 (toISOString (t - tz_offset tz t * 60000))"

section \<open>A field filled by the page is read back to the minute\<close>

lemma length_nat_to_string: "0 < k \<Longrightarrow> n < 10 ^ k \<Longrightarrow> length (nat_to_string n) \<le> k"
proof (induction n arbitrary: k rule: nat_to_string.induct)
  case (1 n)
  show ?case
  proof (cases "n < 10")
    case True
    then show ?thesis using "1.prems" by (subst nat_to_string.simps) simp
  next
    case False
    obtain j where k: "k = Suc j" using "1.prems"(1) by (cases k) simp_all
    moreover have "0 < j" using "1.prems"(2) False k by (cases j) simp_all
    moreover have "n div 10 < 10 ^ j" using "1.prems"(2) k by (simp add: div_less_iff_less_mult)
    ultimately have "length (nat_to_string (n div 10)) \<le> j" using "1.IH" [OF False] by simp
    then show ?thesis using False k by (subst nat_to_string.simps) simp
  qed
qed

lemma digits_val_zeros: "digits_val (replicate j (CHR ''0'') @ ds) = digits_val ds"
proof -
  have "foldl (\<lambda>n c. 10 * n + digit_val c) 0 (replicate j (CHR ''0'')) = 0"
    by (induction j) (simp_all add: digit_val_def)
  then show ?thesis by (simp add: digits_val_def)
qed

lemma pad_digits:
  assumes "0 \<le> n" and "n < 10 ^ k" and "0 < k"
  shows "length (pad k n) = k" "list_all is_digit (pad k n)" "int (digits_val (pad k n)) = n"
proof -
  have "nat n < 10 ^ k" using assms by (simp add: nat_less_iff)
  then show "length (pad k n) = k"
    using length_nat_to_string [OF assms(3)] by (simp add: pad_def pad_zeros_def)
  show "list_all is_digit (pad k n)"
    using nat_to_string_digits by (auto simp: pad_def pad_zeros_def list_all_iff is_digit_def)
  show "int (digits_val (pad k n)) = n"
    using assms(1) by (simp add: pad_def pad_zeros_def digits_val_zeros)
qed

lemma read_digits_pad:
  "0 \<le> n \<Longrightarrow> n < 10 ^ k \<Longrightarrow> 0 < k \<Longrightarrow> read_digits k (pad k n @ s) = Some (n, s)"
  using pad_digits [of n k] by (simp add: read_digits_def)

lemma expect_Cons [simp]: "expect c (c # s) = Some s"
  by (simp add: expect_def)

definition minute_string :: "int \<Rightarrow> string" where
  "minute_string t =
     (let (y, m, d) = civil_of_day (t div msPerDay); ms = t mod msPerDay
      in year_string y @ ''-'' @ pad 2 m @ ''-'' @ pad 2 d @ ''T'' @ pad 2 (ms div 3600000) @ '':'' @ pad 2 (ms div 60000 mod 60))"

lemma civil_small:
  assumes "civil_of_day n = (y, m, d)"
  shows "1 \<le> m \<and> m \<le> 12 \<and> 1 \<le> d \<and> d \<le> 31"
proof -
  have "valid_civil y m d" using civil_roundtrip [OF assms] by simp
  then show ?thesis by (auto simp: valid_civil_def month_start_def Let_def split: if_splits)
qed

lemma clock_parts:
  fixes t :: int
  shows "0 \<le> t mod msPerDay div 3600000" "t mod msPerDay div 3600000 \<le> 23"
    "0 \<le> t mod msPerDay div 60000 mod 60" "t mod msPerDay div 60000 mod 60 \<le> 59"
    "t div msPerDay * msPerDay + t mod msPerDay div 3600000 * 3600000 + t mod msPerDay div 60000 mod 60 * 60000 = t - t mod 60000"
proof -
  define ms where "ms = t mod msPerDay"
  have ms: "0 \<le> ms" "ms < 86400000" by (simp_all add: ms_def msPerDay_def)
  show "0 \<le> t mod msPerDay div 3600000" "0 \<le> t mod msPerDay div 60000 mod 60" "t mod msPerDay div 60000 mod 60 \<le> 59"
    using ms by (simp_all add: ms_def [symmetric] pos_imp_zdiv_nonneg_iff)
  show "t mod msPerDay div 3600000 \<le> 23" using ms by (simp add: ms_def [symmetric])
  have "ms div 60000 div 60 = ms div 3600000" by (simp add: zdiv_zmult2_eq [symmetric])
  then have "ms div 60000 = ms div 3600000 * 60 + ms div 60000 mod 60"
    using div_mult_mod_eq [of "ms div 60000" 60] by simp
  moreover have "ms = ms div 60000 * 60000 + ms mod 60000" by simp
  ultimately have "ms div 3600000 * 3600000 + ms div 60000 mod 60 * 60000 = ms - ms mod 60000" by linarith
  moreover have "ms mod 60000 = t mod 60000" by (simp add: ms_def msPerDay_def mod_mod_cancel)
  moreover have "t div msPerDay * msPerDay + ms = t" by (simp add: ms_def)
  ultimately show "t div msPerDay * msPerDay + t mod msPerDay div 3600000 * 3600000 + t mod msPerDay div 60000 mod 60 * 60000
      = t - t mod 60000"
    unfolding ms_def [symmetric] by simp
qed

lemma read_local_minute:
  assumes "0 \<le> year_from_day (t div msPerDay)" and "year_from_day (t div msPerDay) \<le> 9999"
  shows "take 16 (toISOString t) = minute_string t" "read_local (minute_string t) = Some (t - t mod 60000)"
proof -
  obtain y m d where c: "civil_of_day (t div msPerDay) = (y, m, d)" by (metis prod.exhaust)
  have y: "0 \<le> y" "y < 10 ^ 4" using assms c by (simp_all add: civil_of_day_def Let_def)
  have md: "0 \<le> m" "m < 10 ^ 2" "0 \<le> d" "d < 10 ^ 2" using civil_small [OF c] by simp_all
  have hm: "0 \<le> t mod msPerDay div 3600000" "t mod msPerDay div 3600000 < 10 ^ 2"
    "0 \<le> t mod msPerDay div 60000 mod 60" "t mod msPerDay div 60000 mod 60 < 10 ^ 2"
    using clock_parts [of t] by simp_all
  have ys: "year_string y = pad 4 y" using y by (simp add: year_string_def)
  have lens: "length (pad 4 y) = 4" "length (pad 2 m) = 2" "length (pad 2 d) = 2"
    "length (pad 2 (t mod msPerDay div 3600000)) = 2" "length (pad 2 (t mod msPerDay div 60000 mod 60)) = 2"
    using y md hm by (simp_all add: pad_digits)
  show "take 16 (toISOString t) = minute_string t"
    by (simp add: toISOString_def minute_string_def c ys lens Let_def)
  have v: "valid_civil y m d" and dd: "day_of_civil y m d = t div msPerDay" using civil_roundtrip [OF c] by simp_all
  have "local_value y m d (t mod msPerDay div 3600000) (t mod msPerDay div 60000 mod 60) 0 0 = Some (t - t mod 60000)"
    using v clock_parts [of t] by (simp add: local_value_def dd)
  moreover note r = read_digits_pad [of _ _ "[]", simplified] read_digits_pad
  ultimately show "read_local (minute_string t) = Some (t - t mod 60000)"
    using y md hm by (simp add: minute_string_def c ys Let_def read_local_def r read_seconds_def)
qed

text \<open>
  C18.  A date field the page fills from a time and sends back unchanged gives that time, cut to
  the minute, when the host's two offsets agree there (they differ only inside the hour a summer
  time ends) and the year has four digits.
\<close>

theorem toLocalInput_roundtrip:
  assumes "0 \<le> year_from_day ((t - tz_offset tz t * 60000) div msPerDay)"
    and "year_from_day ((t - tz_offset tz t * 60000) div msPerDay) \<le> 9999"
    and "tz_local tz (t - tz_offset tz t * 60000 - t mod 60000) = tz_offset tz t"
  shows "input_time tz (toLocalInput tz t) = Some (t - t mod 60000)"
proof -
  let ?l = "t - tz_offset tz t * 60000"
  have m: "?l mod 60000 = t mod 60000"
    using mod_mult_self1 [of t "- tz_offset tz t" 60000] by simp
  have "read_local (toLocalInput tz t) = Some (?l - t mod 60000)"
    using read_local_minute [OF assms(1,2)] by (simp add: toLocalInput_def m)
  then show ?thesis using assms(3) by (simp add: input_time_def)
qed

definition ex_zone :: time_zone where
  "ex_zone = \<lparr>tz_offset = \<lambda>_. - 420, tz_local = \<lambda>_. - 420\<rparr>"

theorem toLocalInput_roundtrip_witness:
  "input_time ex_zone (toLocalInput ex_zone 1700000000123) = Some (1700000000123 - 1700000000123 mod 60000)"
  by (rule toLocalInput_roundtrip) (simp_all add: ex_zone_def year_from_day_def day_from_year_def msPerDay_def)

end
