(* ===== verification/TimeSeries_View.thy ===== *)
theory TimeSeries_View
  imports Messaging_Views Date_Time
begin

text \<open>
  The time-series page of the Studio (\<open>studio/frontend/src/views/TimeSeriesView.tsx\<close>).  The
  page numbers its point queries and takes only the reply to the newest one.
\<close>

record tv_state =
  tv_series :: "string list"
  tv_selected :: string
  tv_points :: "TimeSeriesPoint list"
  tv_startField :: string
  tv_endField :: string
  tv_tags :: string
  tv_limit :: jsnum
  tv_descending :: bool
  tv_timestamp :: string
  tv_writeTags :: string
  tv_fields :: string
  tv_retentionCutoff :: string
  tv_loading :: bool
  tv_error :: "string option"
  tv_success :: "string option"
  tv_latestRequest :: nat

definition tv_init :: "time_zone \<Rightarrow> int \<Rightarrow> tv_state" where
  "tv_init tz now =
     \<lparr>tv_series = [], tv_selected = [], tv_points = [],
      tv_startField = toLocalInput tz (now - 24 * 60 * 60 * 1000), tv_endField = toLocalInput tz now, tv_tags = ''{}'',
      tv_limit = Fin 100, tv_descending = True, tv_timestamp = toLocalInput tz now,
      tv_writeTags = ''{'' @ [CHR 10] @ ''  '' @ [CHR 0x22] @ ''device'' @ [CHR 0x22] @ '': '' @ [CHR 0x22] @ ''sensor-01'' @ [CHR 0x22] @
        [CHR 10] @ ''}'',
      tv_fields = ''{'' @ [CHR 10] @ ''  '' @ [CHR 0x22] @ ''temperature'' @ [CHR 0x22] @ '': 22.4'' @ [CHR 10] @ ''}'',
      tv_retentionCutoff = toLocalInput tz (now - 30 * 24 * 60 * 60 * 1000),
      tv_loading = False, tv_error = None, tv_success = None, tv_latestRequest = 0\<rparr>"

text \<open>\<open>loadSeries\<close> is awaited by the mount effect, by nobody, or by a write.\<close>

datatype tv_pending =
    Tv_points_of nat ts_query
  | Tv_series_mount
  | Tv_series_refresh
  | Tv_series_written tv_state
  | Tv_writing tv_state string TimeSeriesPoint
  | Tv_pruning tv_state string string
  | Tv_onRefreshCatalog

datatype tv_reply =
    Tv_points "TimeSeriesPoint list outcome"
  | Tv_names "string list outcome"
  | Tv_written "unit outcome"
  | Tv_removed "int outcome"
  | Tv_tick

fun tv_fit :: "tv_pending \<Rightarrow> tv_reply \<Rightarrow> bool" where
  "tv_fit (Tv_points_of _ _) (Tv_points _) = True"
| "tv_fit Tv_series_mount (Tv_names _) = True"
| "tv_fit Tv_series_refresh (Tv_names _) = True"
| "tv_fit (Tv_series_written _) (Tv_names _) = True"
| "tv_fit (Tv_writing _ _ _) (Tv_written _) = True"
| "tv_fit (Tv_pruning _ _ _) (Tv_removed _) = True"
| "tv_fit Tv_onRefreshCatalog Tv_tick = True"
| "tv_fit _ _ = False"

datatype tv_event =
    Tv_refresh
  | Tv_select string
  | Tv_setLimit string
  | Tv_setStart string
  | Tv_setEnd string
  | Tv_setDescending bool
  | Tv_setTags string
  | Tv_run
  | Tv_setTimestamp string
  | Tv_setWriteTags string
  | Tv_setFields string
  | Tv_write int
  | Tv_setCutoff string
  | Tv_prune

section \<open>Handlers\<close>

definition parseJSONMap :: "string \<Rightarrow> string \<Rightarrow> json outcome" where
  "parseJSONMap value label =
     (case JSON_parse value of
        Inl e \<Rightarrow> Inl e
      | Inr parsed \<Rightarrow> (case parsed of JObj _ \<Rightarrow> Inr parsed | _ \<Rightarrow> Inl (Js_error (label @ '' must be a JSON object''))))"

definition loadSeries_done :: "string list \<Rightarrow> tv_state \<Rightarrow> tv_state" where
  "loadSeries_done names s =
     s\<lparr>tv_series := names, tv_selected := or_str (tv_selected s) (case names of [] \<Rightarrow> [] | n # _ \<Rightarrow> n)\<rparr>"

definition opt_iso :: "time_zone \<Rightarrow> string \<Rightarrow> string option outcome" where
  "opt_iso tz v = (if v = [] then Inr None else map_sum id Some (input_iso tz v))"

text \<open>The arguments of the query, evaluated in the order the source has them.\<close>

definition tv_query :: "time_zone \<Rightarrow> tv_state \<Rightarrow> ts_query outcome" where
  "tv_query tz s =
     (case opt_iso tz (tv_startField s) of
        Inl e \<Rightarrow> Inl e
      | Inr st \<Rightarrow>
          (case opt_iso tz (tv_endField s) of
             Inl e \<Rightarrow> Inl e
           | Inr en \<Rightarrow>
               (case parseJSONMap (tv_tags s) ''Tag filter'' of
                  Inl e \<Rightarrow> Inl e
                | Inr tags \<Rightarrow>
                    Inr \<lparr>tsq_series = trim (tv_selected s), tsq_start = st, tsq_end = en, tsq_tags = Some tags,
                         tsq_limit = Some (tv_limit s), tsq_descending = Some (tv_descending s)\<rparr>)))"

definition loadPoints :: "time_zone \<Rightarrow> tv_state \<Rightarrow> tv_state \<Rightarrow> tv_state \<times> tv_pending list" where
  "loadPoints tz c s =
     (if trim (tv_selected c) = [] then (s, [])
      else
        (let requestID = Suc (tv_latestRequest s);
             s' = s\<lparr>tv_latestRequest := requestID, tv_loading := True, tv_error := None\<rparr>
         in case tv_query tz c of
              Inr q \<Rightarrow> (s', [Tv_points_of requestID q])
            | Inl e \<Rightarrow> (s'\<lparr>tv_error := Some (or_str (message e) ''Unable to load points''), tv_loading := False\<rparr>, [])))"

definition loadPoints_done :: "nat \<Rightarrow> TimeSeriesPoint list outcome \<Rightarrow> tv_state \<Rightarrow> tv_state" where
  "loadPoints_done requestID r s =
     (if requestID \<noteq> tv_latestRequest s then s
      else (case r of
              Inr ps \<Rightarrow> s\<lparr>tv_points := ps, tv_loading := False\<rparr>
            | Inl e \<Rightarrow> s\<lparr>tv_error := Some (or_str (message e) ''Unable to load points''), tv_loading := False\<rparr>))"

definition no_series_error :: js_error where
  "no_series_error = Js_error ''Enter a series name first''"

definition write_point :: "time_zone \<Rightarrow> int \<Rightarrow> tv_state \<Rightarrow> TimeSeriesPoint outcome" where
  "write_point tz now s =
     (if trim (tv_selected s) = [] then Inl no_series_error
      else
        (case (if tv_timestamp s \<noteq> [] then input_iso tz (tv_timestamp s) else Inr (toISOString now)) of
           Inl e \<Rightarrow> Inl e
         | Inr t \<Rightarrow>
             (case parseJSONMap (tv_writeTags s) ''Tags'' of
                Inl e \<Rightarrow> Inl e
              | Inr tags \<Rightarrow>
                  (case parseJSONMap (tv_fields s) ''Fields'' of
                     Inl e \<Rightarrow> Inl e
                   | Inr flds \<Rightarrow> Inr \<lparr>tp_Timestamp = t, tp_Tags = tags, tp_Fields = flds\<rparr>))))"

definition write_failed :: "js_error \<Rightarrow> tv_state \<Rightarrow> tv_state" where
  "write_failed e s = s\<lparr>tv_error := Some (or_str (message e) ''Unable to write point'')\<rparr>"

definition handleWrite :: "time_zone \<Rightarrow> int \<Rightarrow> tv_state \<Rightarrow> tv_state \<times> tv_pending list" where
  "handleWrite tz now s =
     (let s' = s\<lparr>tv_error := None, tv_success := None\<rparr>
      in case write_point tz now s of
           Inl e \<Rightarrow> (write_failed e s', [])
         | Inr point \<Rightarrow> (s', [Tv_writing s (trim (tv_selected s)) point]))"

definition handleWrite_stored :: "tv_state \<Rightarrow> unit outcome \<Rightarrow> tv_state \<Rightarrow> tv_state \<times> tv_pending list" where
  "handleWrite_stored c r s =
     (case r of
        Inl e \<Rightarrow> (write_failed e s, [])
      | Inr _ \<Rightarrow> (s\<lparr>tv_success := Some ''Point written successfully.''\<rparr>, [Tv_series_written c]))"

definition handleWrite_done :: "time_zone \<Rightarrow> tv_state \<Rightarrow> string list outcome \<Rightarrow> tv_state \<Rightarrow> tv_state \<times> tv_pending list" where
  "handleWrite_done tz c r s =
     (case r of
        Inl e \<Rightarrow> (write_failed e s, [])
      | Inr names \<Rightarrow> (case loadPoints tz c (loadSeries_done names s) of (s', ps) \<Rightarrow> (s', Tv_onRefreshCatalog # ps)))"

definition prune_failed :: "js_error \<Rightarrow> tv_state \<Rightarrow> tv_state" where
  "prune_failed e s = s\<lparr>tv_error := Some (or_str (message e) ''Unable to apply retention'')\<rparr>"

definition handlePrune :: "time_zone \<Rightarrow> tv_state \<Rightarrow> tv_state \<times> tv_pending list" where
  "handlePrune tz s =
     (let s' = s\<lparr>tv_error := None, tv_success := None\<rparr>
      in if trim (tv_selected s) = [] then (prune_failed no_series_error s', [])
         else (case input_iso tz (tv_retentionCutoff s) of
                 Inl e \<Rightarrow> (prune_failed e s', [])
               | Inr before \<Rightarrow> (s', [Tv_pruning s (trim (tv_selected s)) before])))"

definition handlePrune_done :: "time_zone \<Rightarrow> tv_state \<Rightarrow> int outcome \<Rightarrow> tv_state \<Rightarrow> tv_state \<times> tv_pending list" where
  "handlePrune_done tz c r s =
     (case r of
        Inl e \<Rightarrow> (prune_failed e s, [])
      | Inr removed \<Rightarrow>
          loadPoints tz c (s\<lparr>tv_success := Some (''Retention applied: removed '' @ int_to_string removed @ '' point'' @
            (if removed = 1 then [] else ''s'') @ ''.'')\<rparr>))"

text \<open>The effect on \<open>[selected]\<close>, after the render that follows a change.\<close>

definition tv_commit :: "time_zone \<Rightarrow> tv_state \<Rightarrow> tv_state \<times> tv_pending list \<Rightarrow> tv_state \<times> tv_pending list" where
  "tv_commit tz old res =
     (let (s, ps) = res
      in if tv_selected s \<noteq> tv_selected old \<and> tv_selected s \<noteq> []
         then (case loadPoints tz s s of (s', ps') \<Rightarrow> (s', ps @ ps')) else (s, ps))"

definition tv_start :: "time_zone \<Rightarrow> int \<Rightarrow> tv_state \<times> tv_pending list" where
  "tv_start tz now = (tv_init tz now, [Tv_series_mount])"

fun tv_act :: "time_zone \<Rightarrow> tv_event \<Rightarrow> tv_state \<Rightarrow> tv_state \<times> tv_pending list" where
  "tv_act tz Tv_refresh s = (s, [Tv_series_refresh])"
| "tv_act tz (Tv_select v) s = (s\<lparr>tv_selected := v\<rparr>, [])"
| "tv_act tz (Tv_setLimit v) s = (s\<lparr>tv_limit := or_num (Number v) (Fin 100)\<rparr>, [])"
| "tv_act tz (Tv_setStart v) s = (s\<lparr>tv_startField := v\<rparr>, [])"
| "tv_act tz (Tv_setEnd v) s = (s\<lparr>tv_endField := v\<rparr>, [])"
| "tv_act tz (Tv_setDescending b) s = (s\<lparr>tv_descending := b\<rparr>, [])"
| "tv_act tz (Tv_setTags v) s = (s\<lparr>tv_tags := v\<rparr>, [])"
| "tv_act tz Tv_run s = loadPoints tz s s"
| "tv_act tz (Tv_setTimestamp v) s = (s\<lparr>tv_timestamp := v\<rparr>, [])"
| "tv_act tz (Tv_setWriteTags v) s = (s\<lparr>tv_writeTags := v\<rparr>, [])"
| "tv_act tz (Tv_setFields v) s = (s\<lparr>tv_fields := v\<rparr>, [])"
| "tv_act tz (Tv_write now) s = handleWrite tz now s"
| "tv_act tz (Tv_setCutoff v) s = (s\<lparr>tv_retentionCutoff := v\<rparr>, [])"
| "tv_act tz Tv_prune s = handlePrune tz s"

definition tv_handle :: "time_zone \<Rightarrow> tv_event \<Rightarrow> tv_state \<Rightarrow> tv_state \<times> tv_pending list" where
  "tv_handle tz e s = tv_commit tz s (tv_act tz e s)"

fun tv_continue :: "time_zone \<Rightarrow> tv_pending \<Rightarrow> tv_reply \<Rightarrow> tv_state \<Rightarrow> tv_state \<times> tv_pending list" where
  "tv_continue tz (Tv_points_of n _) (Tv_points r) s = (loadPoints_done n r s, [])"
| "tv_continue tz Tv_series_mount (Tv_names r) s =
     (case r of
        Inr names \<Rightarrow> (loadSeries_done names s, [])
      | Inl e \<Rightarrow> (s\<lparr>tv_error := Some (or_str (message e) ''Unable to load series'')\<rparr>, []))"
| "tv_continue tz Tv_series_refresh (Tv_names r) s =
     (case r of Inr names \<Rightarrow> (loadSeries_done names s, []) | Inl _ \<Rightarrow> (s, []))"
| "tv_continue tz (Tv_series_written c) (Tv_names r) s = handleWrite_done tz c r s"
| "tv_continue tz (Tv_writing c _ _) (Tv_written r) s = handleWrite_stored c r s"
| "tv_continue tz (Tv_pruning c _ _) (Tv_removed r) s = handlePrune_done tz c r s"
| "tv_continue tz _ _ s = (s, [])"

definition tv_resume :: "time_zone \<Rightarrow> tv_pending \<Rightarrow> tv_reply \<Rightarrow> tv_state \<Rightarrow> tv_state \<times> tv_pending list" where
  "tv_resume tz p r s = tv_commit tz s (tv_continue tz p r s)"

section \<open>Rendering\<close>

text \<open>\<open>localeString\<close> stands for \<open>new Date(t).toLocaleString()\<close> of the host.\<close>

definition tv_notice :: "string \<Rightarrow> string option \<Rightarrow> tv_event node list" where
  "tv_notice icon m =
     (case m of None \<Rightarrow> [] | Some t \<Rightarrow> if t = [] then [] else [El ''div'' [] [El icon [] [], Txt t]])"

definition tv_header :: "tv_event node" where
  "tv_header =
     El ''header'' []
       [El ''div'' [] [El ''h1'' [] [El ''Activity'' [] [], Txt ''Time-Series Explorer''],
          El ''p'' [] [Txt ''Inspect logs, metrics, and IoT telemetry by time range and exact tags.'']],
        El ''button'' [OnClick Tv_refresh] [El ''RefreshCw'' [] [], Txt ''Refresh series'']]"

definition tv_queryForm :: "tv_state \<Rightarrow> tv_event node" where
  "tv_queryForm s =
     El ''section'' []
       [El ''div'' []
          [El ''label'' [] [Txt ''Series name'',
             El ''input'' [Attr ''list'' ''time-series'', Attr ''value'' (tv_selected s), OnChange Tv_select,
               Attr ''placeholder'' ''e.g. sensor-readings''] [],
             El ''datalist'' [Attr ''id'' ''time-series''] (map (\<lambda>n. El ''option'' [Attr ''value'' n] []) (tv_series s))],
           El ''label'' [] [Txt ''Result limit'',
             El ''input'' [Attr ''type'' ''number'', Attr ''min'' ''1'', Attr ''max'' ''1000'',
               Attr ''value'' (num_to_string (tv_limit s)), OnChange Tv_setLimit] []],
           El ''label'' [] [Txt ''Start'',
             El ''input'' [Attr ''type'' ''datetime-local'', Attr ''value'' (tv_startField s), OnChange Tv_setStart] []],
           El ''label'' [] [Txt ''End'',
             El ''input'' [Attr ''type'' ''datetime-local'', Attr ''value'' (tv_endField s), OnChange Tv_setEnd] []]],
        El ''div'' []
          [El ''label'' [] [El ''input'' [Attr ''type'' ''checkbox'',
             Attr ''checked'' (if tv_descending s then ''true'' else ''false''), OnToggle Tv_setDescending] [], Txt ''Newest first''],
           El ''button'' [OnClick Tv_run, Disabled (tv_loading s \<or> trim (tv_selected s) = [])]
             [El ''Filter'' [] [], Txt (if tv_loading s then ''Loading'' @ [CHR 0xE2, CHR 0x80, CHR 0xA6] else ''Run query'')]]]"

definition tv_writeForm :: "tv_state \<Rightarrow> int \<Rightarrow> tv_event node" where
  "tv_writeForm s now =
     El ''section'' []
       [El ''div'' []
          [El ''h2'' [] [El ''Filter'' [] [], Txt ''Exact tag filter''],
           El ''textarea'' [Attr ''value'' (tv_tags s), OnChange Tv_setTags, Attr ''rows'' ''4''] [],
           El ''p'' [] [Txt ''JSON object, e.g. '', Txt (''{'' @ [CHR 0x22] @ ''device'' @ [CHR 0x22] @ '':'' @ [CHR 0x22] @ ''sensor-01'' @
             [CHR 0x22] @ '','' @ [CHR 0x22] @ ''severity'' @ [CHR 0x22] @ '':'' @ [CHR 0x22] @ ''error'' @ [CHR 0x22] @ ''}'')]],
        El ''form'' [OnSubmit (Tv_write now)]
          [El ''h2'' [] [El ''Plus'' [] [], Txt ''Ingest point''],
           El ''label'' [] [Txt ''Timestamp'',
             El ''input'' [Attr ''type'' ''datetime-local'', Attr ''value'' (tv_timestamp s), OnChange Tv_setTimestamp] []],
           El ''div'' []
             [El ''label'' [] [Txt ''Tags'', El ''textarea'' [Attr ''value'' (tv_writeTags s), OnChange Tv_setWriteTags, Attr ''rows'' ''4''] []],
              El ''label'' [] [Txt ''Fields'', El ''textarea'' [Attr ''value'' (tv_fields s), OnChange Tv_setFields, Attr ''rows'' ''4''] []]],
           El ''button'' [] [El ''Plus'' [] [], Txt ''Write point'']]]"

definition tv_row :: "(string \<Rightarrow> string) \<Rightarrow> nat \<Rightarrow> TimeSeriesPoint \<Rightarrow> tv_event node" where
  "tv_row localeString i p =
     El ''tr'' [Attr ''key'' (tp_Timestamp p @ ''-'' @ nat_to_string i)]
       [El ''td'' [] [Txt (localeString (tp_Timestamp p))], El ''td'' [] [Txt (JSON_stringify (tp_Tags p))],
        El ''td'' [] [Txt (JSON_stringify (tp_Fields p))]]"

definition tv_table :: "(string \<Rightarrow> string) \<Rightarrow> tv_state \<Rightarrow> tv_event node" where
  "tv_table localeString s =
     El ''section'' []
       [El ''div'' [] [El ''span'' [] [Txt (nat_to_string (length (tv_points s)) @ '' points loaded'')],
          El ''span'' [] [Txt (''timestamp '' @ [CHR 0xC2, CHR 0xB7] @ '' tags '' @ [CHR 0xC2, CHR 0xB7] @ '' fields'')]],
        El ''div'' []
          [El ''table'' []
             [El ''thead'' [] [El ''tr'' [] [El ''th'' [] [Txt ''Timestamp''], El ''th'' [] [Txt ''Tags''], El ''th'' [] [Txt ''Fields'']]],
              El ''tbody'' []
                (if tv_points s = [] then [El ''tr'' [] [El ''td'' [Attr ''colSpan'' ''3''] [Txt ''No points found in this range.'']]]
                 else map (\<lambda>(i, p). tv_row localeString i p) (enumerate 0 (tv_points s)))]]]"

definition tv_retention :: "tv_state \<Rightarrow> tv_event node" where
  "tv_retention s =
     El ''section'' []
       [El ''div'' []
          [El ''h2'' [] [El ''Clock3'' [] [], Txt ''Retention policy''],
           El ''p'' [] [Txt ''Permanently remove points older than this cutoff.''],
           El ''input'' [Attr ''type'' ''datetime-local'', Attr ''value'' (tv_retentionCutoff s), OnChange Tv_setCutoff] []],
        El ''button'' [OnClick Tv_prune, Disabled (trim (tv_selected s) = [])] [El ''Trash2'' [] [], Txt ''Apply retention'']]"

definition tv_render :: "(string \<Rightarrow> string) \<Rightarrow> int \<Rightarrow> tv_state \<Rightarrow> tv_event node" where
  "tv_render localeString now s =
     El ''div'' []
       ([tv_header] @ tv_notice ''AlertTriangle'' (tv_error s) @ tv_notice ''CheckCircle2'' (tv_success s) @
        [tv_queryForm s, tv_writeForm s now, tv_table localeString s, tv_retention s])"

text \<open>A write reads the clock when it is submitted; the time is any.\<close>

definition tv_can :: "(string \<Rightarrow> string) \<Rightarrow> tv_state \<Rightarrow> tv_event \<Rightarrow> bool" where
  "tv_can localeString s e = (\<exists>now. user_can (tv_render localeString now s) e)"

abbreviation tv_reach :: "(string \<Rightarrow> string) \<Rightarrow> time_zone \<Rightarrow> int \<Rightarrow> tv_state \<times> tv_pending list \<Rightarrow> bool" where
  "tv_reach ls tz now \<equiv> view_reach (tv_start tz now) (tv_can ls) (tv_handle tz) tv_fit (tv_resume tz)"

section \<open>The newest query wins\<close>

fun tv_rid :: "tv_pending \<Rightarrow> nat option" where
  "tv_rid (Tv_points_of n _) = Some n"
| "tv_rid _ = None"

abbreviation tv_issued :: "tv_state \<Rightarrow> tv_state \<times> tv_pending list \<Rightarrow> bool" where
  "tv_issued s res \<equiv> issued (tv_latestRequest s) (tv_loading s) (tv_latestRequest (fst res)) (tv_loading (fst res))
     (List.map_filter tv_rid (snd res))"

lemma loadPoints_issued: "tv_issued s (loadPoints tz c s)"
  by (simp add: loadPoints_def Let_def List.map_filter_simps split: sum.splits)

lemma tv_commit_issued:
  assumes "issued l b (tv_latestRequest (fst res)) (tv_loading (fst res)) (List.map_filter tv_rid (snd res))"
  shows "issued l b (tv_latestRequest (fst (tv_commit tz old res))) (tv_loading (fst (tv_commit tz old res)))
    (List.map_filter tv_rid (snd (tv_commit tz old res)))"
  using issued_trans [OF assms loadPoints_issued [of "fst res" tz "fst res"]] assms
  by (simp add: tv_commit_def case_prod_beta)

lemma loadSeries_done_keeps [simp]:
  "tv_latestRequest (loadSeries_done names s) = tv_latestRequest s" "tv_loading (loadSeries_done names s) = tv_loading s"
  by (simp_all add: loadSeries_done_def)

lemma tv_act_issued: "tv_issued s (tv_act tz e s)"
  using loadPoints_issued [of s]
  by (cases e) (simp_all add: handleWrite_def handlePrune_def write_failed_def prune_failed_def Let_def List.map_filter_simps
      split: sum.splits)

lemma tv_continue_issued:
  assumes "tv_fit p r" and "tv_rid p = None"
  shows "tv_issued s (tv_continue tz p r s)"
proof -
  have l: "tv_issued s (loadPoints tz c (loadSeries_done names s))" for c names
    using loadPoints_issued [of "loadSeries_done names s" tz c] by simp
  have k: "tv_issued s (loadPoints tz c (s\<lparr>tv_success := m\<rparr>))" for c m
    using loadPoints_issued [of "s\<lparr>tv_success := m\<rparr>" tz c] by simp
  show ?thesis
    using assms l k
    by (cases "(p, r)" rule: tv_fit.cases)
      (simp_all add: handleWrite_done_def handleWrite_stored_def handlePrune_done_def write_failed_def prune_failed_def
        List.map_filter_simps case_prod_beta split: sum.splits)
qed

lemma tv_settle:
  assumes "tv_fit p r" and "tv_rid p = Some n"
  shows "issued (tv_latestRequest s) (if n = tv_latestRequest s then False else tv_loading s)
    (tv_latestRequest (fst (tv_continue tz p r s))) (tv_loading (fst (tv_continue tz p r s)))
    (List.map_filter tv_rid (snd (tv_continue tz p r s)))"
  using assms by (cases "(p, r)" rule: tv_fit.cases) (auto simp: loadPoints_done_def List.map_filter_simps split: sum.splits)

fun tv_weight :: "tv_pending \<Rightarrow> nat" where
  "tv_weight (Tv_points_of _ _) = 1"
| "tv_weight Tv_onRefreshCatalog = 1"
| "tv_weight (Tv_series_written _) = 4"
| "tv_weight (Tv_writing _ _ _) = 5"
| "tv_weight _ = 2"

lemma loadPoints_weight: "sum_list (map tv_weight (snd (loadPoints tz c s))) \<le> 1"
  by (auto simp: loadPoints_def Let_def split: sum.splits)

lemma tv_commit_weight: "sum_list (map tv_weight (snd (tv_commit tz old res))) \<le> sum_list (map tv_weight (snd res)) + 1"
  using loadPoints_weight [of tz "fst res" "fst res"] by (auto simp: tv_commit_def Let_def case_prod_beta)

lemma tv_commit_same: "tv_selected (fst res) = tv_selected old \<Longrightarrow> tv_commit tz old res = res"
  by (auto simp: tv_commit_def Let_def case_prod_beta)

interpretation tv_drain: drains tv_fit "tv_resume tz" tv_weight
proof unfold_locales
  fix p r s
  assume fit: "tv_fit p r"
  let ?w = "\<lambda>q. sum_list (map tv_weight q)"
  have bound: "?w (snd (tv_resume tz p r s)) \<le> ?w (snd (tv_continue tz p r s)) + 1"
    using tv_commit_weight by (simp add: tv_resume_def)
  have same: "tv_selected (fst (tv_continue tz p r s)) = tv_selected s \<Longrightarrow> tv_resume tz p r s = tv_continue tz p r s"
    by (simp add: tv_resume_def tv_commit_same)
  show "?w (snd (tv_resume tz p r s)) < tv_weight p"
    using fit
  proof (cases "(p, r)" rule: tv_fit.cases)
    case (4 c names)
    then show ?thesis
      using bound loadPoints_weight [of tz c "loadSeries_done (projr names) s"]
      by (auto simp: handleWrite_done_def case_prod_beta split: sum.splits)
  next
    case (6 c x1 x2 n)
    then have "tv_selected (fst (tv_continue tz p r s)) = tv_selected s"
      by (auto simp: handlePrune_done_def prune_failed_def loadPoints_def Let_def split: sum.splits)
    then show ?thesis
      using 6 same loadPoints_weight [of tz c] by (auto simp: handlePrune_done_def le_imp_less_Suc numeral_2_eq_2 split: sum.splits)
  qed (use same bound in \<open>auto simp: loadPoints_done_def handleWrite_stored_def write_failed_def split: sum.splits if_splits\<close>)
next
  show "\<exists>r. tv_fit p r" for p by (cases p) (metis tv_fit.simps)+
qed

interpretation tv: latest_wins "tv_start tz now" "tv_can ls" "tv_handle tz" tv_fit "tv_resume tz" tv_latestRequest tv_loading tv_rid
proof unfold_locales
  show "issued 0 False (tv_latestRequest (fst (tv_start tz now))) (tv_loading (fst (tv_start tz now)))
      (List.map_filter tv_rid (snd (tv_start tz now)))"
    by (simp add: tv_start_def tv_init_def List.map_filter_simps)
next
  show "tv_issued s (tv_handle tz e s)" for s e
    unfolding tv_handle_def by (rule tv_commit_issued) (rule tv_act_issued)
next
  show "tv_fit p r \<Longrightarrow> tv_rid p = None \<Longrightarrow> tv_issued s (tv_resume tz p r s)" for s p r
    unfolding tv_resume_def by (rule tv_commit_issued) (rule tv_continue_issued)
next
  show "tv_fit p r \<Longrightarrow> tv_rid p = Some n \<Longrightarrow> issued (tv_latestRequest s) (if n = tv_latestRequest s then False else tv_loading s)
     (tv_latestRequest (fst (tv_resume tz p r s))) (tv_loading (fst (tv_resume tz p r s)))
     (List.map_filter tv_rid (snd (tv_resume tz p r s)))" for s p r n
    unfolding tv_resume_def by (rule tv_commit_issued) (rule tv_settle)
qed

text \<open>
  C11.  In every run of the time-series page, the page says it is loading exactly while the newest
  query for points is unanswered, and a reply to any other query changes nothing.
\<close>

theorem tv_newest_query_wins:
  assumes "tv_reach ls tz now (s, q)"
  shows "(tv_loading s \<longleftrightarrow> (\<exists>query. Tv_points_of (tv_latestRequest s) query \<in> set q))
     \<and> (\<forall>n query r. Tv_points_of n query \<in> set q \<and> n \<noteq> tv_latestRequest s \<longrightarrow>
          tv_resume tz (Tv_points_of n query) (Tv_points r) s = (s, []))"
proof -
  have "tv_loading s = (tv_latestRequest s \<in> set (List.map_filter tv_rid q))"
    using tv.busy_iff_latest_pending [OF assms] by simp
  moreover have "n \<in> set (List.map_filter tv_rid q) \<longleftrightarrow> (\<exists>x. Tv_points_of n x \<in> set q)" for n
    by (induction q) (auto split: option.splits elim: tv_rid.elims)
  ultimately show ?thesis by (simp add: tv_resume_def tv_commit_def loadPoints_done_def)
qed

section \<open>What the page sends\<close>

lemma parseJSONMap_object: "parseJSONMap v l = Inr j \<Longrightarrow> \<exists>kvs. j = JObj kvs \<and> distinct (map fst kvs)"
  using JSON_parse_wf [of v] by (auto simp: parseJSONMap_def split: sum.splits json.splits)


definition query_ok :: "tv_pending \<Rightarrow> bool" where
  "query_ok p =
     (case p of
        Tv_points_of _ q \<Rightarrow> tsq_series q \<noteq> [] \<and> (\<exists>x. tsq_limit q = Some x \<and> x \<noteq> Fin 0 \<and> x \<noteq> NaN)
          \<and> (\<exists>kvs. tsq_tags q = Some (JObj kvs) \<and> distinct (map fst kvs))
      | Tv_series_written c \<Rightarrow> tv_limit c \<noteq> Fin 0 \<and> tv_limit c \<noteq> NaN
      | Tv_writing c _ _ \<Rightarrow> tv_limit c \<noteq> Fin 0 \<and> tv_limit c \<noteq> NaN
      | Tv_pruning c _ _ \<Rightarrow> tv_limit c \<noteq> Fin 0 \<and> tv_limit c \<noteq> NaN
      | _ \<Rightarrow> True)"

definition limit_ok :: "tv_state \<Rightarrow> bool" where
  "limit_ok s = (tv_limit s \<noteq> Fin 0 \<and> tv_limit s \<noteq> NaN)"

lemma loadPoints_query_ok:
  assumes "limit_ok c"
  shows "tv_limit (fst (loadPoints tz c s)) = tv_limit s \<and> list_all query_ok (snd (loadPoints tz c s))"
  using assms parseJSONMap_object
  by (auto simp: loadPoints_def tv_query_def limit_ok_def query_ok_def Let_def split: sum.splits)

lemma tv_commit_query_ok:
  "limit_ok (fst res) \<and> list_all query_ok (snd res) \<Longrightarrow>
     limit_ok (fst (tv_commit tz old res)) \<and> list_all query_ok (snd (tv_commit tz old res))"
  using loadPoints_query_ok [of "fst res" tz "fst res"]
  by (simp add: tv_commit_def case_prod_beta limit_ok_def)

lemma tv_act_query_ok:
  assumes "limit_ok s"
  shows "limit_ok (fst (tv_act tz e s)) \<and> list_all query_ok (snd (tv_act tz e s))"
  using assms loadPoints_query_ok [OF assms, of tz s]
  by (cases e) (simp_all add: limit_ok_def query_ok_def handleWrite_def handlePrune_def write_failed_def prune_failed_def
      Let_def or_num_truthy split: sum.splits)

lemma tv_continue_query_ok:
  assumes "limit_ok s" and "query_ok p"
  shows "limit_ok (fst (tv_continue tz p r s)) \<and> list_all query_ok (snd (tv_continue tz p r s))"
  using assms loadPoints_query_ok
  by (cases "(tz, p, r, s)" rule: tv_continue.cases)
    (simp_all add: limit_ok_def query_ok_def loadPoints_done_def loadSeries_done_def handleWrite_done_def handleWrite_stored_def
      handlePrune_done_def write_failed_def prune_failed_def case_prod_beta split: sum.splits)

interpretation tv_ok: view_invariant "tv_start tz now" "tv_can ls" "tv_handle tz" tv_fit "tv_resume tz"
  "\<lambda>s q. limit_ok s \<and> list_all query_ok q"
proof unfold_locales
  show "limit_ok (fst (tv_start tz now)) \<and> list_all query_ok (snd (tv_start tz now))"
    by (simp add: tv_start_def tv_init_def limit_ok_def query_ok_def)
next
  show "limit_ok s \<and> list_all query_ok q \<Longrightarrow> limit_ok (fst (tv_handle tz e s)) \<and> list_all query_ok (q @ snd (tv_handle tz e s))" for s q e
    using tv_commit_query_ok [OF tv_act_query_ok] by (simp add: tv_handle_def)
next
  show "limit_ok s \<and> list_all query_ok (q1 @ p # q2) \<Longrightarrow>
      limit_ok (fst (tv_resume tz p r s)) \<and> list_all query_ok (q1 @ q2 @ snd (tv_resume tz p r s))" for s q1 p q2 r
    using tv_commit_query_ok [OF tv_continue_query_ok] by (simp add: tv_resume_def)
qed

text \<open>
  C17.  Every query for points the page has in flight, in every run, names a series that is not
  blank, has a limit that is neither 0 nor NaN, and filters by a JSON object.
\<close>

theorem tv_queries_wellformed:
  assumes "tv_reach ls tz now (s, q)" and "Tv_points_of n query \<in> set q"
  shows "tsq_series query \<noteq> [] \<and> (\<exists>x. tsq_limit query = Some x \<and> x \<noteq> Fin 0 \<and> x \<noteq> NaN)
     \<and> (\<exists>kvs. tsq_tags query = Some (JObj kvs) \<and> distinct (map fst kvs))"
  using tv_ok.reach_inv [OF assms(1)] assms(2) by (auto simp: list_all_iff query_ok_def)

text \<open>
  After a write the page reloads the series of the form that was submitted, and its query becomes
  the newest one, also when another series has been selected in the meantime: the table is then
  filled with points of a series that is not the one selected.
\<close>

theorem tv_write_reloads_submitted_series:
  assumes "tv_query tz c = Inr query" and "trim (tv_selected c) \<noteq> []" and "tv_selected s \<noteq> []"
  shows "snd (tv_resume tz (Tv_series_written c) (Tv_names (Inr names)) s)
       = [Tv_onRefreshCatalog, Tv_points_of (Suc (tv_latestRequest s)) query]
     \<and> tsq_series query = trim (tv_selected c)
     \<and> (let s' = fst (tv_resume tz (Tv_series_written c) (Tv_names (Inr names)) s)
        in tv_selected s' = tv_selected s \<and> tv_latestRequest s' = Suc (tv_latestRequest s))"
proof -
  have "or_str (tv_selected s) d = tv_selected s" for d using assms(3) by (simp add: or_str_def)
  moreover have "tsq_series query = trim (tv_selected c)" using assms(1) by (auto simp: tv_query_def split: sum.splits)
  ultimately show ?thesis
    using assms(1,2) by (simp add: tv_resume_def tv_commit_def handleWrite_done_def loadSeries_done_def loadPoints_def Let_def)
qed

section \<open>A run\<close>

definition ex_blank :: "tv_state \<times> tv_pending list" where
  "ex_blank = do_event (tv_handle ex_zone) (Tv_setEnd []) (do_event (tv_handle ex_zone) (Tv_setStart []) (tv_start ex_zone 0))"

definition ex_typed :: "tv_state \<times> tv_pending list" where
  "ex_typed = do_event (tv_handle ex_zone) (Tv_select ''cpu'') (do_event (tv_handle ex_zone) (Tv_select ''cp'') ex_blank)"

definition ex_query :: "string \<Rightarrow> ts_query" where
  "ex_query name = \<lparr>tsq_series = name, tsq_start = None, tsq_end = None, tsq_tags = Some (JObj []),
     tsq_limit = Some (Fin 100), tsq_descending = Some True\<rparr>"

lemma tv_can_fields: "tv_can ls s (Tv_setStart v)" "tv_can ls s (Tv_setEnd v)" "tv_can ls s (Tv_select v)"
  by (simp_all add: tv_can_def tv_render_def tv_queryForm_def)

lemma ex_typed_reach: "tv_reach ls ex_zone 0 ex_typed"
  unfolding ex_typed_def ex_blank_def by (intro reach_do_event view_reach.mount tv_can_fields)

lemma ex_parsed: "parseJSONMap ''{}'' l = Inr (JObj [])"
proof -
  have "JSON_parse ''{}'' = Inr (JObj [])" by code_simp
  then show ?thesis by (simp add: parseJSONMap_def)
qed

lemma ex_names: "trim ''cp'' = ''cp''" "trim ''cpu'' = ''cpu''"
  by code_simp+

lemma ex_blank_eq:
  "ex_blank = ((tv_init ex_zone 0)\<lparr>tv_startField := [], tv_endField := []\<rparr>, [Tv_series_mount])"
  by (simp add: ex_blank_def do_event_def tv_handle_def tv_commit_def tv_start_def tv_init_def)

lemma ex_typed_eq:
  "ex_typed = ((tv_init ex_zone 0)\<lparr>tv_startField := [], tv_endField := [], tv_selected := ''cpu'', tv_loading := True,
      tv_latestRequest := 2\<rparr>,
     [Tv_series_mount, Tv_points_of 1 (ex_query ''cp''), Tv_points_of 2 (ex_query ''cpu'')])"
  unfolding ex_typed_def ex_blank_eq
  by (simp add: do_event_def tv_handle_def tv_commit_def tv_init_def loadPoints_def tv_query_def opt_iso_def ex_parsed ex_names
      ex_query_def Let_def numeral_2_eq_2)

theorem tv_newest_query_wins_witness:
  "tv_loading (fst ex_typed)
     \<and> tv_resume ex_zone (Tv_points_of 1 (ex_query ''cp'')) (Tv_points (Inr [])) (fst ex_typed) = (fst ex_typed, [])"
proof -
  have "tv_reach (\<lambda>t. t) ex_zone 0 (fst ex_typed, snd ex_typed)" using ex_typed_reach by simp
  from tv_newest_query_wins [OF this]
  have "tv_loading (fst ex_typed) \<longleftrightarrow> (\<exists>query. Tv_points_of (tv_latestRequest (fst ex_typed)) query \<in> set (snd ex_typed))"
    "Tv_points_of 1 (ex_query ''cp'') \<in> set (snd ex_typed) \<and> 1 \<noteq> tv_latestRequest (fst ex_typed) \<Longrightarrow>
       tv_resume ex_zone (Tv_points_of 1 (ex_query ''cp'')) (Tv_points (Inr [])) (fst ex_typed) = (fst ex_typed, [])"
    by blast+
  moreover have "tv_latestRequest (fst ex_typed) = 2" "Tv_points_of 1 (ex_query ''cp'') \<in> set (snd ex_typed)"
    "Tv_points_of 2 (ex_query ''cpu'') \<in> set (snd ex_typed)"
    by (simp_all add: ex_typed_eq)
  ultimately show ?thesis by auto
qed

theorem tv_queries_wellformed_witness:
  "tsq_series (ex_query ''cpu'') \<noteq> [] \<and> (\<exists>x. tsq_limit (ex_query ''cpu'') = Some x \<and> x \<noteq> Fin 0 \<and> x \<noteq> NaN)
     \<and> (\<exists>kvs. tsq_tags (ex_query ''cpu'') = Some (JObj kvs) \<and> distinct (map fst kvs))"
proof -
  have "tv_reach (\<lambda>t. t) ex_zone 0 (fst ex_typed, snd ex_typed)" using ex_typed_reach by simp
  then show ?thesis by (rule tv_queries_wellformed [where n = 2]) (simp add: ex_typed_eq)
qed

theorem tv_write_reloads_submitted_series_witness:
  "snd (tv_resume ex_zone (Tv_series_written (fst ex_typed)) (Tv_names (Inr [''cpu'', ''mem''])) ((fst ex_typed)\<lparr>tv_selected := ''mem''\<rparr>))
     = [Tv_onRefreshCatalog, Tv_points_of 3 (ex_query ''cpu'')]"
proof -
  have "tv_query ex_zone (fst ex_typed) = Inr (ex_query ''cpu'')"
    by (simp add: ex_typed_eq tv_query_def opt_iso_def ex_names ex_query_def ex_parsed tv_init_def)
  moreover have "trim (tv_selected (fst ex_typed)) \<noteq> []" by (simp add: ex_typed_eq ex_names)
  ultimately show ?thesis
    using tv_write_reloads_submitted_series
      [of ex_zone "fst ex_typed" "ex_query ''cpu''" "(fst ex_typed)\<lparr>tv_selected := ''mem''\<rparr>" "[''cpu'', ''mem'']"]
    by (simp add: ex_typed_eq numeral_3_eq_3)
qed

end
