(* ===== verification/Shell.thy ===== *)
theory Shell
  imports Query_Console
begin

text \<open>
  The shell of the Studio: the navigation (\<open>studio/frontend/src/components/Sidebar.tsx\<close>), the header
  (\<open>Header.tsx\<close>), the error boundary (\<open>ErrorBoundary.tsx\<close>) and the state of \<open>App.tsx\<close> with its
  theme and its polling of the server.  The page inside the boundary is a parameter here; the
  theory of the whole application fills it.
\<close>

section \<open>Navigation\<close>

datatype ViewType =
    View_dashboard | View_collections | View_timeseries | View_buckets | View_queues
  | View_pubsub | View_query | View_vector | View_search | View_maintenance

record nav_item =
  nav_id :: ViewType
  nav_label :: string
  nav_icon :: string
  nav_badge :: "nat option"

definition navItems :: "nat \<Rightarrow> nat \<Rightarrow> nat \<Rightarrow> nat \<Rightarrow> nav_item list" where
  "navItems bucketCount collectionCount timeSeriesCount queueCount =
     [\<lparr>nav_id = View_dashboard, nav_label = ''Dashboard'', nav_icon = ''LayoutDashboard'', nav_badge = None\<rparr>,
      \<lparr>nav_id = View_collections, nav_label = ''Collections'', nav_icon = ''Layers'', nav_badge = Some collectionCount\<rparr>,
      \<lparr>nav_id = View_timeseries, nav_label = ''Time Series'', nav_icon = ''Activity'', nav_badge = Some timeSeriesCount\<rparr>,
      \<lparr>nav_id = View_buckets, nav_label = ''KV Buckets'', nav_icon = ''Database'', nav_badge = Some bucketCount\<rparr>,
      \<lparr>nav_id = View_queues, nav_label = ''Task Queues'', nav_icon = ''Package'', nav_badge = Some queueCount\<rparr>,
      \<lparr>nav_id = View_pubsub, nav_label = ''Real-Time Pub/Sub'', nav_icon = ''Radio'', nav_badge = None\<rparr>,
      \<lparr>nav_id = View_query, nav_label = ''Query Console'', nav_icon = ''Terminal'', nav_badge = None\<rparr>,
      \<lparr>nav_id = View_vector, nav_label = ''Vector Search'', nav_icon = ''BrainCircuit'', nav_badge = None\<rparr>,
      \<lparr>nav_id = View_search, nav_label = ''Full-Text Search'', nav_icon = ''Search'', nav_badge = None\<rparr>,
      \<lparr>nav_id = View_maintenance, nav_label = ''Integrity & Tools'', nav_icon = ''ShieldCheck'', nav_badge = None\<rparr>]"

definition nav_button :: "ViewType \<Rightarrow> (ViewType \<Rightarrow> 'e) \<Rightarrow> nav_item \<Rightarrow> 'e node" where
  "nav_button currentView onSelectView item =
     El ''button''
       [OnClick (onSelectView (nav_id item)), Attr ''className'' (if currentView = nav_id item then ''active'' else ''inactive'')]
       (El ''div'' [] [El (nav_icon item) [] [], El ''span'' [] [Txt (nav_label item)]] #
        (case nav_badge item of None \<Rightarrow> [] | Some n \<Rightarrow> [El ''span'' [] [Txt (nat_to_string n)]]))"

definition Sidebar :: "ViewType \<Rightarrow> (ViewType \<Rightarrow> 'e) \<Rightarrow> nat \<Rightarrow> nat \<Rightarrow> nat \<Rightarrow> nat \<Rightarrow> 'e node" where
  "Sidebar currentView onSelectView bucketCount collectionCount timeSeriesCount queueCount =
     El ''aside'' []
       [El ''div'' []
          [El ''div'' [] [El ''Zap'' [] []],
           El ''div'' [] [El ''div'' [] [El ''span'' [] [Txt ''CoCo DB''], El ''span'' [] [Txt ''Studio'']],
             El ''p'' [] [Txt ''Multi-Model Engine'']]],
        El ''nav'' []
          (El ''div'' [] [Txt ''Database Explorer''] #
           map (nav_button currentView onSelectView) (navItems bucketCount collectionCount timeSeriesCount queueCount)),
        El ''div'' []
          [El ''div'' [] [El ''span'' [] [El ''span'' [] [], Txt ''Storage Kernel Active''],
             El ''span'' [] [Txt ''v1.0 (Pure Go)'']]]]"

section \<open>Header\<close>

datatype Theme = Light | Dark

definition theme_string :: "Theme \<Rightarrow> string" where
  "theme_string t = (case t of Light \<Rightarrow> ''light'' | Dark \<Rightarrow> ''dark'')"

definition page_mb :: "int \<Rightarrow> rat" where
  "page_mb n = of_int (n * 16) / 1024"

definition header_stats :: "DBStats option \<Rightarrow> 'e node list" where
  "header_stats stats =
     (case stats of
        None \<Rightarrow> []
      | Some st \<Rightarrow>
          [El ''div'' []
             [El ''span'' [] [El ''HardDrive'' [] [],
                Txt (int_to_string (page_count st) @ '' Pages ('' @ num_to_string (Fin (page_mb (page_count st))) @ '' MB)'')],
              El ''span'' [] [El ''Cpu'' [] [], Txt (''Hit Rate: '' @ toFixed 1 (cache_hit_rate st * 100) @ ''%'')],
              El ''span'' [] [El ''Activity'' [] [], Txt (''LSN: #'' @ int_to_string (last_lsn st))]]])"

definition Header :: "DBStats option \<Rightarrow> bool \<Rightarrow> Theme \<Rightarrow> 'e \<Rightarrow> 'e \<Rightarrow> 'e node" where
  "Header stats loading theme onToggleTheme onRefresh =
     El ''header'' []
       [El ''div'' []
          (El ''div'' [] [El ''div'' [] [], El ''span'' [] [Txt ''CoCo Embedded Instance'']] # header_stats stats),
        El ''div'' []
          [El ''button'' [OnClick onToggleTheme,
             Attr ''title'' (''Switch to '' @ (if theme = Dark then ''Light'' else ''Dark'') @ '' mode''), Attr ''aria-label'' ''Toggle theme'']
             [if theme = Dark then El ''Sun'' [] [] else El ''Moon'' [] []],
           El ''button'' [OnClick onRefresh, Disabled loading]
             [El ''RefreshCw'' [Attr ''className'' (if loading then ''animate-spin'' else [])] [], El ''span'' [] [Txt ''Refresh'']],
           El ''div'' [] [El ''ShieldCheck'' [] [], El ''span'' [] [Txt ''ACID OK'']]]]"

section \<open>Error boundary\<close>

text \<open>The state of the boundary: the error it has caught, if any.\<close>

type_synonym boundary = "js_error option"

definition getDerivedStateFromError :: "js_error \<Rightarrow> boundary" where
  "getDerivedStateFromError e = Some e"

definition boundary_panel :: "js_error \<Rightarrow> 'e \<Rightarrow> 'e node" where
  "boundary_panel e onRetry =
     El ''div'' []
       [El ''div'' [] [El ''AlertCircle'' [] [], El ''span'' [] [Txt ''Component Rendering Error'']],
        El ''p'' [] [Txt (or_str (message e) ''An unexpected error occurred while rendering.'')],
        El ''button'' [OnClick onRetry] [El ''RefreshCw'' [] [], El ''span'' [] [Txt ''Retry Rendering'']]]"

definition ErrorBoundary :: "boundary \<Rightarrow> 'e \<Rightarrow> 'e node list \<Rightarrow> 'e node list" where
  "ErrorBoundary b onRetry children = (case b of Some e \<Rightarrow> [boundary_panel e onRetry] | None \<Rightarrow> children)"

section \<open>The application's own state\<close>

record sh_state =
  sh_currentView :: ViewType
  sh_stats :: "DBStats option"
  sh_catalog :: "CatalogData option"
  sh_timeSeriesCount :: nat
  sh_loading :: bool
  sh_theme :: Theme
  sh_stored :: "string option"
  sh_darkClass :: bool
  sh_boundary :: boundary

definition saved_theme :: "string option \<Rightarrow> Theme" where
  "saved_theme saved = (if saved = Some ''light'' then Light else if saved = Some ''dark'' then Dark else Dark)"

text \<open>The effect on \<open>[theme]\<close>: the class of the document and the stored choice.\<close>

definition apply_theme :: "sh_state \<Rightarrow> sh_state" where
  "apply_theme s = s\<lparr>sh_darkClass := (sh_theme s = Dark), sh_stored := Some (theme_string (sh_theme s))\<rparr>"

datatype sh_pending = Sh_fetching

record fetch_result =
  fr_stats :: "DBStats option outcome"
  fr_catalog :: "CatalogData outcome"
  fr_series :: "string list outcome"

datatype sh_event =
    Sh_select ViewType
  | Sh_toggleTheme
  | Sh_refresh
  | Sh_timer
  | Sh_retry
  | Sh_caught js_error

definition fetchData :: "sh_state \<Rightarrow> sh_state \<times> sh_pending list" where
  "fetchData s = (s\<lparr>sh_loading := True\<rparr>, [Sh_fetching])"

definition empty_catalog :: CatalogData where
  "empty_catalog = \<lparr>cat_buckets = Some [], cat_collections = Some [], cat_queues = Some []\<rparr>"

definition fetchData_done :: "fetch_result \<Rightarrow> sh_state \<Rightarrow> sh_state" where
  "fetchData_done r s =
     (let statsRes = (case fr_stats r of Inr st \<Rightarrow> st | Inl _ \<Rightarrow> None);
          catalogRes = (case fr_catalog r of Inr c \<Rightarrow> c | Inl _ \<Rightarrow> empty_catalog);
          seriesRes = (case fr_series r of Inr names \<Rightarrow> names | Inl _ \<Rightarrow> [])
      in s\<lparr>sh_stats := (case statsRes of Some st \<Rightarrow> Some st | None \<Rightarrow> sh_stats s),
           sh_catalog := Some catalogRes, sh_timeSeriesCount := length seriesRes, sh_loading := False\<rparr>)"

definition toggleTheme :: "sh_state \<Rightarrow> sh_state" where
  "toggleTheme s = apply_theme (s\<lparr>sh_theme := (if sh_theme s = Dark then Light else Dark)\<rparr>)"

definition sh_init :: "string option \<Rightarrow> sh_state" where
  "sh_init saved =
     apply_theme \<lparr>sh_currentView = View_dashboard, sh_stats = None, sh_catalog = None, sh_timeSeriesCount = 0, sh_loading = False,
       sh_theme = saved_theme saved, sh_stored = saved, sh_darkClass = False, sh_boundary = None\<rparr>"

definition sh_start :: "string option \<Rightarrow> sh_state \<times> sh_pending list" where
  "sh_start saved = fetchData (sh_init saved)"

fun sh_handle :: "sh_event \<Rightarrow> sh_state \<Rightarrow> sh_state \<times> sh_pending list" where
  "sh_handle (Sh_select v) s = (s\<lparr>sh_currentView := v\<rparr>, [])"
| "sh_handle Sh_toggleTheme s = (toggleTheme s, [])"
| "sh_handle Sh_refresh s = fetchData s"
| "sh_handle Sh_timer s = fetchData s"
| "sh_handle Sh_retry s = (s\<lparr>sh_boundary := None\<rparr>, [])"
| "sh_handle (Sh_caught e) s = (s\<lparr>sh_boundary := getDerivedStateFromError e\<rparr>, [])"

fun sh_resume :: "sh_pending \<Rightarrow> fetch_result \<Rightarrow> sh_state \<Rightarrow> sh_state \<times> sh_pending list" where
  "sh_resume Sh_fetching r s = (fetchData_done r s, [])"

definition list_count :: "'a list option \<Rightarrow> nat" where
  "list_count x = (case x of None \<Rightarrow> 0 | Some xs \<Rightarrow> length xs)"

text \<open>The tree of \<open>App.tsx\<close> around the page; \<open>up\<close> lifts the shell's events to those of the whole tree.\<close>

definition App_tree :: "(sh_event \<Rightarrow> 'e) \<Rightarrow> sh_state \<Rightarrow> 'e node list \<Rightarrow> 'e node" where
  "App_tree up s page =
     El ''div'' []
       [Sidebar (sh_currentView s) (\<lambda>v. up (Sh_select v))
          (list_count (Option.bind (sh_catalog s) cat_buckets)) (list_count (Option.bind (sh_catalog s) cat_collections))
          (sh_timeSeriesCount s) (list_count (Option.bind (sh_catalog s) cat_queues)),
        El ''div'' []
          [Header (sh_stats s) (sh_loading s) (sh_theme s) (up Sh_toggleTheme) (up Sh_refresh),
           El ''main'' [] (ErrorBoundary (sh_boundary s) (up Sh_retry) page)]]"

section \<open>Properties\<close>

definition sh_can :: "sh_state \<Rightarrow> sh_event \<Rightarrow> bool" where
  "sh_can s e = (user_can (App_tree id s []) e \<or> e = Sh_timer \<or> (\<exists>err. e = Sh_caught err))"

abbreviation sh_reach :: "string option \<Rightarrow> sh_state \<times> sh_pending list \<Rightarrow> bool" where
  "sh_reach saved \<equiv> view_reach (sh_start saved) sh_can sh_handle (\<lambda>_ _. True) sh_resume"

lemma header_stats_inert [simp]: "c \<in> set (header_stats st) \<Longrightarrow> \<not> user_can c e"
  by (auto simp: header_stats_def split: option.splits)

lemma nav_button_can [simp]: "user_can (nav_button v f item) e \<longleftrightarrow> e = f (nav_id item)"
  by (auto simp: nav_button_def split: option.splits)

lemma navItems_ids: "set (map nav_id (navItems a b c d)) = UNIV" "distinct (map nav_id (navItems a b c d))"
proof -
  have "v \<in> set (map nav_id (navItems a b c d))" for v by (cases v) (simp_all add: navItems_def)
  then show "set (map nav_id (navItems a b c d)) = UNIV" by blast
  show "distinct (map nav_id (navItems a b c d))" by (simp add: navItems_def)
qed

lemma Sidebar_can [simp]: "user_can (Sidebar v f a b c d) e \<longleftrightarrow> (\<exists>w. e = f w)"
proof -
  have "(\<exists>i \<in> set (navItems a b c d). e = f (nav_id i)) \<longleftrightarrow> (\<exists>w \<in> nav_id ` set (navItems a b c d). e = f w)" by blast
  also have "\<dots> \<longleftrightarrow> (\<exists>w. e = f w)" using navItems_ids(1) by (metis UNIV_I list.set_map)
  finally show ?thesis by (auto simp: Sidebar_def)
qed

lemma Header_can [simp]: "user_can (Header st l th a b) e \<longleftrightarrow> e = a \<or> (\<not> l \<and> e = b)"
  by (auto simp: Header_def has_button_def)

lemma boundary_panel_can [simp]: "user_can (boundary_panel err r) e \<longleftrightarrow> e = r"
  by (auto simp: boundary_panel_def)

lemma App_tree_can:
  "user_can (App_tree up s page) e \<longleftrightarrow>
     (\<exists>v. e = up (Sh_select v)) \<or> e = up Sh_toggleTheme \<or> (\<not> sh_loading s \<and> e = up Sh_refresh)
     \<or> (sh_boundary s \<noteq> None \<and> e = up Sh_retry) \<or> (sh_boundary s = None \<and> (\<exists>n \<in> set page. user_can n e))"
  by (auto simp: App_tree_def ErrorBoundary_def split: option.splits)


interpretation sh_flag: backed_flag "sh_start saved" sh_can sh_handle "\<lambda>_ _. True" sh_resume sh_loading "\<lambda>_. True"
proof unfold_locales
  show "sh_loading (fst (sh_handle e s)) \<Longrightarrow> sh_loading s \<or> tracked_count (\<lambda>_. True) (snd (sh_handle e s)) \<noteq> 0" for s e
    by (cases e) (simp_all add: fetchData_def toggleTheme_def apply_theme_def)
  show "sh_loading (fst (sh_resume p r s)) \<Longrightarrow> tracked_count (\<lambda>_. True) (snd (sh_resume p r s)) \<noteq> 0" for s p r
    by (cases p) (simp add: fetchData_done_def Let_def)
qed (simp_all add: sh_start_def fetchData_def)

definition theme_synced :: "sh_state \<Rightarrow> bool" where
  "theme_synced s = (sh_darkClass s = (sh_theme s = Dark) \<and> sh_stored s = Some (theme_string (sh_theme s)))"

interpretation sh_theme: view_invariant "sh_start saved" sh_can sh_handle "\<lambda>_ _. True" sh_resume "\<lambda>s q. theme_synced s"
proof unfold_locales
  show "theme_synced (fst (sh_start saved))"
    by (simp add: sh_start_def fetchData_def sh_init_def apply_theme_def theme_synced_def)
  show "theme_synced s \<Longrightarrow> theme_synced (fst (sh_handle e s))" for s e
    by (cases e) (simp_all add: fetchData_def toggleTheme_def apply_theme_def theme_synced_def)
  show "theme_synced s \<Longrightarrow> theme_synced (fst (sh_resume p r s))" for s p r
    by (cases p) (simp add: fetchData_done_def Let_def theme_synced_def)
qed

text \<open>
  C29.  The theme survives a reload: in every run the stored choice is the theme on display, the
  document has the dark class exactly in the dark theme, and a session started from what is stored
  opens with the theme of the one before.
\<close>

theorem theme_persists:
  assumes "sh_reach saved (s, q)"
  shows "sh_darkClass s = (sh_theme s = Dark) \<and> sh_theme (fst (sh_start (sh_stored s))) = sh_theme s"
proof -
  have "theme_synced s" using sh_theme.reach_inv [OF assms] by simp
  then show ?thesis
    by (cases "sh_theme s")
      (simp_all add: theme_synced_def theme_string_def sh_start_def fetchData_def sh_init_def apply_theme_def saved_theme_def)
qed

theorem theme_persists_witness:
  "sh_theme (fst (sh_start (sh_stored (fst (do_event sh_handle Sh_toggleTheme (sh_start None)))))) = Light"
proof -
  have "sh_reach None (do_event sh_handle Sh_toggleTheme (sh_start None))"
    by (rule reach_do_event [OF view_reach.mount]) (simp add: sh_can_def App_tree_can)
  then have "sh_reach None (fst (do_event sh_handle Sh_toggleTheme (sh_start None)), snd (do_event sh_handle Sh_toggleTheme (sh_start None)))"
    by simp
  from theme_persists [OF this] show ?thesis
    by (simp add: do_event_def toggleTheme_def sh_start_def fetchData_def sh_init_def apply_theme_def saved_theme_def)
qed


definition ex_failed :: fetch_result where
  "ex_failed = \<lparr>fr_stats = Inl (Js_error ''x''), fr_catalog = Inl (Js_error ''x''), fr_series = Inl (Js_error ''x'')\<rparr>"


end
