(* ===== verification/Overview_View.thy ===== *)
theory Overview_View
  imports Shell
begin

text \<open>
  The overview page of the Studio (\<open>studio/frontend/src/views/DashboardView.tsx\<close>).  Its figures
  come from the statistics and the catalog the shell passes in; the page keeps only the state of its
  metrics drawer.  \<open>localeNum\<close> stands for \<open>toLocaleString\<close> of a number and \<open>origin\<close> for the
  address of the page, both of the host.
\<close>

record dv_state =
  dv_stats :: "DBStats option"
  dv_catalog :: "CatalogData option"
  dv_showPrometheus :: bool
  dv_copied :: bool
  dv_clipboard :: "string option"

definition dv_init :: "DBStats option \<Rightarrow> CatalogData option \<Rightarrow> dv_state" where
  "dv_init stats cat =
     \<lparr>dv_stats = stats, dv_catalog = cat, dv_showPrometheus = False, dv_copied = False, dv_clipboard = None\<rparr>"

datatype dv_pending = Dv_uncopy

datatype dv_event =
    Dv_props "DBStats option" "CatalogData option"
  | Dv_togglePrometheus
  | Dv_copyMetrics
  | Dv_navigate ViewType

definition dv_handleCopyMetrics :: "string \<Rightarrow> dv_state \<Rightarrow> dv_state \<times> dv_pending list" where
  "dv_handleCopyMetrics origin s =
     (s\<lparr>dv_clipboard := Some (origin @ ''/api/metrics''), dv_copied := True\<rparr>, [Dv_uncopy])"

fun dv_handle :: "string \<Rightarrow> dv_event \<Rightarrow> dv_state \<Rightarrow> dv_state \<times> dv_pending list" where
  "dv_handle origin (Dv_props stats cat) s = (s\<lparr>dv_stats := stats, dv_catalog := cat\<rparr>, [])"
| "dv_handle origin Dv_togglePrometheus s = (s\<lparr>dv_showPrometheus := \<not> dv_showPrometheus s\<rparr>, [])"
| "dv_handle origin Dv_copyMetrics s = dv_handleCopyMetrics origin s"
| "dv_handle origin (Dv_navigate v) s = (s, [])"

fun dv_resume :: "dv_pending \<Rightarrow> unit \<Rightarrow> dv_state \<Rightarrow> dv_state \<times> dv_pending list" where
  "dv_resume Dv_uncopy _ s = (s\<lparr>dv_copied := False\<rparr>, [])"

section \<open>The figures\<close>

definition stat :: "(DBStats \<Rightarrow> int) \<Rightarrow> dv_state \<Rightarrow> int" where
  "stat f s = (case dv_stats s of None \<Rightarrow> 0 | Some st \<Rightarrow> f st)"

definition opt_stat :: "(DBStats \<Rightarrow> int option) \<Rightarrow> dv_state \<Rightarrow> int" where
  "opt_stat f s = (case Option.bind (dv_stats s) f of None \<Rightarrow> 0 | Some n \<Rightarrow> n)"

definition dv_sizeMB :: "dv_state \<Rightarrow> string" where
  "dv_sizeMB s = toFixed 2 (page_mb (stat page_count s))"

definition dv_hitRate :: "dv_state \<Rightarrow> string" where
  "dv_hitRate s =
     (case dv_stats s of
        Some st \<Rightarrow> if cache_hit_rate st \<noteq> 0 then toFixed 1 (cache_hit_rate st * 100) else ''100.0''
      | None \<Rightarrow> ''100.0'')"

definition dv_buckets :: "dv_state \<Rightarrow> CatalogObject list" where
  "dv_buckets s = or_list (Option.bind (dv_catalog s) cat_buckets)"

definition dv_collections :: "dv_state \<Rightarrow> CatalogObject list" where
  "dv_collections s = or_list (Option.bind (dv_catalog s) cat_collections)"

definition dv_queues :: "dv_state \<Rightarrow> CatalogObject list" where
  "dv_queues s = or_list (Option.bind (dv_catalog s) cat_queues)"

section \<open>Rendering\<close>

definition dv_header :: "dv_event node" where
  "dv_header =
     El ''div'' []
       [El ''div'' [] [El ''h1'' [] [El ''span'' [] [Txt ''Database Metrics & Overview''], El ''span'' [] [Txt ''Production Kernel'']],
          El ''p'' [] [Txt ''Real-time telemetry, cache analytics, task queue leases, and Prometheus metric exporters'']],
        El ''div'' []
          [El ''button'' [OnClick Dv_togglePrometheus] [El ''BarChart3'' [] [], El ''span'' [] [Txt ''Prometheus Exporter'']],
           El ''button'' [OnClick (Dv_navigate View_query)] [El ''Zap'' [] [], El ''span'' [] [Txt ''Open Query Console'']]]]"

definition dv_drawer :: "string \<Rightarrow> dv_state \<Rightarrow> dv_event node list" where
  "dv_drawer origin s =
     (if \<not> dv_showPrometheus s then []
      else
        [El ''div'' []
           [El ''div'' []
              [El ''div'' [] [El ''BarChart3'' [] [], El ''span'' [] [Txt ''Prometheus Metrics Exporter Active''],
                 El ''span'' [] [Txt ''text/plain 0.0.4'']],
               El ''div'' []
                 [El ''button'' [OnClick Dv_copyMetrics]
                    [if dv_copied s then El ''Check'' [] [] else El ''Copy'' [] [],
                     El ''span'' [] [Txt (if dv_copied s then ''Copied URL'' else ''Copy Scrape URL'')]],
                  El ''a'' [Attr ''href'' ''/api/metrics'', Attr ''target'' ''_blank'', Attr ''rel'' ''noreferrer'']
                    [El ''span'' [] [Txt ''View Raw /metrics''], El ''ExternalLink'' [] []]]],
            El ''div'' []
              [El ''p'' [] [Txt ''# Scrape Target URL for Prometheus / Grafana Agent / OpenTelemetry:''],
               El ''p'' [] [Txt (origin @ ''/api/metrics'')]]]])"

definition dv_badges :: "dv_event node" where
  "dv_badges =
     El ''div'' []
       (El ''span'' [] [Txt ''Enabled Subsystems:''] #
        map (\<lambda>t. El ''span'' [] [El ''span'' [] [], Txt t])
          [''B+Tree KV Engine'', ''Document Engine (Binary Slotted)'', ''HNSW Vector Search'', ''BM25 Full-Text Index'',
           ''Transactional Task Queues (DLQ + Dedup)'', ''Real-Time Pub/Sub''] @
        [El ''span'' [] [El ''Lock'' [] [], Txt ''AES-256-GCM & CRC32C'']])"

definition dv_kpis :: "(int \<Rightarrow> string) \<Rightarrow> dv_state \<Rightarrow> dv_event node" where
  "dv_kpis localeNum s =
     El ''div'' []
       [El ''div'' []
          [El ''div'' [] [El ''span'' [] [Txt ''Allocated Storage''], El ''HardDrive'' [] []],
           El ''div'' [] [El ''span'' [] [Txt (dv_sizeMB s)], El ''span'' [] [Txt ''MB'']],
           El ''div'' [] [Txt (localeNum (stat page_count s) @ '' pages '' @ [CHR 0xC3, CHR 0x97] @ '' 16 KiB'')]],
        El ''div'' []
          [El ''div'' [] [El ''span'' [] [Txt ''16-Partition LRU Cache''], El ''Cpu'' [] []],
           El ''div'' [] [El ''span'' [] [Txt (dv_hitRate s @ ''%'')], El ''TrendingUp'' [] []],
           El ''div'' [] [Txt (localeNum (stat cache_hits s) @ '' hits / '' @ localeNum (stat cache_misses s) @ '' misses'')]],
        El ''div'' []
          [El ''div'' [] [El ''span'' [] [Txt ''WAL Log Sequence (LSN)''], El ''Layers'' [] []],
           El ''div'' [] [El ''span'' [] [Txt (''#'' @ int_to_string (stat last_lsn s))]],
           El ''div'' [] [Txt (''Txn ID #'' @ int_to_string (stat last_txn_id s) @ '' | SyncNormal'')]],
        El ''div'' []
          [El ''div'' [] [El ''span'' [] [Txt ''Schema Objects''], El ''Database'' [] []],
           El ''div'' []
             [El ''span'' [] [Txt (nat_to_string (length (dv_collections s) + length (dv_buckets s) + length (dv_queues s)))],
              El ''span'' [] [Txt ''total'']],
           El ''div'' [] [Txt (nat_to_string (length (dv_collections s)) @ '' Colls, '' @ nat_to_string (length (dv_buckets s)) @
             '' Buckets, '' @ nat_to_string (length (dv_queues s)) @ '' Queues'')]]]"

definition dv_figure :: "string \<Rightarrow> string \<Rightarrow> dv_event node" where
  "dv_figure label v = El ''div'' [] [El ''div'' [] [Txt label], El ''div'' [] [Txt v]]"

definition dv_link :: "ViewType \<Rightarrow> string \<Rightarrow> string \<Rightarrow> dv_event node" where
  "dv_link v label icon = El ''button'' [OnClick (Dv_navigate v)] [El ''span'' [] [Txt label], El icon [] []]"

definition dv_telemetry :: "dv_state \<Rightarrow> dv_event node" where
  "dv_telemetry s =
     El ''div'' []
       [El ''div'' []
          [El ''div'' [] [El ''div'' [] [El ''Package'' [] [], El ''h3'' [] [Txt ''Task Queue Telemetry'']],
             dv_link View_queues ''Manage Queues'' ''ArrowUpRight''],
           El ''div'' []
             [dv_figure ''Ready Tasks'' (int_to_string (opt_stat queue_ready_tasks s)),
              dv_figure ''In-Flight (Leased)'' (int_to_string (opt_stat queue_inflight_tasks s)),
              dv_figure ''Dead-Letter (DLQ)'' (int_to_string (opt_stat queue_dlq_tasks s))]],
        El ''div'' []
          [El ''div'' [] [El ''div'' [] [El ''Radio'' [] [], El ''h3'' [] [Txt ''Real-Time Pub/Sub Broker'']],
             dv_link View_pubsub ''View Stream'' ''ArrowUpRight''],
           El ''div'' []
             [dv_figure ''Live Session Events'' (int_to_string (opt_stat pubsub_events_count s)),
              dv_figure ''Throughput Speed'' ''~1.95M/s'']]]"

definition dv_object :: "ViewType \<Rightarrow> string \<Rightarrow> CatalogObject \<Rightarrow> dv_event node" where
  "dv_object v tag obj =
     El ''div'' [OnClick (Dv_navigate v)]
       [El ''div'' [] [El ''div'' [] [Txt (co_name obj)],
          El ''div'' [] [Txt (''ObjectID: '' @ int_to_string (co_id obj) @ '' '' @ [CHR 0xC2, CHR 0xB7] @ '' Root: Page #'' @
            int_to_string (co_root obj))]],
        El ''span'' [] [Txt tag]]"

definition dv_objects :: "ViewType \<Rightarrow> string \<Rightarrow> string \<Rightarrow> string \<Rightarrow> string \<Rightarrow> CatalogObject list \<Rightarrow> dv_event node" where
  "dv_objects v icon title none tag objs =
     El ''div'' []
       [El ''div'' [] [El ''div'' [] [El icon [] [], El ''h2'' [] [Txt title]], dv_link v ''Explore'' ''ArrowUpRight''],
        El ''div'' [] (if objs = [] then [El ''div'' [] [Txt none]] else map (dv_object v tag) objs)]"

definition dv_kernel :: "dv_event node" where
  "dv_kernel =
     El ''div'' []
       [El ''div'' [] [El ''div'' [] [El ''ShieldCheck'' [] [], El ''span'' [] [Txt ''Storage Kernel Health & Diagnostics'']],
          dv_link View_maintenance ''Run Integrity Check'' ''FileCheck2''],
        El ''div'' []
          [El ''div'' [] [El ''span'' [] [Txt ''Dual Meta Pages''],
             El ''p'' [] [Txt ''Page 0 (Meta A) & Page 1 (Meta B) alternating crash-safe commits.'']],
           El ''div'' [] [El ''span'' [] [Txt ''CRC32C Checksums''],
             El ''p'' [] [Txt ''Castagnoli 32-bit hardware checksum verified on every page load.'']],
           El ''div'' [] [El ''span'' [] [Txt ''Snapshot Isolation MVCC''],
             El ''p'' [] [Txt ''Non-blocking concurrent readers with single-writer coordinator.'']]]]"

definition dv_render :: "(int \<Rightarrow> string) \<Rightarrow> string \<Rightarrow> dv_state \<Rightarrow> dv_event node" where
  "dv_render localeNum origin s =
     El ''div'' []
       ([dv_header] @ dv_drawer origin s @
        [dv_badges, dv_kpis localeNum s, dv_telemetry s,
         El ''div'' []
           [dv_objects View_collections ''Layers'' ''Document Collections'' ''No document collections found in database.''
              ''Binary / Slotted'' (dv_collections s),
            dv_objects View_buckets ''Database'' ''Key/Value Buckets'' ''No Key/Value buckets found in database.''
              ''B+Tree Ordered'' (dv_buckets s)],
         dv_kernel])"

definition dv_can :: "(int \<Rightarrow> string) \<Rightarrow> string \<Rightarrow> dv_state \<Rightarrow> dv_event \<Rightarrow> bool" where
  "dv_can localeNum origin s e = (user_can (dv_render localeNum origin s) e \<or> (\<exists>stats cat. e = Dv_props stats cat))"

abbreviation dv_reach :: "(int \<Rightarrow> string) \<Rightarrow> string \<Rightarrow> DBStats option \<Rightarrow> CatalogData option \<Rightarrow> dv_state \<times> dv_pending list \<Rightarrow> bool" where
  "dv_reach nf origin stats cat \<equiv>
     view_reach (dv_init stats cat, []) (dv_can nf origin) (dv_handle origin) (\<lambda>_ _. True) dv_resume"

section \<open>Properties\<close>

interpretation dv_drain: drains "\<lambda>_ _. True" dv_resume "\<lambda>_. 1 :: nat"
proof unfold_locales
  show "sum_list (map (\<lambda>_. 1) (snd (dv_resume p r s))) < (1 :: nat)" for p r s by (cases p) simp
qed simp

interpretation dv_prop: prop_view "\<lambda>s. user_can (dv_render nf origin s)" "dv_handle origin" dv_resume
  "\<lambda>(stats, cat). Dv_props stats cat" id "\<lambda>s. (dv_stats s, dv_catalog s)"
proof unfold_locales
  have "\<not> user_can (dv_render nf origin s) (Dv_props stats cat)" for s stats cat
    by (auto simp: dv_render_def dv_header_def dv_drawer_def dv_badges_def dv_kpis_def dv_telemetry_def dv_objects_def dv_object_def
      dv_link_def dv_figure_def dv_kernel_def split: if_splits)
  then show "user_can (dv_render nf origin s) e \<Longrightarrow>
      (dv_stats (fst (dv_handle origin e s)), dv_catalog (fst (dv_handle origin e s))) = (dv_stats s, dv_catalog s)" for s e
    by (cases e) (auto simp: dv_handleCopyMetrics_def)
  show "(dv_stats (fst (dv_resume p r s)), dv_catalog (fst (dv_resume p r s))) = (dv_stats s, dv_catalog s)" for p r s
    by (cases p) simp
qed auto

lemma toFixed_zero: "toFixed (Suc 0) 0 = ''0.0''"
  by code_simp

text \<open>
  A cache that never hits is shown as a cache that always hits: for statistics with a hit rate of
  0 the overview prints \<open>100.0\<close> while the header above it prints \<open>0.0%\<close>;
  every other rate is printed as the percentage it is.
\<close>

theorem dv_hitRate_of_zero:
  "dv_hitRate (dv_init (Some (st\<lparr>cache_hit_rate := 0\<rparr>)) cat) = ''100.0''
   \<and> str_includes (concat (map node_text (header_stats (Some (st\<lparr>cache_hit_rate := 0\<rparr>))))) ''Hit Rate: 0.0%''
   \<and> dv_hitRate (dv_init (Some st) cat) = (if cache_hit_rate st = 0 then ''100.0'' else toFixed 1 (cache_hit_rate st * 100))"
proof -
  let ?st = "st\<lparr>cache_hit_rate := 0\<rparr>"
  have "concat (map node_text (header_stats (Some ?st))) =
      (int_to_string (page_count st) @ '' Pages ('' @ num_to_string (Fin (page_mb (page_count st))) @ '' MB)'') @
      ''Hit Rate: 0.0%'' @ (''LSN: #'' @ int_to_string (last_lsn st))"
    by (simp add: header_stats_def toFixed_zero)
  then have "str_includes (concat (map node_text (header_stats (Some ?st)))) ''Hit Rate: 0.0%''"
    unfolding str_includes_iff by blast
  then show ?thesis by (simp add: dv_hitRate_def dv_init_def)
qed

text \<open>
  What a user can click on the overview leads to exactly six of the views, whatever the statistics
  and the catalog are, and the metrics address can be copied exactly while the drawer is open.
\<close>

theorem dv_navigation:
  "(user_can (dv_render localeNum origin s) (Dv_navigate v) \<longleftrightarrow>
      v \<in> {View_query, View_queues, View_pubsub, View_collections, View_buckets, View_maintenance})
   \<and> (user_can (dv_render localeNum origin s) Dv_copyMetrics \<longleftrightarrow> dv_showPrometheus s)"
  by (auto simp: dv_render_def dv_header_def dv_drawer_def dv_badges_def dv_kpis_def dv_telemetry_def dv_objects_def dv_object_def
      dv_link_def dv_figure_def dv_kernel_def split: if_splits)

end
