(* ===== verification/Buckets_View.thy ===== *)
theory Buckets_View
  imports Query_Console
begin

text \<open>
  The key/value browser of the Studio (\<open>studio/frontend/src/views/BucketsView.tsx\<close>).  Its
  scans carry no request number: every reply is taken.
\<close>

record bv_state =
  bv_buckets :: "CatalogObject list"
  bv_selectedBucket :: string
  bv_entries :: "KVEntry list"
  bv_loading :: bool
  bv_error :: "string option"
  bv_prefix :: string
  bv_isModalOpen :: bool
  bv_keyInput :: string
  bv_valInput :: string
  bv_ttlInput :: string

definition bv_init :: bv_state where
  "bv_init = \<lparr>bv_buckets = [], bv_selectedBucket = [], bv_entries = [], bv_loading = False, bv_error = None,
     bv_prefix = [], bv_isModalOpen = False, bv_keyInput = [], bv_valInput = [], bv_ttlInput = []\<rparr>"

datatype bv_pending =
    Bv_scan string string
  | Bv_putting bv_state api_call
  | Bv_deleting bv_state api_call
  | Bv_incrementing bv_state api_call
  | Bv_onRefreshCatalog

datatype bv_reply =
    Bv_entries "KVEntry list option outcome"
  | Bv_ack "unit outcome"
  | Bv_tick

fun bv_fit :: "bv_pending \<Rightarrow> bv_reply \<Rightarrow> bool" where
  "bv_fit (Bv_scan _ _) (Bv_entries _) = True"
| "bv_fit (Bv_putting _ _) (Bv_ack _) = True"
| "bv_fit (Bv_deleting _ _) (Bv_ack _) = True"
| "bv_fit (Bv_incrementing _ _) (Bv_ack _) = True"
| "bv_fit Bv_onRefreshCatalog Bv_tick = True"
| "bv_fit _ _ = False"

datatype bv_event =
    Bv_catalog "CatalogData option"
  | Bv_select string
  | Bv_setPrefix string
  | Bv_scanClick
  | Bv_openModal
  | Bv_closeModal
  | Bv_setKey string
  | Bv_setVal string
  | Bv_setTtl string
  | Bv_put
  | Bv_increment string
  | Bv_delete string bool

section \<open>Handlers\<close>

definition loadEntries :: "bv_state \<Rightarrow> bv_state \<Rightarrow> bv_state \<times> bv_pending list" where
  "loadEntries c s =
     (if bv_selectedBucket c = [] then (s, [])
      else (s\<lparr>bv_loading := True, bv_error := None\<rparr>, [Bv_scan (bv_selectedBucket c) (bv_prefix c)]))"

definition loadEntries_done :: "KVEntry list option outcome \<Rightarrow> bv_state \<Rightarrow> bv_state" where
  "loadEntries_done r s =
     (case r of
        Inr es \<Rightarrow> s\<lparr>bv_entries := or_list es, bv_loading := False\<rparr>
      | Inl e \<Rightarrow> s\<lparr>bv_error := Some (or_str (message e) ''Failed to scan bucket''), bv_loading := False\<rparr>)"

definition put_call :: "bv_state \<Rightarrow> api_call" where
  "put_call s =
     putKV (bv_selectedBucket s) (bv_keyInput s) (bv_valInput s)
       (if bv_ttlInput s \<noteq> [] then Some (Number (bv_ttlInput s)) else None)"

definition handlePut :: "bv_state \<Rightarrow> bv_state \<times> bv_pending list" where
  "handlePut s =
     (if trim (bv_keyInput s) = [] then (s\<lparr>bv_error := Some ''Key cannot be empty''\<rparr>, [])
      else (s\<lparr>bv_error := None\<rparr>, [Bv_putting s (put_call s)]))"

definition handlePut_done :: "bv_state \<Rightarrow> unit outcome \<Rightarrow> bv_state \<Rightarrow> bv_state \<times> bv_pending list" where
  "handlePut_done c r s =
     (case r of
        Inl e \<Rightarrow> (s\<lparr>bv_error := Some (or_str (message e) ''Failed to put key-value'')\<rparr>, [])
      | Inr _ \<Rightarrow>
          (case loadEntries c (s\<lparr>bv_isModalOpen := False, bv_keyInput := [], bv_valInput := [], bv_ttlInput := []\<rparr>) of
             (s', ps) \<Rightarrow> (s', ps @ [Bv_onRefreshCatalog])))"

definition bv_handleDelete :: "string \<Rightarrow> bool \<Rightarrow> bv_state \<Rightarrow> bv_state \<times> bv_pending list" where
  "bv_handleDelete k confirmed s =
     (if \<not> confirmed then (s, []) else (s, [Bv_deleting s (deleteKV (bv_selectedBucket s) k)]))"

definition bv_handleDelete_done :: "bv_state \<Rightarrow> unit outcome \<Rightarrow> bv_state \<Rightarrow> bv_state \<times> bv_pending list" where
  "bv_handleDelete_done c r s =
     (case r of
        Inl e \<Rightarrow> (s\<lparr>bv_error := Some (or_str (message e) ''Failed to delete key'')\<rparr>, [])
      | Inr _ \<Rightarrow> loadEntries c s)"

definition handleIncrement :: "string \<Rightarrow> jsnum \<Rightarrow> bv_state \<Rightarrow> bv_state \<times> bv_pending list" where
  "handleIncrement k delta s = (s, [Bv_incrementing s (incrementKV (bv_selectedBucket s) k delta)])"

definition handleIncrement_done :: "bv_state \<Rightarrow> unit outcome \<Rightarrow> bv_state \<Rightarrow> bv_state \<times> bv_pending list" where
  "handleIncrement_done c r s =
     (case r of
        Inl e \<Rightarrow> (s\<lparr>bv_error := Some (or_str (message e) ''Increment failed (is value an 8-byte integer?)'')\<rparr>, [])
      | Inr _ \<Rightarrow> loadEntries c s)"

text \<open>The effect on \<open>[buckets, selectedBucket]\<close> and, after the render it causes, the one on \<open>[selectedBucket]\<close>.\<close>

definition bv_autoselect :: "bv_state \<Rightarrow> bv_state" where
  "bv_autoselect s =
     (if bv_buckets s \<noteq> [] \<and> bv_selectedBucket s = [] then s\<lparr>bv_selectedBucket := co_name (hd (bv_buckets s))\<rparr> else s)"

definition bv_commit :: "bv_state \<Rightarrow> bv_state \<times> bv_pending list \<Rightarrow> bv_state \<times> bv_pending list" where
  "bv_commit old res =
     (let (s0, ps) = res; s = bv_autoselect s0
      in if bv_selectedBucket s \<noteq> bv_selectedBucket old \<and> bv_selectedBucket s \<noteq> []
         then (case loadEntries s s of (s', ps') \<Rightarrow> (s', ps @ ps'))
         else (s, ps))"

fun bv_act :: "bv_event \<Rightarrow> bv_state \<Rightarrow> bv_state \<times> bv_pending list" where
  "bv_act (Bv_catalog cat) s = (s\<lparr>bv_buckets := or_list (Option.bind cat cat_buckets)\<rparr>, [])"
| "bv_act (Bv_select name) s = (s\<lparr>bv_selectedBucket := name\<rparr>, [])"
| "bv_act (Bv_setPrefix v) s = (s\<lparr>bv_prefix := v\<rparr>, [])"
| "bv_act Bv_scanClick s = loadEntries s s"
| "bv_act Bv_openModal s = (s\<lparr>bv_keyInput := [], bv_valInput := [], bv_ttlInput := [], bv_isModalOpen := True\<rparr>, [])"
| "bv_act Bv_closeModal s = (s\<lparr>bv_isModalOpen := False\<rparr>, [])"
| "bv_act (Bv_setKey v) s = (s\<lparr>bv_keyInput := v\<rparr>, [])"
| "bv_act (Bv_setVal v) s = (s\<lparr>bv_valInput := v\<rparr>, [])"
| "bv_act (Bv_setTtl v) s = (s\<lparr>bv_ttlInput := v\<rparr>, [])"
| "bv_act Bv_put s = handlePut s"
| "bv_act (Bv_increment k) s = handleIncrement k (Fin 1) s"
| "bv_act (Bv_delete k b) s = bv_handleDelete k b s"

definition bv_handle :: "bv_event \<Rightarrow> bv_state \<Rightarrow> bv_state \<times> bv_pending list" where
  "bv_handle e s = bv_commit s (bv_act e s)"

fun bv_resume :: "bv_pending \<Rightarrow> bv_reply \<Rightarrow> bv_state \<Rightarrow> bv_state \<times> bv_pending list" where
  "bv_resume (Bv_scan _ _) (Bv_entries r) s = (loadEntries_done r s, [])"
| "bv_resume (Bv_putting c _) (Bv_ack r) s = handlePut_done c r s"
| "bv_resume (Bv_deleting c _) (Bv_ack r) s = bv_handleDelete_done c r s"
| "bv_resume (Bv_incrementing c _) (Bv_ack r) s = handleIncrement_done c r s"
| "bv_resume _ _ s = (s, [])"

section \<open>Rendering\<close>

definition bv_header :: "bv_state \<Rightarrow> bv_event node" where
  "bv_header s =
     El ''div'' []
       ([El ''div'' []
          [El ''h1'' [] [El ''Database'' [] [], El ''span'' [] [Txt ''Key/Value Buckets'']],
           El ''p'' [] [Txt ''Ordered B+Tree transactional key/value store with TTL and atomic operations'']]] @
        (if bv_selectedBucket s \<noteq> []
         then [El ''button'' [OnClick Bv_openModal] [El ''Plus'' [] [], El ''span'' [] [Txt ''Put Key/Value'']]] else []))"

definition bv_tabs :: "bv_state \<Rightarrow> bv_event node" where
  "bv_tabs s =
     El ''div'' []
       (if bv_buckets s = [] then [El ''span'' [] [Txt ''No buckets found'']]
        else map (\<lambda>b. El ''button''
               [OnClick (Bv_select (co_name b)),
                Attr ''className'' (if bv_selectedBucket s = co_name b then ''active'' else ''inactive'')]
               [Txt (co_name b)]) (bv_buckets s))"

definition bv_prefixBar :: "bv_state \<Rightarrow> bv_event node" where
  "bv_prefixBar s =
     El ''div'' []
       [El ''div'' [] [El ''Search'' [] [], El ''span'' [] [Txt ''Prefix Scan:'']],
        El ''input'' [Attr ''type'' ''text'', Attr ''placeholder'' ''Filter by key prefix (e.g. user:, session:)'',
          Attr ''value'' (bv_prefix s), OnChange Bv_setPrefix] [],
        El ''button'' [OnClick Bv_scanClick] [Txt ''Scan'']]"

definition bv_row :: "KVEntry \<Rightarrow> bv_event node" where
  "bv_row e =
     El ''tr'' []
       [El ''td'' [] [Txt (kv_key e)], El ''td'' [] [Txt (kv_value e)],
        El ''td'' [] [Txt (int_to_string (kv_size e) @ '' B'')],
        El ''td'' []
          [El ''button'' [OnClick (Bv_increment (kv_key e)), Attr ''title'' ''Atomic Increment (+1)''] [Txt ''+1''],
           El ''button'' [OnClick (Bv_delete (kv_key e) True), OnClick (Bv_delete (kv_key e) False), Attr ''title'' ''Delete Key'']
             [El ''Trash2'' [] []]]]"

definition bv_table :: "bv_state \<Rightarrow> bv_event node" where
  "bv_table s =
     El ''div'' []
       [El ''div'' []
          [El ''span'' [] [Txt (nat_to_string (length (bv_entries s)) @ '' Keys Found'')],
           El ''span'' [] [Txt ''B+Tree Lexicographical Order'']],
        El ''div'' []
          [El ''table'' []
             [El ''thead'' []
                [El ''tr'' [] [El ''th'' [] [Txt ''Key''], El ''th'' [] [Txt ''Value''], El ''th'' [] [Txt ''Size''],
                   El ''th'' [] [Txt ''Actions'']]],
              El ''tbody'' []
                (if bv_loading s then [El ''tr'' [] [El ''td'' [Attr ''colSpan'' ''4''] [Txt ''Scanning bucket B+Tree...'']]]
                 else if bv_entries s = [] then [El ''tr'' [] [El ''td'' [Attr ''colSpan'' ''4''] [Txt ''Bucket is empty.'']]]
                 else map bv_row (bv_entries s))]]]"

definition bv_modal :: "bv_state \<Rightarrow> bv_event node list" where
  "bv_modal s =
     (if \<not> bv_isModalOpen s then []
      else
        [El ''div'' []
           [El ''div'' []
              [El ''div'' [] [El ''h3'' [] [Txt ''Put Key/Value''], El ''button'' [OnClick Bv_closeModal] [Txt ''Cancel'']],
               El ''div'' []
                 [El ''div'' [] [El ''label'' [] [Txt ''Key''],
                    El ''input'' [Attr ''type'' ''text'', Attr ''placeholder'' ''e.g. user:1001'', Attr ''value'' (bv_keyInput s),
                      OnChange Bv_setKey] []],
                  El ''div'' [] [El ''label'' [] [Txt ''Value''],
                    El ''textarea'' [Attr ''placeholder'' ''String, JSON, or payload'', Attr ''value'' (bv_valInput s),
                      OnChange Bv_setVal, Attr ''rows'' ''4''] []],
                  El ''div'' [] [El ''label'' [] [El ''Clock'' [] [], El ''span'' [] [Txt ''Optional TTL (Seconds)'']],
                    El ''input'' [Attr ''type'' ''number'', Attr ''placeholder'' ''e.g. 60 (expires in 60s)'',
                      Attr ''value'' (bv_ttlInput s), OnChange Bv_setTtl] []]],
               El ''div'' []
                 [El ''button'' [OnClick Bv_closeModal] [Txt ''Cancel''],
                  El ''button'' [OnClick Bv_put] [Txt ''Save Key'']]]]])"

definition bv_render :: "bv_state \<Rightarrow> bv_event node" where
  "bv_render s =
     El ''div'' []
       ([bv_header s, bv_tabs s, bv_prefixBar s] @ error_banner (bv_error s) @ [bv_table s] @ bv_modal s)"

definition bv_can :: "bv_state \<Rightarrow> bv_event \<Rightarrow> bool" where
  "bv_can s e = (user_can (bv_render s) e \<or> (\<exists>cat. e = Bv_catalog cat))"

abbreviation bv_reach :: "bv_state \<times> bv_pending list \<Rightarrow> bool" where
  "bv_reach \<equiv> view_reach (bv_init, []) bv_can bv_handle bv_fit bv_resume"

section \<open>What the browser sends\<close>

fun bv_call :: "bv_pending \<Rightarrow> api_call option" where
  "bv_call (Bv_scan b p) = Some (scanBucket b p (Fin 100))"
| "bv_call (Bv_putting _ c) = Some c"
| "bv_call (Bv_deleting _ c) = Some c"
| "bv_call (Bv_incrementing _ c) = Some c"
| "bv_call Bv_onRefreshCatalog = None"

lemma bv_autoselect_idem [simp]: "bv_autoselect (bv_autoselect s) = bv_autoselect s"
  by (simp add: bv_autoselect_def)

lemma bv_autoselect_fixed:
  "bv_autoselect s = s \<longleftrightarrow> (bv_buckets s = [] \<or> bv_selectedBucket s \<noteq> [] \<or> co_name (hd (bv_buckets s)) = [])"
proof -
  have upd: "s\<lparr>bv_selectedBucket := n\<rparr> = s \<longleftrightarrow> bv_selectedBucket s = n" for n
    by (cases s) auto
  show ?thesis unfolding bv_autoselect_def by (simp add: upd) metis
qed

lemma loadEntries_keeps [simp]:
  "bv_selectedBucket (fst (loadEntries c s)) = bv_selectedBucket s" "bv_buckets (fst (loadEntries c s)) = bv_buckets s"
  by (simp_all add: loadEntries_def)

lemma bv_commit_fixed: "bv_autoselect (fst (bv_commit old res)) = fst (bv_commit old res)"
  by (auto simp: bv_commit_def bv_autoselect_fixed Let_def case_prod_beta) (auto simp: bv_autoselect_def split: if_splits)

lemma bv_resume_keeps:
  "bv_selectedBucket (fst (bv_resume p r s)) = bv_selectedBucket s" "bv_buckets (fst (bv_resume p r s)) = bv_buckets s"
  by (cases "(p, r, s)" rule: bv_resume.cases;
      simp add: loadEntries_done_def handlePut_done_def bv_handleDelete_done_def handleIncrement_done_def
        case_prod_beta split: sum.splits)+

interpretation bv: view_invariant "(bv_init, [])" bv_can bv_handle bv_fit bv_resume "\<lambda>s q. bv_autoselect s = s"
proof unfold_locales
  show "bv_autoselect (fst (bv_init, [])) = fst (bv_init, [])" by (simp add: bv_autoselect_fixed bv_init_def)
next
  show "bv_autoselect (fst (bv_handle e s)) = fst (bv_handle e s)" for s e by (simp add: bv_handle_def bv_commit_fixed)
next
  fix s p r
  assume "bv_autoselect s = s"
  then show "bv_autoselect (fst (bv_resume p r s)) = fst (bv_resume p r s)"
    by (simp add: bv_autoselect_fixed bv_resume_keeps)
qed

fun bv_weight :: "bv_pending \<Rightarrow> nat" where
  "bv_weight (Bv_putting _ _) = 3"
| "bv_weight (Bv_deleting _ _) = 2"
| "bv_weight (Bv_incrementing _ _) = 2"
| "bv_weight _ = 1"

interpretation bv_drain: drains bv_fit bv_resume bv_weight
proof unfold_locales
  show "bv_fit p r \<Longrightarrow> sum_list (map bv_weight (snd (bv_resume p r s))) < bv_weight p" for p r s
    by (cases "(p, r)" rule: bv_fit.cases)
      (auto simp: handlePut_done_def bv_handleDelete_done_def handleIncrement_done_def loadEntries_def split: sum.splits)
  show "\<exists>r. bv_fit p r" for p by (cases p) (metis bv_fit.simps)+
qed

lemma bv_commit_buckets [simp]: "bv_buckets (fst (bv_commit old res)) = bv_buckets (fst res)"
  by (cases res) (simp add: bv_commit_def bv_autoselect_def Let_def case_prod_beta)

lemma bv_no_catalog: "\<not> user_can (bv_render s) (Bv_catalog cat)"
  by (auto simp: bv_render_def bv_header_def bv_tabs_def bv_prefixBar_def bv_table_def bv_row_def bv_modal_def error_banner_def Let_def split: option.splits if_splits)

lemma bv_act_buckets: "e \<notin> range Bv_catalog \<Longrightarrow> bv_buckets (fst (bv_act e s)) = bv_buckets s"
  by (cases e) (simp_all add: handlePut_def handleIncrement_def bv_handleDelete_def Let_def)

interpretation bv_prop: prop_view "\<lambda>s. user_can (bv_render s)" bv_handle bv_resume Bv_catalog
  "\<lambda>cat. or_list (Option.bind cat cat_buckets)" bv_buckets
proof unfold_locales
  show "user_can (bv_render s) e \<Longrightarrow> bv_buckets (fst (bv_handle e s)) = bv_buckets s" for s e
    using bv_no_catalog bv_act_buckets [of e s] by (auto simp: bv_handle_def)
qed (simp_all add: bv_handle_def bv_resume_keeps)

interpretation bv_flag: backed_flag "(bv_init, [])" bv_can bv_handle bv_fit bv_resume bv_loading
  "\<lambda>p. case p of Bv_scan _ _ \<Rightarrow> True | _ \<Rightarrow> False"
proof unfold_locales
  fix s e
  assume "bv_loading (fst (bv_handle e s))"
  then show "bv_loading s \<or> tracked_count (\<lambda>p. case p of Bv_scan _ _ \<Rightarrow> True | _ \<Rightarrow> False) (snd (bv_handle e s)) \<noteq> 0"
    by (cases e) (auto simp: bv_handle_def bv_commit_def bv_autoselect_def loadEntries_def handlePut_def handleIncrement_def
        bv_handleDelete_def Let_def split: if_splits)
next
  fix s p r
  assume "bv_fit p r" and "case p of Bv_scan _ _ \<Rightarrow> True | _ \<Rightarrow> False" and "bv_loading (fst (bv_resume p r s))"
  then show "tracked_count (\<lambda>p. case p of Bv_scan _ _ \<Rightarrow> True | _ \<Rightarrow> False) (snd (bv_resume p r s)) \<noteq> 0"
    by (cases "(p, r)" rule: bv_fit.cases) (auto simp: loadEntries_done_def split: sum.splits)
next
  fix s p r
  assume "bv_fit p r" and "\<not> (case p of Bv_scan _ _ \<Rightarrow> True | _ \<Rightarrow> False)" and "bv_loading (fst (bv_resume p r s))"
  then show "bv_loading s \<or> tracked_count (\<lambda>p. case p of Bv_scan _ _ \<Rightarrow> True | _ \<Rightarrow> False) (snd (bv_resume p r s)) \<noteq> 0"
    by (cases "(p, r)" rule: bv_fit.cases)
      (auto simp: handlePut_done_def bv_handleDelete_done_def handleIncrement_done_def loadEntries_def
        split: sum.splits if_splits)
qed (simp add: bv_init_def)

lemma bv_commit_settled:
  assumes "bv_selectedBucket s' = bv_selectedBucket s" and "bv_autoselect s' = s'"
  shows "bv_commit s (s', ps) = (s', ps)"
  using assms by (simp add: bv_commit_def)

text \<open>
  C25.  Everything an event of the browser sends to the server is addressed to the bucket that is
  selected after the event; a key of white space only is refused before anything is sent.
\<close>

theorem bv_events_address_selection:
  assumes "bv_reach (s, q)" and "p \<in> set (snd (bv_handle e s))" and "bv_call p = Some call"
  shows "(\<exists>action params. call_target call = Some (''kv'', bv_selectedBucket (fst (bv_handle e s)), action, params))
     \<and> (\<forall>b k v ttl. call = putKV b k v ttl \<longrightarrow> trim k \<noteq> [])"
proof -
  have fx: "bv_autoselect s = s" using bv.reach_inv [OF assms(1)] by simp
  note settled = bv_commit_settled [of _ s] bv_autoselect_fixed
  note defs = bv_handle_def loadEntries_def handlePut_def put_call_def handleIncrement_def bv_handleDelete_def
  consider (still) "e = Bv_put \<or> (\<exists>k. e = Bv_increment k) \<or> (\<exists>k b. e = Bv_delete k b) \<or> e = Bv_scanClick"
    | (other) "snd (bv_act e s) = []"
    by (cases e) auto
  then show ?thesis
  proof cases
    case still
    then show ?thesis using assms(2,3) fx by (auto simp: defs settled split: if_splits)
  next
    case other
    then show ?thesis
      using assms(2,3) by (auto simp: bv_handle_def bv_commit_def loadEntries_def Let_def case_prod_beta split: if_splits)
  qed
qed

definition ex_buckets :: CatalogData where
  "ex_buckets = \<lparr>cat_buckets = Some [ex_object ''a'', ex_object ''b''], cat_collections = Some [], cat_queues = Some []\<rparr>"

definition ex_scan :: "bv_state \<times> bv_pending list" where
  "ex_scan = do_event bv_handle (Bv_catalog (Some ex_buckets)) (bv_init, [])"

theorem bv_events_address_selection_witness:
  "\<exists>action params. call_target (scanBucket ''a'' [] (Fin 100)) =
     Some (''kv'', bv_selectedBucket (fst (bv_handle (Bv_catalog (Some ex_buckets)) bv_init)), action, params)"
  by (rule bv_events_address_selection [OF view_reach.mount, where p = "Bv_scan ''a'' []", THEN conjunct1]) (code_simp, simp)

text \<open>
  Two scans, answered in the opposite order.
\<close>

definition ex_entry :: "string \<Rightarrow> KVEntry" where
  "ex_entry k = \<lparr>kv_key = k, kv_value = ''v'', kv_size = 1, kv_is_json = None\<rparr>"

definition ex_both :: "bv_state \<times> bv_pending list" where
  "ex_both = do_event bv_handle (Bv_select ''b'') ex_scan"

definition ex_overtaken :: "bv_state \<times> bv_pending list" where
  "ex_overtaken = do_reply bv_resume 1 (Bv_entries (Inr (Some [ex_entry ''key-of-b'']))) ex_both"

definition ex_crossed :: "bv_state \<times> bv_pending list" where
  "ex_crossed = do_reply bv_resume 0 (Bv_entries (Inr (Some [ex_entry ''key-of-a'']))) ex_overtaken"

lemma ex_both_reach: "bv_reach ex_both"
proof -
  have "bv_reach ex_scan"
    unfolding ex_scan_def by (rule reach_do_event [OF view_reach.mount]) (simp add: bv_can_def)
  moreover have "Bv_select ''b'' \<in> set (clicks (bv_render (fst ex_scan)))" by code_simp
  ultimately show ?thesis
    unfolding ex_both_def by (intro reach_do_event) (simp_all add: bv_can_def user_can_def)
qed

lemma ex_crossed_reach: "bv_reach ex_crossed"
proof -
  have len: "length (snd ex_both) = 2" "bv_fit (snd ex_both ! Suc 0) (Bv_entries (Inr (Some [ex_entry ''key-of-b''])))"
    by code_simp+
  then have r: "bv_reach ex_overtaken"
    unfolding ex_overtaken_def by (intro reach_do_reply [OF ex_both_reach]) simp_all
  have one: "snd ex_overtaken = [Bv_scan ''a'' []]"
    by code_simp
  show ?thesis
    unfolding ex_crossed_def by (rule reach_do_reply [OF r]) (simp_all add: one)
qed

text \<open>
  C37.  The browser takes the replies of its scans in the order they arrive: there is a run at
  whose end nothing is in flight, the second bucket is selected, and the table lists the keys of
  the first.
\<close>

theorem bv_crossed_scans_show_other_bucket:
  "\<exists>s. bv_reach (s, []) \<and> \<not> bv_loading s \<and> bv_selectedBucket s = ''b'' \<and> map kv_key (bv_entries s) = [''key-of-a'']"
proof -
  have end_state: "snd ex_crossed = []" "bv_loading (fst ex_crossed) = False" "bv_selectedBucket (fst ex_crossed) = ''b''"
    "map kv_key (bv_entries (fst ex_crossed)) = [''key-of-a'']"
    by code_simp+
  have "bv_reach (fst ex_crossed, [])"
    by (rule reach_pair [OF ex_crossed_reach end_state(1)])
  with end_state(2-4) show ?thesis by (intro exI [of _ "fst ex_crossed"]) simp
qed

text \<open>
  The \<open>Scanning bucket B+Tree...\<close> row is never shown for good: in every run it is
  shown only while a scan is still to be answered.
\<close>

theorem bv_loading_has_scan:
  assumes "bv_reach (s, q)" and "bv_loading s"
  shows "\<exists>b p. Bv_scan b p \<in> set q"
proof -
  obtain x where "x \<in> set q" "case x of Bv_scan _ _ \<Rightarrow> True | _ \<Rightarrow> False"
    using bv_flag.busy_backed [OF assms(1)] assms(2) by auto
  then show ?thesis by (auto split: bv_pending.split_asm)
qed

theorem bv_loading_has_scan_witness:
  "\<exists>b p. Bv_scan b p \<in> set (snd ex_both)"
proof -
  have "bv_reach (fst ex_both, snd ex_both)" using ex_both_reach by simp
  moreover have "bv_loading (fst ex_both)" by code_simp
  ultimately show ?thesis by (rule bv_loading_has_scan)
qed

text \<open>
  After a put that the server accepted, the form is closed and emptied, and the bucket of the form
  is scanned again; after one it refused, the form keeps what the user typed and the reason is
  shown.
\<close>

theorem handlePut_done_outcome:
  assumes "bv_selectedBucket c \<noteq> []"
  shows "(case r of
      Inr _ \<Rightarrow> \<not> bv_isModalOpen (fst (handlePut_done c r s)) \<and> bv_keyInput (fst (handlePut_done c r s)) = []
        \<and> bv_valInput (fst (handlePut_done c r s)) = [] \<and> bv_ttlInput (fst (handlePut_done c r s)) = []
        \<and> snd (handlePut_done c r s) = [Bv_scan (bv_selectedBucket c) (bv_prefix c), Bv_onRefreshCatalog]
    | Inl e \<Rightarrow> bv_isModalOpen (fst (handlePut_done c r s)) = bv_isModalOpen s
        \<and> bv_keyInput (fst (handlePut_done c r s)) = bv_keyInput s \<and> bv_valInput (fst (handlePut_done c r s)) = bv_valInput s
        \<and> snd (handlePut_done c r s) = [] \<and> (\<exists>m. m \<noteq> [] \<and> bv_error (fst (handlePut_done c r s)) = Some m))"
proof (cases r)
  case (Inl e)
  have "or_str (message e) ''Failed to put key-value'' \<noteq> []" by (rule or_str_nonempty) simp
  with Inl show ?thesis by (simp add: handlePut_done_def)
next
  case (Inr u)
  then show ?thesis using assms by (simp add: handlePut_done_def loadEntries_def)
qed

theorem handlePut_done_outcome_witness:
  "snd (handlePut_done (fst ex_scan) (Inr ()) (fst ex_scan)) = [Bv_scan ''a'' [], Bv_onRefreshCatalog]"
proof -
  have f: "bv_selectedBucket (fst ex_scan) = ''a''" "bv_prefix (fst ex_scan) = []" by code_simp+
  then have "bv_selectedBucket (fst ex_scan) \<noteq> []" by simp
  from handlePut_done_outcome [OF this, of "Inr ()" "fst ex_scan"] f show ?thesis by simp
qed

end
