(* ===== verification/Maintenance_View.thy ===== *)
theory Maintenance_View
  imports Query_Console
begin

text \<open>
  The maintenance page of the Studio (\<open>studio/frontend/src/views/MaintenanceView.tsx\<close>):
  integrity check, WAL checkpoint and backup, each with a flag of its own.
\<close>

record mv_state =
  mv_report :: "IntegrityReport option"
  mv_loadingCheck :: bool
  mv_loadingCheckpoint :: bool
  mv_loadingBackup :: bool
  mv_statusMsg :: "string option"
  mv_error :: "string option"

definition mv_init :: mv_state where
  "mv_init = \<lparr>mv_report = None, mv_loadingCheck = False, mv_loadingCheckpoint = False, mv_loadingBackup = False,
     mv_statusMsg = None, mv_error = None\<rparr>"

datatype mv_event = Mv_runCheck | Mv_checkpoint | Mv_backup

datatype mv_pending = Mv_checking | Mv_checkpointing | Mv_backingUp

datatype mv_reply =
    Mv_report "IntegrityReport outcome"
  | Mv_lsn "int outcome"
  | Mv_path "string outcome"

fun mv_fit :: "mv_pending \<Rightarrow> mv_reply \<Rightarrow> bool" where
  "mv_fit Mv_checking (Mv_report _) = True"
| "mv_fit Mv_checkpointing (Mv_lsn _) = True"
| "mv_fit Mv_backingUp (Mv_path _) = True"
| "mv_fit _ _ = False"

fun mv_call :: "mv_pending \<Rightarrow> api_call" where
  "mv_call Mv_checking = checkIntegrity"
| "mv_call Mv_checkpointing = checkpointWAL"
| "mv_call Mv_backingUp = triggerBackup None"

definition mv_clear :: "mv_state \<Rightarrow> mv_state" where
  "mv_clear s = s\<lparr>mv_error := None, mv_statusMsg := None\<rparr>"

definition handleRunCheck :: "mv_state \<Rightarrow> mv_state \<times> mv_pending list" where
  "handleRunCheck s = ((mv_clear s)\<lparr>mv_loadingCheck := True\<rparr>, [Mv_checking])"

definition handleRunCheck_done :: "IntegrityReport outcome \<Rightarrow> mv_state \<Rightarrow> mv_state" where
  "handleRunCheck_done r s =
     (case r of
        Inr res \<Rightarrow> s\<lparr>mv_report := Some \<lparr>ir_valid = ir_valid res, ir_pages_checked = ir_pages_checked res,
                                       ir_errors = Some (or_list (ir_errors res)), ir_warnings = Some (or_list (ir_warnings res))\<rparr>,
                      mv_loadingCheck := False\<rparr>
      | Inl e \<Rightarrow> s\<lparr>mv_error := Some (or_str (message e) ''Integrity check failed''), mv_loadingCheck := False\<rparr>)"

definition handleCheckpoint :: "mv_state \<Rightarrow> mv_state \<times> mv_pending list" where
  "handleCheckpoint s = ((mv_clear s)\<lparr>mv_loadingCheckpoint := True\<rparr>, [Mv_checkpointing])"

definition handleCheckpoint_done :: "int outcome \<Rightarrow> mv_state \<Rightarrow> mv_state" where
  "handleCheckpoint_done r s =
     (case r of
        Inr lsn \<Rightarrow> s\<lparr>mv_statusMsg := Some (''WAL checkpoint completed successfully. LSN synced to #'' @ int_to_string lsn),
                     mv_loadingCheckpoint := False\<rparr>
      | Inl e \<Rightarrow> s\<lparr>mv_error := Some (or_str (message e) ''WAL Checkpoint failed''), mv_loadingCheckpoint := False\<rparr>)"

definition handleBackup :: "mv_state \<Rightarrow> mv_state \<times> mv_pending list" where
  "handleBackup s = ((mv_clear s)\<lparr>mv_loadingBackup := True\<rparr>, [Mv_backingUp])"

definition handleBackup_done :: "string outcome \<Rightarrow> mv_state \<Rightarrow> mv_state" where
  "handleBackup_done r s =
     (case r of
        Inr path \<Rightarrow> s\<lparr>mv_statusMsg := Some (''Snapshot backup saved to: '' @ path), mv_loadingBackup := False\<rparr>
      | Inl e \<Rightarrow> s\<lparr>mv_error := Some (or_str (message e) ''Backup failed''), mv_loadingBackup := False\<rparr>)"

fun mv_handle :: "mv_event \<Rightarrow> mv_state \<Rightarrow> mv_state \<times> mv_pending list" where
  "mv_handle Mv_runCheck s = handleRunCheck s"
| "mv_handle Mv_checkpoint s = handleCheckpoint s"
| "mv_handle Mv_backup s = handleBackup s"

fun mv_resume :: "mv_pending \<Rightarrow> mv_reply \<Rightarrow> mv_state \<Rightarrow> mv_state \<times> mv_pending list" where
  "mv_resume Mv_checking (Mv_report r) s = (handleRunCheck_done r s, [])"
| "mv_resume Mv_checkpointing (Mv_lsn r) s = (handleCheckpoint_done r s, [])"
| "mv_resume Mv_backingUp (Mv_path r) s = (handleBackup_done r s, [])"
| "mv_resume _ _ s = (s, [])"

definition status_banner :: "string option \<Rightarrow> 'e node list" where
  "status_banner m =
     (case m of
        None \<Rightarrow> []
      | Some t \<Rightarrow> if t = [] then [] else [El ''div'' [] [El ''CheckCircle2'' [] [], El ''span'' [] [Txt t]]])"

definition mv_tools :: "mv_state \<Rightarrow> mv_event node" where
  "mv_tools s =
     El ''div'' []
       [El ''div'' []
          [El ''div'' [] [El ''div'' [] [El ''FileCheck2'' [] []], El ''h2'' [] [Txt ''Kernel Integrity Check''],
             El ''p'' [] [Txt (''Scans all allocated slotted pages, checks CRC32C Castagnoli hardware checksums, validates B+Tree '' @
               ''pointers, and ensures record directory consistency.'')]],
           El ''button'' [OnClick Mv_runCheck, Disabled (mv_loadingCheck s)]
             [El ''RefreshCw'' [Attr ''className'' (if mv_loadingCheck s then ''animate-spin'' else [])] [],
              El ''span'' [] [Txt (if mv_loadingCheck s then ''Verifying...'' else ''Run Integrity Check'')]]],
        El ''div'' []
          [El ''div'' [] [El ''div'' [] [El ''Zap'' [] []], El ''h2'' [] [Txt ''Force WAL Checkpoint''],
             El ''p'' [] [Txt (''Synchronously flushes all dirty pages from the 16-partition LRU cache to disk, advances the '' @
               ''Meta LSN checkpoint watermark, and truncates the WAL file.'')]],
           El ''button'' [OnClick Mv_checkpoint, Disabled (mv_loadingCheckpoint s)]
             [El ''span'' [] [Txt (if mv_loadingCheckpoint s then ''Checkpointing...'' else ''Flush & Checkpoint'')]]],
        El ''div'' []
          [El ''div'' [] [El ''div'' [] [El ''Download'' [] []], El ''h2'' [] [Txt ''Point-In-Time Backup''],
             El ''p'' [] [Txt (''Creates a consistent, standalone copy of the single-file storage kernel while transactions '' @
               ''continue executing.'')]],
           El ''button'' [OnClick Mv_backup, Disabled (mv_loadingBackup s)]
             [El ''span'' [] [Txt (if mv_loadingBackup s then ''Copying...'' else ''Create Backup Snapshot'')]]]]"

definition tick :: string where
  "tick = [CHR 0xE2, CHR 0x9C, CHR 0x93]"

definition mv_findings :: "string \<Rightarrow> string list \<Rightarrow> mv_event node list" where
  "mv_findings title xs =
     (if xs = [] then []
      else [El ''div'' [] [El ''span'' [] [Txt title], El ''ul'' [] (map (\<lambda>x. El ''li'' [] [Txt x]) xs)]])"

definition mv_report_pane :: "mv_state \<Rightarrow> mv_event node list" where
  "mv_report_pane s =
     (case mv_report s of
        None \<Rightarrow> []
      | Some r \<Rightarrow>
          (let errors = or_list (ir_errors r); warnings = or_list (ir_warnings r)
           in [El ''div'' []
                 ([El ''div'' []
                    [El ''div'' []
                       [if ir_valid r then El ''CheckCircle2'' [] [] else El ''AlertTriangle'' [] [],
                        El ''h2'' [] [Txt (''Integrity Report: '' @
                          (if ir_valid r then ''All Structures Healthy'' else ''Corruption Detected''))]],
                     El ''span'' [] [Txt (int_to_string (ir_pages_checked r) @ '' Pages Validated'')]]] @
                  mv_findings ''Errors:'' errors @ mv_findings ''Warnings:'' warnings @
                  (if errors \<noteq> [] then []
                   else [El ''div'' []
                     [Txt (tick @ '' Meta A / Meta B generation headers valid.''), El ''br'' [] [],
                      Txt (tick @ '' All page checksums passed hardware CRC32C verification.''), El ''br'' [] [],
                      Txt (tick @ '' B+Tree internal and leaf nodes consistent.''), El ''br'' [] [],
                      Txt (tick @ '' Record directory version chains consistent.'')]]))]))"

definition mv_render :: "mv_state \<Rightarrow> mv_event node" where
  "mv_render s =
     El ''div'' []
       ([El ''div'' []
          [El ''h1'' [] [El ''ShieldCheck'' [] [], El ''span'' [] [Txt ''Integrity Verification & Storage Tools'']],
           El ''p'' [] [Txt ''Perform storage kernel integrity diagnostics, force WAL checkpoints, and create snapshots'']]] @
        status_banner (mv_statusMsg s) @ error_banner (mv_error s) @ [mv_tools s] @ mv_report_pane s)"

definition mv_can :: "mv_state \<Rightarrow> mv_event \<Rightarrow> bool" where
  "mv_can s e = user_can (mv_render s) e"

abbreviation mv_reach :: "mv_state \<times> mv_pending list \<Rightarrow> bool" where
  "mv_reach \<equiv> view_reach (mv_init, []) mv_can mv_handle mv_fit mv_resume"

lemma mv_inert [simp]:
  "c \<in> set (status_banner m) \<Longrightarrow> \<not> user_can c e" "d \<in> set (error_banner n) \<Longrightarrow> \<not> user_can d e'"
  "f \<in> set (mv_report_pane s) \<Longrightarrow> \<not> user_can f e''"
  by (auto simp: status_banner_def error_banner_def mv_report_pane_def mv_findings_def Let_def
      split: option.splits if_splits)

lemma mv_can_iff:
  "mv_can s Mv_runCheck \<longleftrightarrow> \<not> mv_loadingCheck s"
  "mv_can s Mv_checkpoint \<longleftrightarrow> \<not> mv_loadingCheckpoint s"
  "mv_can s Mv_backup \<longleftrightarrow> \<not> mv_loadingBackup s"
  by (auto simp: mv_can_def mv_render_def mv_tools_def has_button_def)

lemmas mv_defs =
  mv_init_def handleRunCheck_def handleCheckpoint_def handleBackup_def mv_clear_def handleRunCheck_done_def
  handleCheckpoint_done_def handleBackup_done_def

lemma mv_event_laws:
  assumes "mv_can s e"
  shows "(mv_loadingCheck (fst (mv_handle e s)) = mv_loadingCheck s \<and> tracked_count ((=) Mv_checking) (snd (mv_handle e s)) = 0)
      \<or> (\<not> mv_loadingCheck s \<and> mv_loadingCheck (fst (mv_handle e s)) \<and> tracked_count ((=) Mv_checking) (snd (mv_handle e s)) = 1)"
    "(mv_loadingCheckpoint (fst (mv_handle e s)) = mv_loadingCheckpoint s \<and> tracked_count ((=) Mv_checkpointing) (snd (mv_handle e s)) = 0)
      \<or> (\<not> mv_loadingCheckpoint s \<and> mv_loadingCheckpoint (fst (mv_handle e s)) \<and> tracked_count ((=) Mv_checkpointing) (snd (mv_handle e s)) = 1)"
    "(mv_loadingBackup (fst (mv_handle e s)) = mv_loadingBackup s \<and> tracked_count ((=) Mv_backingUp) (snd (mv_handle e s)) = 0)
      \<or> (\<not> mv_loadingBackup s \<and> mv_loadingBackup (fst (mv_handle e s)) \<and> tracked_count ((=) Mv_backingUp) (snd (mv_handle e s)) = 1)"
  using assms by (cases e; simp add: mv_can_iff mv_defs)+

lemma mv_reply_laws:
  assumes "mv_fit p r"
  shows "snd (mv_resume p r s) = []"
    "mv_loadingCheck (fst (mv_resume p r s)) = (p \<noteq> Mv_checking \<and> mv_loadingCheck s)"
    "mv_loadingCheckpoint (fst (mv_resume p r s)) = (p \<noteq> Mv_checkpointing \<and> mv_loadingCheckpoint s)"
    "mv_loadingBackup (fst (mv_resume p r s)) = (p \<noteq> Mv_backingUp \<and> mv_loadingBackup s)"
  using assms by (cases "(p, r)" rule: mv_fit.cases; simp add: mv_defs split: sum.splits)+

interpretation mv_drain: drains mv_fit mv_resume "\<lambda>_. 1 :: nat"
proof unfold_locales
  show "mv_fit p r \<Longrightarrow> sum_list (map (\<lambda>_. 1) (snd (mv_resume p r s))) < (1 :: nat)" for p r s
    by (cases "(p, r)" rule: mv_fit.cases) auto
  show "\<exists>r. mv_fit p r" for p by (cases p) (metis mv_fit.simps)+
qed

interpretation mv_check: single_flight "(mv_init, [])" mv_can mv_handle mv_fit mv_resume mv_loadingCheck "(=) Mv_checking"
  by unfold_locales (simp add: mv_init_def, rule mv_event_laws(1), assumption, simp_all add: mv_reply_laws)

interpretation mv_cp: single_flight "(mv_init, [])" mv_can mv_handle mv_fit mv_resume mv_loadingCheckpoint "(=) Mv_checkpointing"
  by unfold_locales (simp add: mv_init_def, rule mv_event_laws(2), assumption, simp_all add: mv_reply_laws)

interpretation mv_bk: single_flight "(mv_init, [])" mv_can mv_handle mv_fit mv_resume mv_loadingBackup "(=) Mv_backingUp"
  by unfold_locales (simp add: mv_init_def, rule mv_event_laws(3), assumption, simp_all add: mv_reply_laws)

text \<open>
  C23.  Each maintenance tool runs at most once at a time, and its own flag says whether it runs,
  whatever the other two do in between.
\<close>

theorem mv_tools_single_flight:
  assumes "mv_reach (s, q)"
  shows "count_list q Mv_checking = (if mv_loadingCheck s then 1 else 0)
     \<and> count_list q Mv_checkpointing = (if mv_loadingCheckpoint s then 1 else 0)
     \<and> count_list q Mv_backingUp = (if mv_loadingBackup s then 1 else 0)"
proof -
  have "tracked_count ((=) p) q = count_list q p" for p
    by (induction q) (auto simp: tracked_count_def)
  then show ?thesis
    using mv_check.flight_count [OF assms] mv_cp.flight_count [OF assms] mv_bk.flight_count [OF assms] by simp
qed

theorem mv_tools_single_flight_witness:
  "count_list (snd (do_event mv_handle Mv_backup (mv_init, []))) Mv_backingUp = 1"
proof -
  have "mv_reach (do_event mv_handle Mv_backup (mv_init, []))"
    by (rule reach_do_event [OF view_reach.mount]) (simp add: mv_can_iff mv_init_def)
  then have "mv_reach (fst (mv_handle Mv_backup mv_init), snd (mv_handle Mv_backup mv_init))"
    by (simp add: do_event_def case_prod_beta)
  from mv_tools_single_flight [OF this] show ?thesis by (simp add: do_event_def mv_defs)
qed


definition ex_report :: IntegrityReport where
  "ex_report = \<lparr>ir_valid = True, ir_pages_checked = 3, ir_errors = None, ir_warnings = None\<rparr>"


end
