(* ===== verification/Playgrounds.thy ===== *)
theory Playgrounds
  imports Query_Console
begin

text \<open>
  The vector and full-text playgrounds of the Studio
  (\<open>studio/frontend/src/views/VectorPlaygroundView.tsx\<close> and \<open>SearchPlaygroundView.tsx\<close>).
\<close>

section \<open>Vector search\<close>

record vp_state =
  vp_collections :: "CatalogObject list"
  vp_collection :: string
  vp_field :: string
  vp_metric :: string
  vp_k :: jsnum
  vp_vectorText :: string
  vp_results :: "VectorSearchResult list"
  vp_loading :: bool
  vp_error :: "string option"

definition vp_init :: "CatalogData option \<Rightarrow> vp_state" where
  "vp_init cat =
     (let cs = or_list (Option.bind cat cat_collections)
      in \<lparr>vp_collections = cs, vp_collection = first_name cs, vp_field = ''embedding'', vp_metric = ''cosine'',
          vp_k = Fin 5, vp_vectorText = [], vp_results = [], vp_loading = False, vp_error = None\<rparr>)"

datatype vp_event =
    Vp_catalog "CatalogData option"
  | Vp_setCollection string
  | Vp_setField string
  | Vp_setMetric string
  | Vp_setK string
  | Vp_setVectorText string
  | Vp_search

datatype vp_pending = Vp_run api_call

text \<open>
  The query vector: a JSON array when the text starts with a bracket, else the numbers of
  the comma-separated parts.  A text that starts with a bracket and parses is an array.
\<close>

definition parse_vector :: "string \<Rightarrow> json list outcome" where
  "parse_vector text =
     (if starts text ''['' then
        (case JSON_parse text of Inl e \<Rightarrow> Inl e | Inr (JArr vs) \<Rightarrow> Inr vs | Inr _ \<Rightarrow> Inr [])
      else Inr (map JNum (filter (\<lambda>n. \<not> isNaN n) (map (\<lambda>p. parseFloat (trim p)) (split_on (CHR '','') text)))))"

definition empty_vector_error :: js_error where
  "empty_vector_error = Js_error ''Please enter query vector coordinates (e.g. 0.1, 0.2, 0.3)''"

definition vector_call :: "vp_state \<Rightarrow> api_call outcome" where
  "vector_call s =
     (case parse_vector (vp_vectorText s) of
        Inl e \<Rightarrow> Inl e
      | Inr vec \<Rightarrow>
          if vec = [] then Inl empty_vector_error
          else Inr (searchVectors (vp_collection s) (vp_field s) vec (vp_k s) (vp_metric s)))"

definition vector_failed :: "js_error \<Rightarrow> vp_state \<Rightarrow> vp_state" where
  "vector_failed e s = s\<lparr>vp_error := Some (or_str (message e) ''Vector search failed''), vp_loading := False\<rparr>"

definition vector_handleSearch :: "vp_state \<Rightarrow> vp_state \<times> vp_pending list" where
  "vector_handleSearch s =
     (if vp_collection s = [] then (s\<lparr>vp_error := Some ''Please select a collection''\<rparr>, [])
      else (let s' = s\<lparr>vp_error := None, vp_loading := True\<rparr>
            in case vector_call s of
                 Inl e \<Rightarrow> (vector_failed e s', [])
               | Inr call \<Rightarrow> (s', [Vp_run call])))"

definition vector_done :: "VectorSearchResult list option outcome \<Rightarrow> vp_state \<Rightarrow> vp_state" where
  "vector_done r s =
     (case r of
        Inl e \<Rightarrow> vector_failed e s
      | Inr matches \<Rightarrow> s\<lparr>vp_results := or_list matches, vp_loading := False\<rparr>)"

fun vp_handle :: "vp_event \<Rightarrow> vp_state \<Rightarrow> vp_state \<times> vp_pending list" where
  "vp_handle (Vp_catalog cat) s = (s\<lparr>vp_collections := or_list (Option.bind cat cat_collections)\<rparr>, [])"
| "vp_handle (Vp_setCollection v) s = (s\<lparr>vp_collection := v\<rparr>, [])"
| "vp_handle (Vp_setField v) s = (s\<lparr>vp_field := v\<rparr>, [])"
| "vp_handle (Vp_setMetric v) s = (s\<lparr>vp_metric := v\<rparr>, [])"
| "vp_handle (Vp_setK v) s = (s\<lparr>vp_k := Number v\<rparr>, [])"
| "vp_handle (Vp_setVectorText v) s = (s\<lparr>vp_vectorText := v\<rparr>, [])"
| "vp_handle Vp_search s = vector_handleSearch s"

fun vp_resume :: "vp_pending \<Rightarrow> VectorSearchResult list option outcome \<Rightarrow> vp_state \<Rightarrow> vp_state \<times> vp_pending list" where
  "vp_resume (Vp_run _) r s = (vector_done r s, [])"

text \<open>A result card: rank, document, distance, similarity and the bar of at least five per cent.\<close>

definition result_id :: "string option \<Rightarrow> int \<Rightarrow> string" where
  "result_id doc_id i = (case doc_id of Some (c # cs) \<Rightarrow> c # cs | _ \<Rightarrow> CHR ''#'' # int_to_string i)"

definition bar_width :: "rat \<Rightarrow> rat" where
  "bar_width pct = max 5 pct"

definition json_preview :: "json option \<Rightarrow> 'e node list" where
  "json_preview d =
     (case d of Some j \<Rightarrow> if truthy (Some j) then [El ''pre'' [] [Txt (JSON_pretty j)]] else [] | None \<Rightarrow> [])"

definition vp_card :: "nat \<Rightarrow> VectorSearchResult \<Rightarrow> vp_event node" where
  "vp_card i m =
     El ''div'' []
       ([El ''div'' []
          [El ''div'' []
             [El ''span'' [] [Txt (nat_to_string (i + 1))],
              El ''span'' [] [Txt (''Doc ID: '' @ result_id (vs_doc_id m) (vs_id m))]],
           El ''div'' [] [Txt ''Dist: '', El ''span'' [] [Txt (toFixed 4 (vs_distance m))]]],
        El ''div'' []
          [El ''div'' [] [El ''span'' [] [Txt ''Similarity Score''], El ''span'' [] [Txt (toFixed 1 (vs_similarity_pct m) @ ''%'')]],
           El ''div'' []
             [El ''div'' [Attr ''width'' (num_to_string (Fin (bar_width (vs_similarity_pct m))) @ ''%'')] []]]] @
        json_preview (vs_document m))"

definition vp_controls :: "vp_state \<Rightarrow> vp_event node" where
  "vp_controls s =
     El ''div'' []
       [El ''h2'' [] [Txt ''Vector Query Config''],
        El ''div'' [] [El ''label'' [] [Txt ''Collection''],
          El ''select'' [Attr ''value'' (vp_collection s), OnChange Vp_setCollection] (collection_options (vp_collections s))],
        El ''div'' [] [El ''label'' [] [Txt ''Vector Field''],
          El ''input'' [Attr ''type'' ''text'', Attr ''value'' (vp_field s), OnChange Vp_setField,
            Attr ''placeholder'' ''e.g. embedding, vector''] []],
        El ''div'' [] [El ''label'' [] [Txt ''Distance Metric''],
          El ''select'' [Attr ''value'' (vp_metric s), OnChange Vp_setMetric]
            [El ''option'' [Attr ''value'' ''cosine''] [Txt ''Cosine Distance (1.0 - Similarity)''],
             El ''option'' [Attr ''value'' ''l2''] [Txt ''Euclidean Distance (L2 Norm)''],
             El ''option'' [Attr ''value'' ''dot''] [Txt ''Dot Product (Negative Inner Product)'']]],
        El ''div'' [] [El ''label'' [] [Txt (''Top-K Nearest Neighbors ('' @ num_to_string (vp_k s) @ '')'')],
          El ''input'' [Attr ''type'' ''range'', Attr ''min'' ''1'', Attr ''max'' ''50'', Attr ''value'' (num_to_string (vp_k s)),
            OnChange Vp_setK] []],
        El ''div'' [] [El ''label'' [] [Txt ''Query Vector Coordinates''],
          El ''textarea'' [Attr ''rows'' ''4'', Attr ''value'' (vp_vectorText s), OnChange Vp_setVectorText,
            Attr ''placeholder'' ''0.12, 0.45, 0.89, ...''] []],
        El ''button'' [OnClick Vp_search, Disabled (vp_loading s \<or> vp_collections s = [])]
          [El ''Search'' [] [], El ''span'' [] [Txt ''Search Nearest Vectors'']]]"

definition vp_results_pane :: "vp_state \<Rightarrow> vp_event node" where
  "vp_results_pane s =
     El ''div'' []
       (error_banner (vp_error s) @
        [El ''div'' []
           [El ''div'' []
              [El ''div'' [] [El ''Sparkles'' [] [], El ''span'' [] [Txt (''Top-'' @ num_to_string (vp_k s) @ '' Nearest Neighbors'')]],
               El ''span'' [] [Txt ''HNSW Graph Beam Search'']],
            El ''div'' []
              [if vp_loading s then El ''div'' [] [Txt ''Traversing HNSW layers...'']
               else if vp_results s = []
                 then El ''div'' [] [Txt ''Enter vector coordinates and click Search to view nearest matches.'']
               else El ''div'' [] (map (\<lambda>(i, m). vp_card i m) (enumerate 0 (vp_results s)))]]])"

definition vp_render :: "vp_state \<Rightarrow> vp_event node" where
  "vp_render s =
     El ''div'' []
       [El ''div'' []
          [El ''h1'' [] [El ''BrainCircuit'' [] [], El ''span'' [] [Txt ''Vector Search Playground'']],
           El ''p'' [] [Txt ''Perform high-dimensional approximate nearest neighbor (HNSW) similarity searches'']],
        El ''div'' [] [vp_controls s, vp_results_pane s]]"

definition vp_can :: "vp_state \<Rightarrow> vp_event \<Rightarrow> bool" where
  "vp_can s e = (user_can (vp_render s) e \<or> (\<exists>cat. e = Vp_catalog cat))"

abbreviation vp_reach :: "CatalogData option \<Rightarrow> vp_state \<times> vp_pending list \<Rightarrow> bool" where
  "vp_reach cat \<equiv> view_reach (vp_init cat, []) vp_can vp_handle (\<lambda>_ _. True) vp_resume"

lemma vp_card_inert [simp]: "\<not> user_can (vp_card i m) e"
  by (auto simp: vp_card_def json_preview_def split: option.splits if_splits)

lemma vp_can_search: "vp_can s Vp_search \<Longrightarrow> \<not> vp_loading s"
  by (auto simp: vp_can_def vp_render_def vp_controls_def vp_results_pane_def has_button_def split: if_splits)

interpretation vp_drain: drains "\<lambda>_ _. True" vp_resume "\<lambda>_. 1 :: nat"
proof unfold_locales
  show "sum_list (map (\<lambda>_. 1) (snd (vp_resume p r s))) < (1 :: nat)" for p r s by (cases p) simp
qed simp

interpretation vp_prop: prop_view "\<lambda>s. user_can (vp_render s)" vp_handle vp_resume Vp_catalog
  "\<lambda>cat. or_list (Option.bind cat cat_collections)" vp_collections
proof unfold_locales
  have "\<not> user_can (vp_render s) (Vp_catalog cat)" for s cat
    by (auto simp: vp_render_def vp_controls_def vp_results_pane_def split: if_splits)
  then show "user_can (vp_render s) e \<Longrightarrow> vp_collections (fst (vp_handle e s)) = vp_collections s" for s e
    by (cases e) (auto simp: vector_handleSearch_def vector_failed_def Let_def split: sum.splits)
  show "vp_collections (fst (vp_resume p r s)) = vp_collections s" for p r s
    by (cases p) (simp add: vector_done_def vector_failed_def split: sum.splits)
qed simp

interpretation vp: single_flight "(vp_init cat, [])" vp_can vp_handle "\<lambda>_ _. True" vp_resume vp_loading "\<lambda>_. True"
proof unfold_locales
  fix s e
  assume "vp_can s e"
  then show "(vp_loading (fst (vp_handle e s)) = vp_loading s \<and> tracked_count (\<lambda>_. True) (snd (vp_handle e s)) = 0)
      \<or> (\<not> vp_loading s \<and> vp_loading (fst (vp_handle e s)) \<and> tracked_count (\<lambda>_. True) (snd (vp_handle e s)) = 1)"
    using vp_can_search [of s]
    by (cases e) (auto simp: vector_handleSearch_def vector_failed_def Let_def split: sum.splits)
next
  fix s p r
  show "\<not> vp_loading (fst (vp_resume p r s)) \<and> tracked_count (\<lambda>_. True) (snd (vp_resume p r s)) = 0"
    by (cases p) (simp add: vector_done_def vector_failed_def split: sum.splits)
qed (simp_all add: vp_init_def Let_def)


definition ex_vector :: vp_state where
  "ex_vector = (vp_init (Some ex_catalog))\<lparr>vp_vectorText := ''1, x''\<rparr>"


text \<open>
  The vector playground never has two searches in flight.
\<close>

theorem vp_single_flight:
  assumes "vp_reach cat (s, q)"
  shows "length q = (if vp_loading s then 1 else 0)"
  using vp.flight_count [OF assms] by (simp add: tracked_count_def)

theorem vp_single_flight_witness:
  "length (snd (vp_init None, [] :: vp_pending list)) = (if vp_loading (fst (vp_init None, [] :: vp_pending list)) then 1 else 0)"
  by (rule vp_single_flight [of None]) (simp add: view_reach.mount)

section \<open>Full-text search\<close>

record sp_state =
  sp_collections :: "CatalogObject list"
  sp_collection :: string
  sp_field :: string
  sp_queryText :: string
  sp_k :: jsnum
  sp_results :: "TextSearchResult list"
  sp_loading :: bool
  sp_error :: "string option"

text \<open>The effect that keeps the selected collection among the listed ones.\<close>

definition sp_sync :: "sp_state \<Rightarrow> sp_state" where
  "sp_sync s =
     (if list_ex (\<lambda>c. co_name c = sp_collection s) (sp_collections s) then s
      else s\<lparr>sp_collection := first_name (sp_collections s)\<rparr>)"

definition sp_init :: "CatalogData option \<Rightarrow> sp_state" where
  "sp_init cat =
     sp_sync \<lparr>sp_collections = or_list (Option.bind cat cat_collections), sp_collection = [], sp_field = [],
       sp_queryText = [], sp_k = Fin 10, sp_results = [], sp_loading = False, sp_error = None\<rparr>"

datatype sp_event =
    Sp_catalog "CatalogData option"
  | Sp_setCollection string
  | Sp_setField string
  | Sp_setQueryText string
  | Sp_setK string
  | Sp_search

datatype sp_pending = Sp_run api_call

definition text_handleSearch :: "sp_state \<Rightarrow> sp_state \<times> sp_pending list" where
  "text_handleSearch s =
     (if sp_collection s = [] then (s\<lparr>sp_error := Some ''Please select a collection''\<rparr>, [])
      else if trim (sp_queryText s) = [] then (s\<lparr>sp_error := Some ''Please enter search keywords''\<rparr>, [])
      else (s\<lparr>sp_error := None, sp_loading := True\<rparr>,
            [Sp_run (searchFullText (sp_collection s) (sp_field s) (sp_queryText s) (sp_k s))]))"

definition text_done :: "TextSearchResult list option outcome \<Rightarrow> sp_state \<Rightarrow> sp_state" where
  "text_done r s =
     (case r of
        Inl e \<Rightarrow> s\<lparr>sp_error := Some (or_str (message e) ''Full-text search failed''), sp_loading := False\<rparr>
      | Inr results \<Rightarrow> s\<lparr>sp_results := or_list results, sp_loading := False\<rparr>)"

fun sp_act :: "sp_event \<Rightarrow> sp_state \<Rightarrow> sp_state \<times> sp_pending list" where
  "sp_act (Sp_catalog cat) s = (s\<lparr>sp_collections := or_list (Option.bind cat cat_collections)\<rparr>, [])"
| "sp_act (Sp_setCollection v) s = (s\<lparr>sp_collection := v\<rparr>, [])"
| "sp_act (Sp_setField v) s = (s\<lparr>sp_field := v\<rparr>, [])"
| "sp_act (Sp_setQueryText v) s = (s\<lparr>sp_queryText := v\<rparr>, [])"
| "sp_act (Sp_setK v) s = (s\<lparr>sp_k := Number v\<rparr>, [])"
| "sp_act Sp_search s = text_handleSearch s"

definition sp_handle :: "sp_event \<Rightarrow> sp_state \<Rightarrow> sp_state \<times> sp_pending list" where
  "sp_handle e s = (case sp_act e s of (s', ps) \<Rightarrow> (sp_sync s', ps))"

fun sp_resume :: "sp_pending \<Rightarrow> TextSearchResult list option outcome \<Rightarrow> sp_state \<Rightarrow> sp_state \<times> sp_pending list" where
  "sp_resume (Sp_run _) r s = (sp_sync (text_done r s), [])"

text \<open>
  The token preview: \<open>toLowerCase\<close>, \<open>split(/\W+/)\<close>, \<open>filter(Boolean)\<close>.  Of the characters
  outside ASCII, all of them separators, only the Kelvin sign and the dotted capital I have a
  lower case with an ASCII letter.
\<close>

definition is_word :: "char \<Rightarrow> bool" where
  "is_word c =
     (let n = of_char c :: nat
      in (48 \<le> n \<and> n \<le> 57) \<or> (65 \<le> n \<and> n \<le> 90) \<or> (97 \<le> n \<and> n \<le> 122) \<or> n = 95)"

definition lower_char :: "char \<Rightarrow> char" where
  "lower_char c = (let n = of_char c :: nat in if 65 \<le> n \<and> n \<le> 90 then char_of (n + 32) else c)"

fun to_lower :: "string \<Rightarrow> string" where
  "to_lower [] = []"
| "to_lower (c # r) =
     (if starts (c # r) [CHR 0xE2, CHR 0x84, CHR 0xAA] then CHR ''k'' # to_lower (drop 2 r)
      else if starts (c # r) [CHR 0xC4, CHR 0xB0] then CHR ''i'' # CHR 0xCC # CHR 0x87 # to_lower (drop 1 r)
      else lower_char c # to_lower r)"

fun word_runs :: "string \<Rightarrow> string list" where
  "word_runs [] = [[]]"
| "word_runs (c # r) =
     (if is_word c then (case word_runs r of [] \<Rightarrow> [[c]] | w # ws \<Rightarrow> (c # w) # ws) else [] # word_runs r)"

definition queryTokens :: "string \<Rightarrow> string list" where
  "queryTokens text = filter (\<lambda>w. w \<noteq> []) (word_runs (to_lower text))"

definition sp_card :: "nat \<Rightarrow> TextSearchResult \<Rightarrow> sp_event node" where
  "sp_card i r =
     El ''div'' []
       ([El ''div'' []
          [El ''div'' []
             [El ''span'' [] [Txt (nat_to_string (i + 1))],
              El ''span'' [] [Txt (''Doc ID: '' @ result_id (ts_doc_id r) (ts_record_id r))]],
           El ''span'' [] [Txt (''Score: '' @ toFixed 3 (ts_score r))]]] @
        json_preview (ts_document r))"

definition sp_tokens_pane :: "sp_state \<Rightarrow> sp_event node list" where
  "sp_tokens_pane s =
     (if queryTokens (sp_queryText s) = [] then []
      else [El ''div'' []
              [El ''label'' [] [Txt ''Parsed Token Terms:''],
               El ''div'' [] (map (\<lambda>t. El ''span'' [] [El ''Tag'' [] [], Txt t]) (queryTokens (sp_queryText s)))]])"

definition sp_controls :: "sp_state \<Rightarrow> sp_event node" where
  "sp_controls s =
     El ''div'' []
       ([El ''h2'' [] [Txt ''Search Query Config''],
         El ''div'' [] [El ''label'' [] [Txt ''Collection''],
           El ''select'' [Attr ''value'' (sp_collection s), OnChange Sp_setCollection] (collection_options (sp_collections s))],
         El ''div'' [] [El ''label'' [] [Txt ''Field '', El ''span'' [] [Txt ''(optional)'']],
           El ''input'' [Attr ''type'' ''text'', Attr ''value'' (sp_field s), OnChange Sp_setField,
             Attr ''placeholder'' ''All text fields (or e.g. content)''] []],
         El ''div'' [] [El ''label'' [] [Txt ''Search Keywords''],
           El ''input'' [Attr ''type'' ''text'', Attr ''value'' (sp_queryText s), OnChange Sp_setQueryText,
             Attr ''placeholder'' ''e.g. high performance database''] []]] @
        sp_tokens_pane s @
        [El ''div'' [] [El ''label'' [] [Txt (''Max Results ('' @ num_to_string (sp_k s) @ '')'')],
           El ''input'' [Attr ''type'' ''range'', Attr ''min'' ''1'', Attr ''max'' ''30'', Attr ''value'' (num_to_string (sp_k s)),
             OnChange Sp_setK] []],
         El ''button'' [OnClick Sp_search, Disabled (sp_loading s \<or> sp_collections s = [])]
           [El ''Search'' [] [], El ''span'' [] [Txt ''Execute BM25 Query'']]])"

definition sp_results_pane :: "sp_state \<Rightarrow> sp_event node" where
  "sp_results_pane s =
     El ''div'' []
       (error_banner (sp_error s) @
        [El ''div'' []
           [El ''div'' []
              [El ''div'' [] [El ''Sparkles'' [] [],
                 El ''span'' [] [Txt (''Ranked Search Results ('' @ nat_to_string (length (sp_results s)) @ '')'')]],
               El ''span'' [] [Txt (''k1=1.2 '' @ [CHR 0xC2, CHR 0xB7] @ '' b=0.75 '' @ [CHR 0xC2, CHR 0xB7] @ '' IDF Weighted'')]],
            El ''div'' []
              [if sp_loading s then El ''div'' [] [Txt ''Scanning inverted index postings...'']
               else if sp_results s = []
                 then El ''div'' [] [Txt ''Enter query keywords and click Execute to test BM25 rankings.'']
               else El ''div'' [] (map (\<lambda>(i, r). sp_card i r) (enumerate 0 (sp_results s)))]]])"

definition sp_render :: "sp_state \<Rightarrow> sp_event node" where
  "sp_render s =
     El ''div'' []
       [El ''div'' []
          [El ''h1'' [] [El ''Search'' [] [], El ''span'' [] [Txt ''Full-Text Search & BM25 Scoring'']],
           El ''p'' [] [Txt ''Unicode-aware tokenization, Inverted Index postings, and BM25 relevance scoring'']],
        El ''div'' [] [sp_controls s, sp_results_pane s]]"

definition sp_can :: "sp_state \<Rightarrow> sp_event \<Rightarrow> bool" where
  "sp_can s e = (user_can (sp_render s) e \<or> (\<exists>cat. e = Sp_catalog cat))"

abbreviation sp_reach :: "CatalogData option \<Rightarrow> sp_state \<times> sp_pending list \<Rightarrow> bool" where
  "sp_reach cat \<equiv> view_reach (sp_init cat, []) sp_can sp_handle (\<lambda>_ _. True) sp_resume"

lemma sp_card_inert [simp]: "\<not> user_can (sp_card i m) e"
  by (auto simp: sp_card_def json_preview_def split: option.splits if_splits)

lemma sp_tokens_inert [simp]: "c \<in> set (sp_tokens_pane s) \<Longrightarrow> \<not> user_can c e"
  by (auto simp: sp_tokens_pane_def split: if_splits)

lemma sp_can_search: "sp_can s Sp_search \<Longrightarrow> \<not> sp_loading s"
  by (auto simp: sp_can_def sp_render_def sp_controls_def sp_results_pane_def has_button_def split: if_splits)

lemma sp_sync_loading [simp]: "sp_loading (sp_sync s) = sp_loading s"
  by (simp add: sp_sync_def)

interpretation sp: single_flight "(sp_init cat, [])" sp_can sp_handle "\<lambda>_ _. True" sp_resume sp_loading "\<lambda>_. True"
proof unfold_locales
  fix s e
  assume "sp_can s e"
  then show "(sp_loading (fst (sp_handle e s)) = sp_loading s \<and> tracked_count (\<lambda>_. True) (snd (sp_handle e s)) = 0)
      \<or> (\<not> sp_loading s \<and> sp_loading (fst (sp_handle e s)) \<and> tracked_count (\<lambda>_. True) (snd (sp_handle e s)) = 1)"
    using sp_can_search [of s] by (cases e) (auto simp: sp_handle_def text_handleSearch_def)
next
  fix s p r
  show "\<not> sp_loading (fst (sp_resume p r s)) \<and> tracked_count (\<lambda>_. True) (snd (sp_resume p r s)) = 0"
    by (cases p) (simp add: text_done_def split: sum.splits)
qed (simp_all add: sp_init_def)

definition sp_selected :: "sp_state \<Rightarrow> bool" where
  "sp_selected s =
     (if sp_collections s = [] then sp_collection s = [] else sp_collection s \<in> co_name ` set (sp_collections s))"

lemma sp_sync_selected: "sp_selected (sp_sync s)"
proof (cases "list_ex (\<lambda>c. co_name c = sp_collection s) (sp_collections s)")
  case True
  then show ?thesis by (auto simp: sp_selected_def sp_sync_def list_ex_iff intro: rev_image_eqI)
next
  case False
  then show ?thesis by (auto simp: sp_selected_def sp_sync_def first_name_def split: list.splits)
qed

interpretation sp_drain: drains "\<lambda>_ _. True" sp_resume "\<lambda>_. 1 :: nat"
proof unfold_locales
  show "sum_list (map (\<lambda>_. 1) (snd (sp_resume p r s))) < (1 :: nat)" for p r s by (cases p) simp
qed simp

lemma sp_sync_collections [simp]: "sp_collections (sp_sync s) = sp_collections s"
  by (simp add: sp_sync_def)

interpretation sp_prop: prop_view "\<lambda>s. user_can (sp_render s)" sp_handle sp_resume Sp_catalog
  "\<lambda>cat. or_list (Option.bind cat cat_collections)" sp_collections
proof unfold_locales
  have "\<not> user_can (sp_render s) (Sp_catalog cat)" for s cat
    by (auto simp: sp_render_def sp_controls_def sp_results_pane_def split: if_splits)
  then show "user_can (sp_render s) e \<Longrightarrow> sp_collections (fst (sp_handle e s)) = sp_collections s" for s e
    by (cases e) (auto simp: sp_handle_def text_handleSearch_def)
  show "sp_collections (fst (sp_resume p r s)) = sp_collections s" for p r s
    by (cases p) (simp add: text_done_def split: sum.splits)
qed (simp add: sp_handle_def)

interpretation sp_sel: view_invariant "(sp_init cat, [])" sp_can sp_handle "\<lambda>_ _. True" sp_resume "\<lambda>s q. sp_selected s"
proof unfold_locales
  fix s :: sp_state and q1 p q2 r
  show "sp_selected (fst (sp_resume p r s))" by (cases p) (simp add: sp_sync_selected)
qed (simp_all add: sp_init_def sp_handle_def sp_sync_selected case_prod_beta)

text \<open>
  C20.  Whenever the catalog lists collections, the full-text playground has one of them selected,
  also when the catalog arrives or changes after the view has opened; a search is sent for a
  listed collection only.
\<close>

theorem sp_collection_listed:
  assumes "sp_reach cat (s, q)"
  shows "(sp_collections s \<noteq> [] \<longrightarrow> sp_collection s \<in> co_name ` set (sp_collections s))
     \<and> (\<forall>call \<in> set (snd (text_handleSearch s)). \<exists>name \<in> co_name ` set (sp_collections s).
          call = Sp_run (searchFullText name (sp_field s) (sp_queryText s) (sp_k s)))"
  using sp_sel.reach_inv [OF assms]
  by (auto simp: sp_selected_def text_handleSearch_def split: if_splits)

definition ex_search :: "sp_state \<times> sp_pending list" where
  "ex_search = do_event sp_handle (Sp_catalog (Some ex_catalog)) (sp_init None, [])"

lemma ex_search_reach: "sp_reach None ex_search"
  unfolding ex_search_def by (rule reach_do_event [OF view_reach.mount]) (simp add: sp_can_def)

theorem sp_collection_listed_witness:
  "sp_collection (fst ex_search) \<in> co_name ` set (sp_collections (fst ex_search))"
proof -
  have "sp_collections (fst ex_search) \<noteq> []" by code_simp
  then show ?thesis
    using sp_collection_listed [of None "fst ex_search" "snd ex_search"] ex_search_reach by simp
qed

text \<open>
  The full-text playground never has two searches in flight.
\<close>

theorem sp_single_flight:
  assumes "sp_reach cat (s, q)"
  shows "length q = (if sp_loading s then 1 else 0)"
  using sp.flight_count [OF assms] by (simp add: tracked_count_def)

theorem sp_single_flight_witness:
  "length (snd ex_search) = (if sp_loading (fst ex_search) then 1 else 0)"
  by (rule sp_single_flight [of None]) (simp add: ex_search_reach)

lemma lower_char_word: "is_word (lower_char c) = is_word c"
  by (simp add: is_word_def lower_char_def Let_def)

lemma to_lower_no_upper: "c \<in> set (to_lower s) \<Longrightarrow> \<not> (65 \<le> (of_char c :: nat) \<and> (of_char c :: nat) \<le> 90)"
  by (induction s rule: to_lower.induct) (auto simp: lower_char_def Let_def split: if_splits)

lemma word_runs_chars: "\<forall>w \<in> set (word_runs s). \<forall>c \<in> set w. is_word c \<and> c \<in> set s"
  by (induction s) (auto split: list.splits)



end
