(* ===== verification/Studio_App.thy ===== *)
theory Studio_App
  imports TimeSeries_View Overview_View Buckets_View Maintenance_View Playgrounds
begin

text \<open>
  The whole Studio: \<open>studio/frontend/src/App.tsx\<close> with the page of the current view mounted
  inside its error boundary.  The shell passes the catalog and the statistics down, a page calls
  back to navigate and to refresh the catalog, and an error in the render of a page unmounts it
  and puts the boundary's panel in its place.

  A page that is left takes its pending continuations with it: the setters of an unmounted
  component do nothing.  (Such a continuation may still ask the shell for a poll; the shell may
  poll at any time.)
\<close>

section \<open>Pages\<close>

record host =
  h_tz :: time_zone
  h_localeTime :: "string \<Rightarrow> string"
  h_localeString :: "string \<Rightarrow> string"
  h_localeNum :: "int \<Rightarrow> string"
  h_origin :: string

datatype page =
    Pg_dashboard "dv_state \<times> dv_pending list"
  | Pg_collections "cv_state \<times> cv_pending list"
  | Pg_timeseries "tv_state \<times> tv_pending list"
  | Pg_buckets "bv_state \<times> bv_pending list"
  | Pg_queues "qv_state \<times> qv_pending list"
  | Pg_pubsub "ps_state \<times> ps_pending list"
  | Pg_query "qc_state \<times> qc_pending list"
  | Pg_vector "vp_state \<times> vp_pending list"
  | Pg_search "sp_state \<times> sp_pending list"
  | Pg_maintenance "mv_state \<times> mv_pending list"

datatype page_event =
    Ev_dashboard dv_event
  | Ev_collections cv_event
  | Ev_timeseries tv_event
  | Ev_buckets bv_event
  | Ev_queues qv_event
  | Ev_pubsub ps_event
  | Ev_query qc_event
  | Ev_vector vp_event
  | Ev_search sp_event
  | Ev_maintenance mv_event

datatype page_reply =
    Re_dashboard
  | Re_collections cv_reply
  | Re_timeseries tv_reply
  | Re_buckets bv_reply
  | Re_queues qv_reply
  | Re_pubsub ps_reply
  | Re_query "QueryResult outcome"
  | Re_vector "VectorSearchResult list option outcome"
  | Re_search "TextSearchResult list option outcome"
  | Re_maintenance mv_reply

text \<open>The components \<open>App.tsx\<close> renders for the current view, with the properties it gives them.\<close>

definition page_mount :: "host \<Rightarrow> int \<Rightarrow> sh_state \<Rightarrow> ViewType \<Rightarrow> page" where
  "page_mount h now sh v =
     (case v of
        View_dashboard \<Rightarrow> Pg_dashboard (dv_init (sh_stats sh) (sh_catalog sh), [])
      | View_collections \<Rightarrow> Pg_collections (do_event cv_handle (Cv_catalog (sh_catalog sh)) cv_start)
      | View_timeseries \<Rightarrow> Pg_timeseries (tv_start (h_tz h) now)
      | View_buckets \<Rightarrow> Pg_buckets (do_event bv_handle (Bv_catalog (sh_catalog sh)) (bv_init, []))
      | View_queues \<Rightarrow> Pg_queues (qv_start None)
      | View_pubsub \<Rightarrow> Pg_pubsub ps_start
      | View_query \<Rightarrow> Pg_query (qc_init (sh_catalog sh), [])
      | View_vector \<Rightarrow> Pg_vector (vp_init (sh_catalog sh), [])
      | View_search \<Rightarrow> Pg_search (sp_init (sh_catalog sh), [])
      | View_maintenance \<Rightarrow> Pg_maintenance (mv_init, []))"

definition page_props :: "host \<Rightarrow> sh_state \<Rightarrow> page \<Rightarrow> page" where
  "page_props h sh pg =
     (case pg of
        Pg_dashboard c \<Rightarrow> Pg_dashboard (do_event (dv_handle (h_origin h)) (Dv_props (sh_stats sh) (sh_catalog sh)) c)
      | Pg_collections c \<Rightarrow> Pg_collections (do_event cv_handle (Cv_catalog (sh_catalog sh)) c)
      | Pg_buckets c \<Rightarrow> Pg_buckets (do_event bv_handle (Bv_catalog (sh_catalog sh)) c)
      | Pg_query c \<Rightarrow> Pg_query (do_event qc_handle (Qc_catalog (sh_catalog sh)) c)
      | Pg_vector c \<Rightarrow> Pg_vector (do_event vp_handle (Vp_catalog (sh_catalog sh)) c)
      | Pg_search c \<Rightarrow> Pg_search (do_event sp_handle (Sp_catalog (sh_catalog sh)) c)
      | _ \<Rightarrow> pg)"

definition page_do :: "host \<Rightarrow> page_event \<Rightarrow> page \<Rightarrow> page" where
  "page_do h ev pg =
     (case pg of
        Pg_dashboard c \<Rightarrow> (case ev of Ev_dashboard e \<Rightarrow> Pg_dashboard (do_event (dv_handle (h_origin h)) e c) | _ \<Rightarrow> pg)
      | Pg_collections c \<Rightarrow> (case ev of Ev_collections e \<Rightarrow> Pg_collections (do_event cv_handle e c) | _ \<Rightarrow> pg)
      | Pg_timeseries c \<Rightarrow> (case ev of Ev_timeseries e \<Rightarrow> Pg_timeseries (do_event (tv_handle (h_tz h)) e c) | _ \<Rightarrow> pg)
      | Pg_buckets c \<Rightarrow> (case ev of Ev_buckets e \<Rightarrow> Pg_buckets (do_event bv_handle e c) | _ \<Rightarrow> pg)
      | Pg_queues c \<Rightarrow> (case ev of Ev_queues e \<Rightarrow> Pg_queues (do_event (qv_handle None) e c) | _ \<Rightarrow> pg)
      | Pg_pubsub c \<Rightarrow> (case ev of Ev_pubsub e \<Rightarrow> Pg_pubsub (do_event ps_handle e c) | _ \<Rightarrow> pg)
      | Pg_query c \<Rightarrow> (case ev of Ev_query e \<Rightarrow> Pg_query (do_event qc_handle e c) | _ \<Rightarrow> pg)
      | Pg_vector c \<Rightarrow> (case ev of Ev_vector e \<Rightarrow> Pg_vector (do_event vp_handle e c) | _ \<Rightarrow> pg)
      | Pg_search c \<Rightarrow> (case ev of Ev_search e \<Rightarrow> Pg_search (do_event sp_handle e c) | _ \<Rightarrow> pg)
      | Pg_maintenance c \<Rightarrow> (case ev of Ev_maintenance e \<Rightarrow> Pg_maintenance (do_event mv_handle e c) | _ \<Rightarrow> pg))"

definition page_answer :: "host \<Rightarrow> nat \<Rightarrow> page_reply \<Rightarrow> page \<Rightarrow> page option" where
  "page_answer h i re pg =
     (case pg of
        Pg_dashboard c \<Rightarrow> (case re of Re_dashboard \<Rightarrow> map_option Pg_dashboard (try_reply (\<lambda>_ _. True) dv_resume i () c) | _ \<Rightarrow> None)
      | Pg_collections c \<Rightarrow> (case re of Re_collections r \<Rightarrow> map_option Pg_collections (try_reply cv_fit cv_resume i r c) | _ \<Rightarrow> None)
      | Pg_timeseries c \<Rightarrow> (case re of Re_timeseries r \<Rightarrow> map_option Pg_timeseries (try_reply tv_fit (tv_resume (h_tz h)) i r c) | _ \<Rightarrow> None)
      | Pg_buckets c \<Rightarrow> (case re of Re_buckets r \<Rightarrow> map_option Pg_buckets (try_reply bv_fit bv_resume i r c) | _ \<Rightarrow> None)
      | Pg_queues c \<Rightarrow> (case re of Re_queues r \<Rightarrow> map_option Pg_queues (try_reply qv_fit qv_resume i r c) | _ \<Rightarrow> None)
      | Pg_pubsub c \<Rightarrow> (case re of Re_pubsub r \<Rightarrow> map_option Pg_pubsub (try_reply ps_fit ps_resume i r c) | _ \<Rightarrow> None)
      | Pg_query c \<Rightarrow> (case re of Re_query r \<Rightarrow> map_option Pg_query (try_reply (\<lambda>_ _. True) qc_resume i r c) | _ \<Rightarrow> None)
      | Pg_vector c \<Rightarrow> (case re of Re_vector r \<Rightarrow> map_option Pg_vector (try_reply (\<lambda>_ _. True) vp_resume i r c) | _ \<Rightarrow> None)
      | Pg_search c \<Rightarrow> (case re of Re_search r \<Rightarrow> map_option Pg_search (try_reply (\<lambda>_ _. True) sp_resume i r c) | _ \<Rightarrow> None)
      | Pg_maintenance c \<Rightarrow> (case re of Re_maintenance r \<Rightarrow> map_option Pg_maintenance (try_reply mv_fit mv_resume i r c) | _ \<Rightarrow> None))"

text \<open>The timers of the two messaging pages.\<close>

fun page_timer :: "page \<Rightarrow> page" where
  "page_timer (Pg_queues c) = Pg_queues (do_event (qv_handle None) Qv_timer c)"
| "page_timer (Pg_pubsub c) = Pg_pubsub (do_event ps_handle Ps_timer c)"
| "page_timer pg = pg"

text \<open>The continuation that calls \<open>onRefreshCatalog\<close>.\<close>

definition page_refreshes :: "nat \<Rightarrow> page \<Rightarrow> bool" where
  "page_refreshes i pg =
     (case pg of
        Pg_collections c \<Rightarrow> snd c ! i = Cv_onRefreshCatalog
      | Pg_timeseries c \<Rightarrow> snd c ! i = Tv_onRefreshCatalog
      | Pg_buckets c \<Rightarrow> snd c ! i = Bv_onRefreshCatalog
      | _ \<Rightarrow> False)"

definition page_tree :: "host \<Rightarrow> int \<Rightarrow> page \<Rightarrow> page_event node outcome" where
  "page_tree h now pg =
     (case pg of
        Pg_dashboard c \<Rightarrow> Inr (map_node Ev_dashboard (dv_render (h_localeNum h) (h_origin h) (fst c)))
      | Pg_collections c \<Rightarrow> map_sum id (map_node Ev_collections) (cv_render (fst c))
      | Pg_timeseries c \<Rightarrow> Inr (map_node Ev_timeseries (tv_render (h_localeString h) now (fst c)))
      | Pg_buckets c \<Rightarrow> Inr (map_node Ev_buckets (bv_render (fst c)))
      | Pg_queues c \<Rightarrow> Inr (map_node Ev_queues (qv_render (fst c)))
      | Pg_pubsub c \<Rightarrow> Inr (map_node Ev_pubsub (ps_render (h_localeTime h) (fst c)))
      | Pg_query c \<Rightarrow> map_sum id (map_node Ev_query) (qc_render (fst c))
      | Pg_vector c \<Rightarrow> Inr (map_node Ev_vector (vp_render (fst c)))
      | Pg_search c \<Rightarrow> Inr (map_node Ev_search (sp_render (fst c)))
      | Pg_maintenance c \<Rightarrow> Inr (map_node Ev_maintenance (mv_render (fst c))))"

section \<open>The application\<close>

record app =
  app_shell :: sh_state
  app_fetches :: "sh_pending list"
  app_page :: "page option"

datatype app_event = App_sh sh_event | App_pg page_event

definition app_tree :: "host \<Rightarrow> int \<Rightarrow> app \<Rightarrow> app_event node" where
  "app_tree h now a =
     App_tree App_sh (app_shell a)
       (case app_page a of
          None \<Rightarrow> []
        | Some pg \<Rightarrow> (case page_tree h now pg of Inr n \<Rightarrow> [map_node App_pg n] | Inl _ \<Rightarrow> []))"

definition shell_do :: "sh_event \<Rightarrow> app \<Rightarrow> app" where
  "shell_do e a =
     (case sh_handle e (app_shell a) of (sh, ps) \<Rightarrow> a\<lparr>app_shell := sh, app_fetches := app_fetches a @ ps\<rparr>)"

text \<open>A change of the view unmounts the page and mounts the new one, unless the boundary shows its panel.\<close>

definition app_navigate :: "host \<Rightarrow> int \<Rightarrow> ViewType \<Rightarrow> app \<Rightarrow> app" where
  "app_navigate h now v a =
     (let a' = shell_do (Sh_select v) a
      in a'\<lparr>app_page :=
           (if sh_boundary (app_shell a) \<noteq> None then None
            else if v = sh_currentView (app_shell a) then app_page a
            else Some (page_mount h now (app_shell a') v))\<rparr>)"

definition app_retry :: "host \<Rightarrow> int \<Rightarrow> app \<Rightarrow> app" where
  "app_retry h now a =
     (let a' = shell_do Sh_retry a in a'\<lparr>app_page := Some (page_mount h now (app_shell a') (sh_currentView (app_shell a')))\<rparr>)"

definition app_do :: "host \<Rightarrow> int \<Rightarrow> app_event \<Rightarrow> app \<Rightarrow> app" where
  "app_do h now e a =
     (case e of
        App_sh (Sh_select v) \<Rightarrow> app_navigate h now v a
      | App_sh Sh_retry \<Rightarrow> app_retry h now a
      | App_sh e' \<Rightarrow> shell_do e' a
      | App_pg (Ev_dashboard (Dv_navigate v)) \<Rightarrow> app_navigate h now v a
      | App_pg e' \<Rightarrow> a\<lparr>app_page := map_option (page_do h e') (app_page a)\<rparr>)"

definition app_fetched :: "host \<Rightarrow> nat \<Rightarrow> fetch_result \<Rightarrow> app \<Rightarrow> app" where
  "app_fetched h i r a =
     (case do_reply sh_resume i r (app_shell a, app_fetches a) of
        (sh, ps) \<Rightarrow> \<lparr>app_shell = sh, app_fetches = ps, app_page = map_option (page_props h sh) (app_page a)\<rparr>)"

definition app_answered :: "bool \<Rightarrow> page \<Rightarrow> app \<Rightarrow> app" where
  "app_answered refresh pg a =
     (let a' = a\<lparr>app_page := Some pg\<rparr> in if refresh then shell_do Sh_timer a' else a')"

text \<open>React renders after every step; whether the render fails does not depend on the clock.\<close>

definition app_catch :: "host \<Rightarrow> app \<Rightarrow> app" where
  "app_catch h a =
     (case map_option (page_tree h 0) (app_page a) of
        Some (Inl e) \<Rightarrow> (shell_do (Sh_caught e) a)\<lparr>app_page := None\<rparr>
      | _ \<Rightarrow> a)"

definition app_start :: "host \<Rightarrow> int \<Rightarrow> string option \<Rightarrow> app" where
  "app_start h now saved =
     (case sh_start saved of
        (sh, ps) \<Rightarrow> \<lparr>app_shell = sh, app_fetches = ps, app_page = Some (page_mount h now sh (sh_currentView sh))\<rparr>)"

inductive app_step :: "host \<Rightarrow> app \<Rightarrow> app \<Rightarrow> bool" for h where
  user: "user_can (app_tree h now a) e \<Longrightarrow> app_step h a (app_catch h (app_do h now e a))"
| poll: "app_step h a (shell_do Sh_timer a)"
| fetched: "i < length (app_fetches a) \<Longrightarrow> app_step h a (app_catch h (app_fetched h i r a))"
| tick: "app_step h a (app_catch h (a\<lparr>app_page := map_option page_timer (app_page a)\<rparr>))"
| answer: "app_page a = Some pg \<Longrightarrow> page_answer h i r pg = Some pg' \<Longrightarrow>
    app_step h a (app_catch h (app_answered (page_refreshes i pg) pg' a))"

inductive app_reach :: "host \<Rightarrow> string option \<Rightarrow> app \<Rightarrow> bool" for h saved where
  start: "app_reach h saved (app_start h now saved)"
| step: "app_reach h saved a \<Longrightarrow> app_step h a a' \<Longrightarrow> app_reach h saved a'"

section \<open>Every page runs as it does alone\<close>

definition page_ok :: "host \<Rightarrow> page \<Rightarrow> bool" where
  "page_ok h pg =
     (case pg of
        Pg_dashboard c \<Rightarrow> (\<exists>stats cat. dv_reach (h_localeNum h) (h_origin h) stats cat c)
      | Pg_collections c \<Rightarrow> cv_reach c
      | Pg_timeseries c \<Rightarrow> (\<exists>now. tv_reach (h_localeString h) (h_tz h) now c)
      | Pg_buckets c \<Rightarrow> bv_reach c
      | Pg_queues c \<Rightarrow> qv_reach None c
      | Pg_pubsub c \<Rightarrow> ps_reach (h_localeTime h) c
      | Pg_query c \<Rightarrow> (\<exists>cat. qc_reach cat c)
      | Pg_vector c \<Rightarrow> (\<exists>cat. vp_reach cat c)
      | Pg_search c \<Rightarrow> (\<exists>cat. sp_reach cat c)
      | Pg_maintenance c \<Rightarrow> mv_reach c)"

lemmas can_props = dv_can_def cv_can_def bv_can_def qc_can_def vp_can_def sp_can_def

text \<open>A page whose start depends on the properties it was mounted with.\<close>

lemma some_do_event:
  "\<exists>x. view_reach (start x) can handle fit resume c \<Longrightarrow> can (fst c) e \<Longrightarrow>
     \<exists>x. view_reach (start x) can handle fit resume (do_event handle e c)"
  "\<exists>x y. view_reach (start' x y) can handle fit resume c \<Longrightarrow> can (fst c) e \<Longrightarrow>
     \<exists>x y. view_reach (start' x y) can handle fit resume (do_event handle e c)"
  by (blast intro: reach_do_event)+

lemma some_try_reply:
  "\<exists>x. view_reach (start x) can handle fit resume c \<Longrightarrow> try_reply fit resume i r c = Some c' \<Longrightarrow>
     \<exists>x. view_reach (start x) can handle fit resume c'"
  "\<exists>x y. view_reach (start' x y) can handle fit resume c \<Longrightarrow> try_reply fit resume i r c = Some c' \<Longrightarrow>
     \<exists>x y. view_reach (start' x y) can handle fit resume c'"
  by (blast intro: reach_try_reply)+

lemma page_mount_ok: "page_ok h (page_mount h now sh v)"
  by (cases v)
    (auto simp: page_mount_def page_ok_def can_props intro: view_reach.mount intro!: reach_do_event [OF view_reach.mount])

lemma page_props_ok: "page_ok h pg \<Longrightarrow> page_ok h (page_props h sh pg)"
  by (cases pg; simp add: page_props_def page_ok_def; (erule reach_do_event some_do_event)?; simp add: can_props)

definition page_can :: "host \<Rightarrow> page_event \<Rightarrow> page \<Rightarrow> bool" where
  "page_can h ev pg =
     (case pg of
        Pg_dashboard c \<Rightarrow> (case ev of Ev_dashboard e \<Rightarrow> dv_can (h_localeNum h) (h_origin h) (fst c) e | _ \<Rightarrow> False)
      | Pg_collections c \<Rightarrow> (case ev of Ev_collections e \<Rightarrow> cv_can (fst c) e | _ \<Rightarrow> False)
      | Pg_timeseries c \<Rightarrow> (case ev of Ev_timeseries e \<Rightarrow> tv_can (h_localeString h) (fst c) e | _ \<Rightarrow> False)
      | Pg_buckets c \<Rightarrow> (case ev of Ev_buckets e \<Rightarrow> bv_can (fst c) e | _ \<Rightarrow> False)
      | Pg_queues c \<Rightarrow> (case ev of Ev_queues e \<Rightarrow> qv_can (fst c) e | _ \<Rightarrow> False)
      | Pg_pubsub c \<Rightarrow> (case ev of Ev_pubsub e \<Rightarrow> ps_can (h_localeTime h) (fst c) e | _ \<Rightarrow> False)
      | Pg_query c \<Rightarrow> (case ev of Ev_query e \<Rightarrow> qc_can (fst c) e | _ \<Rightarrow> False)
      | Pg_vector c \<Rightarrow> (case ev of Ev_vector e \<Rightarrow> vp_can (fst c) e | _ \<Rightarrow> False)
      | Pg_search c \<Rightarrow> (case ev of Ev_search e \<Rightarrow> sp_can (fst c) e | _ \<Rightarrow> False)
      | Pg_maintenance c \<Rightarrow> (case ev of Ev_maintenance e \<Rightarrow> mv_can (fst c) e | _ \<Rightarrow> False))"

lemma page_tree_can: "page_tree h now pg = Inr n \<Longrightarrow> user_can n e \<Longrightarrow> page_can h e pg"
proof (cases pg)
  case (Pg_query c)
  assume "page_tree h now pg = Inr n" and "user_can n e"
  with Pg_query show ?thesis
    by (cases "qc_render (fst c)") (auto simp: page_tree_def page_can_def can_props user_can_map)
next
  case (Pg_collections c)
  assume "page_tree h now pg = Inr n" and "user_can n e"
  with Pg_collections show ?thesis
    by (cases "cv_render (fst c)") (auto simp: page_tree_def page_can_def can_props user_can_map)
next
  case (Pg_timeseries c)
  assume "page_tree h now pg = Inr n" and "user_can n e"
  with Pg_timeseries obtain e' where "e = Ev_timeseries e'" "user_can (tv_render (h_localeString h) now (fst c)) e'"
    by (auto simp: page_tree_def user_can_map)
  with Pg_timeseries show ?thesis unfolding page_can_def tv_can_def by auto
qed (auto simp: page_tree_def page_can_def can_props qv_can_def ps_can_def mv_can_def user_can_map)

lemma page_do_ok:
  assumes "page_ok h pg" and "page_can h e pg"
  shows "page_ok h (page_do h e pg)"
  using assms
  by (cases pg; cases e; simp add: page_ok_def page_do_def page_can_def)
    (erule (1) reach_do_event | erule (1) some_do_event)+

lemma page_timer_ok: "page_ok h pg \<Longrightarrow> page_ok h (page_timer pg)"
  by (cases pg) (auto simp: page_ok_def qv_can_def ps_can_def intro!: reach_do_event)

lemma page_answer_ok: "page_ok h pg \<Longrightarrow> page_answer h i r pg = Some pg' \<Longrightarrow> page_ok h pg'"
  by (cases pg)
    (auto simp: page_ok_def page_answer_def split: page_reply.splits dest: reach_try_reply, (blast intro: reach_try_reply)+)

text \<open>What the steps of the application do to its shell and its page.\<close>

lemma shell_do_simps [simp]:
  "app_page (shell_do e a) = app_page a"
  "app_shell (shell_do e a) = fst (sh_handle e (app_shell a))"
  "app_fetches (shell_do e a) = app_fetches a @ snd (sh_handle e (app_shell a))"
  by (simp_all add: shell_do_def case_prod_beta)

definition pages_ok :: "host \<Rightarrow> string option \<Rightarrow> app \<Rightarrow> bool" where
  "pages_ok h saved a = (sh_reach saved (app_shell a, app_fetches a) \<and> (\<forall>pg. app_page a = Some pg \<longrightarrow> page_ok h pg))"

lemma shell_do_ok:
  assumes "sh_reach saved (app_shell a, app_fetches a)" and "sh_can (app_shell a) e"
  shows "sh_reach saved (app_shell (shell_do e a), app_fetches (shell_do e a))"
  using reach_event [OF assms] by simp

lemma app_catch_ok: "pages_ok h saved a \<Longrightarrow> pages_ok h saved (app_catch h a)"
  using shell_do_ok [of saved a]
  by (auto simp: pages_ok_def app_catch_def sh_can_def simp del: shell_do_simps(2,3) split: option.splits sum.splits)

lemma app_navigate_ok: "pages_ok h saved a \<Longrightarrow> pages_ok h saved (app_navigate h now v a)"
  using shell_do_ok [of saved a "Sh_select v"]
  by (auto simp: pages_ok_def app_navigate_def sh_can_def App_tree_can Let_def page_mount_ok)

lemma app_user_ok:
  assumes ok: "pages_ok h saved a" and can: "user_can (app_tree h now a) e"
  shows "pages_ok h saved (app_do h now e a)"
proof (cases e)
  case (App_sh e')
  then have "sh_can (app_shell a) e'"
    using can by (auto simp: app_tree_def App_tree_can sh_can_def user_can_map split: option.splits sum.splits)
  then have sh: "sh_reach saved (app_shell (shell_do e' a), app_fetches (shell_do e' a))"
    using ok shell_do_ok by (simp add: pages_ok_def del: shell_do_simps)
  then show ?thesis
    using ok App_sh app_navigate_ok [OF ok]
    by (cases e') (auto simp: app_do_def app_retry_def pages_ok_def Let_def page_mount_ok)
next
  case (App_pg e')
  then obtain pg n where pg: "app_page a = Some pg" "page_tree h now pg = Inr n" "user_can n e'"
    using can by (auto simp: app_tree_def App_tree_can user_can_map split: option.splits sum.splits) metis
  then have "page_ok h (page_do h e' pg)" using ok page_do_ok page_tree_can by (auto simp: pages_ok_def)
  then have "pages_ok h saved (a\<lparr>app_page := map_option (page_do h e') (app_page a)\<rparr>)"
    using ok pg(1) by (auto simp: pages_ok_def)
  then show ?thesis
    using App_pg app_navigate_ok [OF ok] by (auto simp: app_do_def split: page_event.splits dv_event.splits)
qed

lemma app_fetched_ok:
  assumes "pages_ok h saved a" and "i < length (app_fetches a)"
  shows "pages_ok h saved (app_fetched h i r a)"
  using assms reach_do_reply [of "sh_start saved" sh_can sh_handle "\<lambda>_ _. True" sh_resume "(app_shell a, app_fetches a)" i r]
  by (auto simp: pages_ok_def app_fetched_def page_props_ok case_prod_beta)

lemma app_answered_ok: "pages_ok h saved a \<Longrightarrow> page_ok h pg \<Longrightarrow> pages_ok h saved (app_answered refresh pg a)"
  using shell_do_ok [of saved "a\<lparr>app_page := Some pg\<rparr>" Sh_timer]
  by (auto simp: pages_ok_def app_answered_def Let_def sh_can_def)

lemma app_reach_ok: "app_reach h saved a \<Longrightarrow> pages_ok h saved a"
proof (induction rule: app_reach.induct)
  case (start now)
  then show ?case
    using view_reach.mount [of "sh_start saved"]
    by (auto simp: pages_ok_def app_start_def page_mount_ok case_prod_beta)
next
  case (step a a')
  from step.hyps(2) show ?case
  proof (cases rule: app_step.cases)
    case (user now e)
    then show ?thesis using step.IH by (auto intro: app_catch_ok app_user_ok)
  next
    case poll
    then show ?thesis using step.IH shell_do_ok [of saved a Sh_timer] by (auto simp: pages_ok_def sh_can_def)
  next
    case (fetched i r)
    then show ?thesis using step.IH by (auto intro: app_catch_ok app_fetched_ok)
  next
    case tick
    have "pages_ok h saved (a\<lparr>app_page := map_option page_timer (app_page a)\<rparr>)"
      using step.IH by (auto simp: pages_ok_def page_timer_ok)
    with tick show ?thesis by (auto intro: app_catch_ok)
  next
    case (answer pg i r pg')
    then have "page_ok h pg'" using step.IH page_answer_ok by (auto simp: pages_ok_def)
    with answer show ?thesis using step.IH by (auto intro: app_catch_ok app_answered_ok)
  qed
qed

section \<open>The page and the shell agree\<close>

fun page_view :: "page \<Rightarrow> ViewType" where
  "page_view (Pg_dashboard _) = View_dashboard"
| "page_view (Pg_collections _) = View_collections"
| "page_view (Pg_timeseries _) = View_timeseries"
| "page_view (Pg_buckets _) = View_buckets"
| "page_view (Pg_queues _) = View_queues"
| "page_view (Pg_pubsub _) = View_pubsub"
| "page_view (Pg_query _) = View_query"
| "page_view (Pg_vector _) = View_vector"
| "page_view (Pg_search _) = View_search"
| "page_view (Pg_maintenance _) = View_maintenance"

definition shell_collections :: "sh_state \<Rightarrow> CatalogObject list" where
  "shell_collections sh = or_list (Option.bind (sh_catalog sh) cat_collections)"

definition shell_buckets :: "sh_state \<Rightarrow> CatalogObject list" where
  "shell_buckets sh = or_list (Option.bind (sh_catalog sh) cat_buckets)"

text \<open>The page's copies of the properties it was given are what the shell holds.\<close>

definition page_synced :: "sh_state \<Rightarrow> page \<Rightarrow> bool" where
  "page_synced sh pg =
     (case pg of
        Pg_dashboard c \<Rightarrow> (dv_stats (fst c), dv_catalog (fst c)) = (sh_stats sh, sh_catalog sh)
      | Pg_collections c \<Rightarrow> cv_collections (fst c) = shell_collections sh
      | Pg_buckets c \<Rightarrow> bv_buckets (fst c) = shell_buckets sh
      | Pg_query c \<Rightarrow> qc_collections (fst c) = shell_collections sh
      | Pg_vector c \<Rightarrow> vp_collections (fst c) = shell_collections sh
      | Pg_search c \<Rightarrow> sp_collections (fst c) = shell_collections sh
      | _ \<Rightarrow> True)"

lemmas props_given =
  dv_prop.given [where c = "(x, y)" for x y, simplified] cv_prop.given bv_prop.given qc_prop.given vp_prop.given sp_prop.given
lemmas props_user =
  dv_prop.user_keeps cv_prop.user_keeps bv_prop.user_keeps qc_prop.user_keeps vp_prop.user_keeps sp_prop.user_keeps
lemmas props_reply =
  dv_prop.reply_keeps cv_prop.reply_keeps bv_prop.reply_keeps qc_prop.reply_keeps vp_prop.reply_keeps sp_prop.reply_keeps

lemmas synced_defs = page_synced_def shell_collections_def shell_buckets_def

lemma page_synced_cong:
  "sh_stats sh' = sh_stats sh \<Longrightarrow> sh_catalog sh' = sh_catalog sh \<Longrightarrow> page_synced sh' pg = page_synced sh pg"
  by (cases pg) (simp_all add: synced_defs)

lemma page_mount_synced: "page_view (page_mount h now sh v) = v \<and> page_synced sh (page_mount h now sh v)"
  by (cases v)
    (simp_all add: page_mount_def synced_defs props_given dv_init_def qc_init_def vp_init_def sp_init_def Let_def)

lemma page_props_synced: "page_view (page_props h sh pg) = page_view pg \<and> page_synced sh (page_props h sh pg)"
  by (cases pg) (simp_all add: page_props_def synced_defs props_given)

lemma page_do_synced:
  assumes "page_tree h now pg = Inr n" and "user_can n e"
  shows "page_view (page_do h e pg) = page_view pg \<and> page_synced sh (page_do h e pg) = page_synced sh pg"
proof (cases pg)
  case (Pg_query c)
  then obtain m where "qc_render (fst c) = Inr m" "n = map_node Ev_query m"
    using assms(1) by (cases "qc_render (fst c)") (auto simp: page_tree_def)
  then show ?thesis
    using assms(2) Pg_query by (auto simp: page_do_def page_synced_def user_can_map qc_prop.user_keeps)
next
  case (Pg_collections c)
  then obtain m where "cv_render (fst c) = Inr m" "n = map_node Ev_collections m"
    using assms(1) by (cases "cv_render (fst c)") (auto simp: page_tree_def)
  then show ?thesis
    using assms(2) Pg_collections by (auto simp: page_do_def page_synced_def user_can_map cv_prop.user_keeps)
next
  case (Pg_dashboard c)
  then obtain e' where e: "e = Ev_dashboard e'" "user_can (dv_render (h_localeNum h) (h_origin h) (fst c)) e'"
    using assms by (auto simp: page_tree_def user_can_map)
  show ?thesis
    using Pg_dashboard e(1) dv_prop.user_keeps [where q = c, OF e(2)] by (simp add: page_do_def page_synced_def)
qed (use assms in \<open>auto simp: page_tree_def page_do_def page_synced_def user_can_map
        bv_prop.user_keeps vp_prop.user_keeps sp_prop.user_keeps\<close>)

lemma page_timer_synced: "page_view (page_timer pg) = page_view pg \<and> page_synced sh (page_timer pg) = page_synced sh pg"
  by (cases pg) (simp_all add: page_synced_def)

lemma page_answer_synced:
  "page_answer h i r pg = Some pg' \<Longrightarrow> page_view pg' = page_view pg \<and> page_synced sh pg' = page_synced sh pg"
  by (cases pg) (auto simp: page_answer_def page_synced_def split: page_reply.splits dest: props_reply)

text \<open>
  Either the page of the current view is mounted, with the shell's properties, or the boundary
  shows its panel.
\<close>

definition render_errors :: "js_error set" where
  "render_errors = {null_length_error, object_child_error}"

definition app_agrees :: "app \<Rightarrow> bool" where
  "app_agrees a =
     (case app_page a of
        None \<Rightarrow> sh_boundary (app_shell a) \<in> Some ` render_errors
      | Some pg \<Rightarrow> sh_boundary (app_shell a) = None \<and> page_view pg = sh_currentView (app_shell a) \<and> page_synced (app_shell a) pg)"

definition app_settled :: "host \<Rightarrow> app \<Rightarrow> bool" where
  "app_settled h a = (app_agrees a \<and> (\<forall>pg now. app_page a = Some pg \<longrightarrow> (\<exists>n. page_tree h now pg = Inr n)))"

lemma page_tree_fails:
  assumes "page_tree h now pg = Inl e"
  shows "e \<in> render_errors \<and> page_tree h now' pg = Inl e"
proof (cases pg)
  case (Pg_collections c)
  then show ?thesis
    using assms cv_render_fails [of "fst c"] by (cases "cv_render (fst c)") (auto simp: page_tree_def render_errors_def)
next
  case (Pg_query c)
  then show ?thesis
    using assms
    by (auto simp: page_tree_def render_errors_def qc_render_def qc_results_def Let_def
        split: sum.splits option.splits list.splits if_splits)
qed (use assms in \<open>simp_all add: page_tree_def\<close>)

lemma cv_mount_renders: "\<exists>n. cv_render (fst (do_event cv_handle (Cv_catalog cat) cv_start)) = Inr n"
proof -
  have "cv_viewDoc (fst (do_event cv_handle (Cv_catalog cat) cv_start)) = None"
    by (simp add: do_event_def cv_handle_def cv_commit_def cv_start_def cv_init_def loadDocuments_def Let_def)
  then show ?thesis using cv_render_fails by (metis sum.exhaust)
qed

lemma page_mount_renders: "\<exists>n. page_tree h now (page_mount h now' sh v) = Inr n"
  using cv_mount_renders [of "sh_catalog sh"]
  by (cases v) (auto simp: page_tree_def page_mount_def qc_render_def qc_results_def qc_init_def Let_def)

lemma app_catch_settled:
  assumes "app_agrees a"
  shows "app_settled h (app_catch h a)"
proof (cases "app_page a")
  case (Some pg)
  show ?thesis
  proof (cases "page_tree h 0 pg")
    case (Inl e)
    then show ?thesis
      using Some page_tree_fails [OF Inl] by (simp add: app_settled_def app_catch_def app_agrees_def getDerivedStateFromError_def)
  next
    case (Inr n)
    then have "\<exists>m. page_tree h now pg = Inr m" for now
      using page_tree_fails [of h now pg _ 0] by (cases "page_tree h now pg") auto
    then show ?thesis using Some Inr assms by (simp add: app_settled_def app_catch_def)
  qed
qed (use assms in \<open>simp add: app_settled_def app_catch_def\<close>)

text \<open>The events of the shell that leave the page alone.\<close>

lemma shell_do_agrees:
  assumes "app_agrees a" and "e \<in> {Sh_toggleTheme, Sh_refresh, Sh_timer}"
  shows "app_agrees (shell_do e a)"
proof -
  let ?sh = "fst (sh_handle e (app_shell a))"
  have same: "sh_boundary ?sh = sh_boundary (app_shell a)" "sh_currentView ?sh = sh_currentView (app_shell a)"
      "sh_stats ?sh = sh_stats (app_shell a)" "sh_catalog ?sh = sh_catalog (app_shell a)"
    using assms(2) by (auto simp: fetchData_def toggleTheme_def apply_theme_def)
  then have "page_synced ?sh pg = page_synced (app_shell a) pg" for pg by (intro page_synced_cong)
  then show ?thesis using assms(1) same by (simp add: app_agrees_def split: option.splits)
qed

lemma app_navigate_agrees: "app_agrees a \<Longrightarrow> app_agrees (app_navigate h now v a)"
  using page_mount_synced page_synced_cong [of "app_shell a\<lparr>sh_currentView := v\<rparr>" "app_shell a"]
  by (auto simp: app_agrees_def app_navigate_def Let_def split: option.splits)

lemma app_retry_agrees: "app_agrees (app_retry h now a)"
  using page_mount_synced by (auto simp: app_agrees_def app_retry_def Let_def)

lemma app_page_agrees:
  "app_agrees a \<Longrightarrow> app_page a = Some pg \<Longrightarrow> page_view pg' = page_view pg \<Longrightarrow>
     page_synced (app_shell a) pg' = page_synced (app_shell a) pg \<Longrightarrow> app_agrees (a\<lparr>app_page := Some pg'\<rparr>)"
  by (simp add: app_agrees_def)

lemma app_user_agrees:
  assumes ok: "app_agrees a" and can: "user_can (app_tree h now a) e"
  shows "app_agrees (app_do h now e a)"
proof (cases e)
  case (App_sh e')
  then have "e' \<notin> range Sh_caught"
    using can by (auto simp: app_tree_def App_tree_can user_can_map split: option.splits sum.splits)
  then show ?thesis
    using App_sh app_navigate_agrees [OF ok] app_retry_agrees shell_do_agrees [OF ok] by (cases e') (auto simp: app_do_def)
next
  case (App_pg e')
  then obtain pg n where pg: "app_page a = Some pg" "page_tree h now pg = Inr n" "user_can n e'"
    using can by (auto simp: app_tree_def App_tree_can user_can_map split: option.splits sum.splits) metis
  then have "app_agrees (a\<lparr>app_page := Some (page_do h e' pg)\<rparr>)"
    using app_page_agrees [OF ok pg(1)] page_do_synced by blast
  then show ?thesis
    using App_pg pg(1) app_navigate_agrees [OF ok] by (auto simp: app_do_def split: page_event.splits dv_event.splits)
qed

lemma fetchData_done_keeps:
  "sh_boundary (fetchData_done r s) = sh_boundary s" "sh_currentView (fetchData_done r s) = sh_currentView s"
  by (simp_all add: fetchData_done_def Let_def)

lemma app_fetched_agrees: "app_agrees a \<Longrightarrow> app_agrees (app_fetched h i r a)"
  using page_props_synced
  by (cases "app_fetches a ! i")
    (auto simp: app_agrees_def app_fetched_def do_reply_def fetchData_done_keeps split: option.splits)

lemma app_answered_agrees:
  assumes "app_agrees (a\<lparr>app_page := Some pg\<rparr>)"
  shows "app_agrees (app_answered refresh pg a)"
  using assms shell_do_agrees [OF assms] by (simp add: app_answered_def Let_def)

lemma app_reach_settled: "app_reach h saved a \<Longrightarrow> app_settled h a"
proof (induction rule: app_reach.induct)
  case (start now)
  then show ?case
    using page_mount_synced page_mount_renders
    by (auto simp: app_settled_def app_agrees_def app_start_def sh_start_def fetchData_def sh_init_def apply_theme_def)
next
  case (step a a')
  then have ok: "app_agrees a" by (simp add: app_settled_def)
  from step.hyps(2) show ?case
  proof (cases rule: app_step.cases)
    case (user now e)
    then show ?thesis using ok by (auto intro: app_catch_settled app_user_agrees)
  next
    case poll
    then show ?thesis using step.IH shell_do_agrees [OF ok] by (auto simp: app_settled_def)
  next
    case (fetched i r)
    then show ?thesis using ok by (auto intro: app_catch_settled app_fetched_agrees)
  next
    case tick
    have "app_agrees (a\<lparr>app_page := map_option page_timer (app_page a)\<rparr>)"
      using ok page_timer_synced by (auto simp: app_agrees_def split: option.splits)
    with tick show ?thesis by (auto intro: app_catch_settled)
  next
    case (answer pg i r pg')
    then have "app_agrees (a\<lparr>app_page := Some pg'\<rparr>)"
      using app_page_agrees [OF ok answer(2)] page_answer_synced by blast
    with answer show ?thesis by (auto intro: app_catch_settled app_answered_agrees)
  qed
qed

section \<open>The page comes to rest\<close>

definition page_pending :: "page \<Rightarrow> nat" where
  "page_pending pg =
     (case pg of
        Pg_dashboard c \<Rightarrow> length (snd c) | Pg_collections c \<Rightarrow> length (snd c) | Pg_timeseries c \<Rightarrow> length (snd c)
      | Pg_buckets c \<Rightarrow> length (snd c) | Pg_queues c \<Rightarrow> length (snd c) | Pg_pubsub c \<Rightarrow> length (snd c)
      | Pg_query c \<Rightarrow> length (snd c) | Pg_vector c \<Rightarrow> length (snd c) | Pg_search c \<Rightarrow> length (snd c)
      | Pg_maintenance c \<Rightarrow> length (snd c))"

text \<open>How many replies the continuations of a page can still receive, those they lead to included.\<close>

definition page_load :: "page \<Rightarrow> nat" where
  "page_load pg =
     (case pg of
        Pg_collections c \<Rightarrow> sum_list (map cv_weight (snd c))
      | Pg_timeseries c \<Rightarrow> sum_list (map tv_weight (snd c))
      | Pg_buckets c \<Rightarrow> sum_list (map bv_weight (snd c))
      | Pg_queues c \<Rightarrow> sum_list (map qv_weight (snd c))
      | Pg_pubsub c \<Rightarrow> sum_list (map ps_weight (snd c))
      | _ \<Rightarrow> page_pending pg)"

text \<open>The flags that show a spinner or lock a button.\<close>

definition page_busy :: "page \<Rightarrow> bool" where
  "page_busy pg =
     (case pg of
        Pg_dashboard c \<Rightarrow> False
      | Pg_collections c \<Rightarrow> cv_loading (fst c)
      | Pg_timeseries c \<Rightarrow> tv_loading (fst c)
      | Pg_buckets c \<Rightarrow> bv_loading (fst c)
      | Pg_queues c \<Rightarrow> qv_loading (fst c)
      | Pg_pubsub c \<Rightarrow> ps_loading (fst c)
      | Pg_query c \<Rightarrow> qc_loading (fst c)
      | Pg_vector c \<Rightarrow> vp_loading (fst c)
      | Pg_search c \<Rightarrow> sp_loading (fst c)
      | Pg_maintenance c \<Rightarrow> mv_loadingCheck (fst c) \<or> mv_loadingCheckpoint (fst c) \<or> mv_loadingBackup (fst c))"

text \<open>A run of \<open>n\<close> replies, with no event between them.\<close>

inductive page_answers :: "host \<Rightarrow> nat \<Rightarrow> page \<Rightarrow> page \<Rightarrow> bool" for h where
  none: "page_answers h 0 pg pg"
| more: "page_answer h i r pg = Some pg' \<Longrightarrow> page_answers h n pg' pg'' \<Longrightarrow> page_answers h (Suc n) pg pg''"

lemmas drain_spends =
  cv_drain.reply_spends tv_drain.reply_spends bv_drain.reply_spends qv_drain.reply_spends ps_drain.reply_spends
  dv_drain.reply_spends [unfolded sum_list_triv, simplified] qc_drain.reply_spends [unfolded sum_list_triv, simplified] vp_drain.reply_spends [unfolded sum_list_triv, simplified]
  sp_drain.reply_spends [unfolded sum_list_triv, simplified] mv_drain.reply_spends [unfolded sum_list_triv, simplified]

lemma page_answer_spends: "page_answer h i r pg = Some pg' \<Longrightarrow> page_load pg' < page_load pg"
  by (cases pg) (auto simp: page_answer_def page_load_def page_pending_def split: page_reply.splits dest: drain_spends)

lemma page_answer_try:
  "try_reply (\<lambda>_ _. True) dv_resume i u d = Some d' \<Longrightarrow> page_answer h i Re_dashboard (Pg_dashboard d) = Some (Pg_dashboard d')"
  "try_reply cv_fit cv_resume i r1 c1 = Some c1' \<Longrightarrow> page_answer h i (Re_collections r1) (Pg_collections c1) = Some (Pg_collections c1')"
  "try_reply tv_fit (tv_resume (h_tz h)) i r2 c2 = Some c2' \<Longrightarrow>
     page_answer h i (Re_timeseries r2) (Pg_timeseries c2) = Some (Pg_timeseries c2')"
  "try_reply bv_fit bv_resume i r3 c3 = Some c3' \<Longrightarrow> page_answer h i (Re_buckets r3) (Pg_buckets c3) = Some (Pg_buckets c3')"
  "try_reply qv_fit qv_resume i r4 c4 = Some c4' \<Longrightarrow> page_answer h i (Re_queues r4) (Pg_queues c4) = Some (Pg_queues c4')"
  "try_reply ps_fit ps_resume i r5 c5 = Some c5' \<Longrightarrow> page_answer h i (Re_pubsub r5) (Pg_pubsub c5) = Some (Pg_pubsub c5')"
  "try_reply (\<lambda>_ _. True) qc_resume i r6 c6 = Some c6' \<Longrightarrow> page_answer h i (Re_query r6) (Pg_query c6) = Some (Pg_query c6')"
  "try_reply (\<lambda>_ _. True) vp_resume i r7 c7 = Some c7' \<Longrightarrow> page_answer h i (Re_vector r7) (Pg_vector c7) = Some (Pg_vector c7')"
  "try_reply (\<lambda>_ _. True) sp_resume i r8 c8 = Some c8' \<Longrightarrow> page_answer h i (Re_search r8) (Pg_search c8) = Some (Pg_search c8')"
  "try_reply mv_fit mv_resume i r9 c9 = Some c9' \<Longrightarrow>
     page_answer h i (Re_maintenance r9) (Pg_maintenance c9) = Some (Pg_maintenance c9')"
  by (simp_all add: page_answer_def)

lemma answer_via:
  "\<exists>r c'. try_reply fit resume 0 r c = Some c' \<Longrightarrow>
   (\<And>r c'. try_reply fit resume 0 r c = Some c' \<Longrightarrow> page_answer h 0 (re r) pg = Some (up c')) \<Longrightarrow>
   \<exists>i r pg'. page_answer h i r pg = Some pg'"
  by blast

lemma page_can_answer: "page_pending pg \<noteq> 0 \<Longrightarrow> \<exists>i r pg'. page_answer h i r pg = Some pg'"
  by (cases pg)
    (auto simp: page_pending_def
      intro: answer_via [OF dv_drain.can_reply page_answer_try(1)] answer_via [OF cv_drain.can_reply page_answer_try(2)]
        answer_via [OF tv_drain.can_reply page_answer_try(3)] answer_via [OF bv_drain.can_reply page_answer_try(4)]
        answer_via [OF qv_drain.can_reply page_answer_try(5)] answer_via [OF ps_drain.can_reply page_answer_try(6)]
        answer_via [OF qc_drain.can_reply page_answer_try(7)] answer_via [OF vp_drain.can_reply page_answer_try(8)]
        answer_via [OF sp_drain.can_reply page_answer_try(9)] answer_via [OF mv_drain.can_reply page_answer_try(10)])

lemma page_answers_bound: "page_answers h n pg pg' \<Longrightarrow> n + page_load pg' \<le> page_load pg"
  by (induction rule: page_answers.induct) (auto dest: page_answer_spends)

lemma page_answers_ok: "page_answers h n pg pg' \<Longrightarrow> page_ok h pg \<Longrightarrow> page_ok h pg'"
  by (induction rule: page_answers.induct) (auto dest: page_answer_ok)

lemma page_drains: "\<exists>n pg'. page_answers h n pg pg' \<and> page_pending pg' = 0"
proof (induction "page_load pg" arbitrary: pg rule: less_induct)
  case less
  show ?case
  proof (cases "page_pending pg = 0")
    case False
    then obtain i r pg' where step: "page_answer h i r pg = Some pg'" using page_can_answer by blast
    then obtain n pg'' where "page_answers h n pg' pg''" "page_pending pg'' = 0"
      using less page_answer_spends by blast
    then show ?thesis using page_answers.more [OF step] by blast
  qed (use page_answers.none in blast)
qed

text \<open>A page with nothing pending shows no spinner and locks no button.\<close>

lemma page_at_rest: "page_ok h pg \<Longrightarrow> page_pending pg = 0 \<Longrightarrow> \<not> page_busy pg"
proof (cases pg)
  case (Pg_collections c)
  assume "page_ok h pg" and "page_pending pg = 0"
  then show ?thesis
    using Pg_collections cv.busy_iff_latest_pending [of c] by (simp add: page_ok_def page_pending_def page_busy_def List.map_filter_def)
next
  case (Pg_timeseries c)
  assume "page_ok h pg" and "page_pending pg = 0"
  then show ?thesis
    using Pg_timeseries tv.busy_iff_latest_pending [where c = c]
    by (auto simp: page_ok_def page_pending_def page_busy_def List.map_filter_def)
next
  case (Pg_maintenance c)
  assume "page_ok h pg" and "page_pending pg = 0"
  then show ?thesis
    using Pg_maintenance mv_check.flight_count [of c] mv_cp.flight_count [of c] mv_bk.flight_count [of c]
    by (auto simp: page_ok_def page_pending_def page_busy_def split: if_splits)
qed (auto simp: page_ok_def page_pending_def page_busy_def
    dest: bv_flag.busy_backed qv_flag.busy_backed psf.flight_count qc.flight_count vp.flight_count sp.flight_count)

section \<open>Properties\<close>

text \<open>
  C3.  The composition refines its parts: in every run of the whole Studio, whatever the
  interleaving of clicks, polls, timers and answers, the shell is in a state it reaches alone, and
  so is the page it shows.
\<close>

theorem studio_pages_run_alone:
  assumes "app_reach h saved a"
  shows "sh_reach saved (app_shell a, app_fetches a) \<and> (\<forall>pg. app_page a = Some pg \<longrightarrow> page_ok h pg)"
  using app_reach_ok [OF assms] by (simp add: pages_ok_def)

text \<open>
  C1.  What the user sees is one thing: the page of the current view, rendered without an error
  from the statistics and the catalog the shell holds at that moment, or the panel of the error
  boundary.
\<close>

theorem studio_page_agrees:
  assumes "app_reach h saved a"
  shows "(app_page a = None \<longleftrightarrow> sh_boundary (app_shell a) \<noteq> None)
    \<and> (\<forall>pg. app_page a = Some pg \<longrightarrow>
         page_view pg = sh_currentView (app_shell a) \<and> page_synced (app_shell a) pg \<and> (\<exists>n. page_tree h now pg = Inr n))"
  using app_reach_settled [OF assms] by (auto simp: app_settled_def app_agrees_def split: option.splits)

text \<open>
  C9.  On the collections page the selected collection is empty or one the shell's own catalog
  lists, also after a poll that dropped it.
\<close>

theorem studio_selection_listed:
  assumes "app_reach h saved a" and "app_page a = Some (Pg_collections c)"
  shows "cv_selectedCollection (fst c) = [] \<or> cv_selectedCollection (fst c) \<in> co_name ` set (shell_collections (app_shell a))"
proof -
  have "cv_reach c" using app_reach_ok [OF assms(1)] assms(2) by (simp add: pages_ok_def page_ok_def)
  then have "cv_listed (fst c)" by (rule cv_sel.reach_inv)
  moreover have "cv_collections (fst c) = shell_collections (app_shell a)"
    using app_reach_settled [OF assms(1)] assms(2) by (simp add: app_settled_def app_agrees_def page_synced_def)
  ultimately show ?thesis by (simp add: cv_listed_def)
qed



text \<open>
  C2.  No spinner hangs. Whatever page the Studio shows, the replies it can still receive without
  a new event are bounded by the weight of its continuations; there is a run of replies after
  which nothing is pending, and after every such run no loading flag is up.
\<close>

theorem studio_comes_to_rest:
  assumes "app_reach h saved a" and "app_page a = Some pg"
  shows "(\<exists>n pg'. page_answers h n pg pg' \<and> page_pending pg' = 0)
    \<and> (\<forall>n pg'. page_answers h n pg pg' \<longrightarrow> n \<le> page_load pg \<and> (page_pending pg' = 0 \<longrightarrow> \<not> page_busy pg'))"
proof -
  have ok: "page_ok h pg" using app_reach_ok [OF assms(1)] assms(2) by (simp add: pages_ok_def)
  show ?thesis using page_drains page_answers_bound page_answers_ok [OF _ ok] page_at_rest by (metis add_leE)
qed

section \<open>A concrete run\<close>

text \<open>The catalog arrives, the user opens the query console and runs a query, the server answers without a document list.\<close>

definition ex_host :: host where
  "ex_host = \<lparr>h_tz = ex_zone, h_localeTime = id, h_localeString = id, h_localeNum = int_to_string, h_origin = []\<rparr>"

definition ex_fetch :: fetch_result where
  "ex_fetch = \<lparr>fr_stats = Inr None, fr_catalog = Inr ex_catalog, fr_series = Inr []\<rparr>"

definition ex_polled :: app where
  "ex_polled = app_catch ex_host (app_fetched ex_host 0 ex_fetch (app_start ex_host 0 None))"

definition ex_at :: "ViewType \<Rightarrow> app" where
  "ex_at v = app_catch ex_host (app_do ex_host 0 (App_sh (Sh_select v)) ex_polled)"

definition ex_running :: app where
  "ex_running = app_catch ex_host (app_do ex_host 0 (App_pg (Ev_query (Qc_execute False))) (ex_at View_query))"

definition ex_no_documents :: page_reply where
  "ex_no_documents = Re_query (Inr \<lparr>qr_documents = None, qr_count = 0, qr_execution_plan = None, qr_duration_ms = 0\<rparr>)"

definition ex_crashed :: app where
  "ex_crashed =
     app_catch ex_host (app_answered False (the (page_answer ex_host 0 ex_no_documents (the (app_page ex_running)))) ex_running)"

lemma ex_at_reach: "app_reach ex_host None (ex_at v)"
proof -
  have "0 < length (app_fetches (app_start ex_host 0 None))"
    by (simp add: app_start_def sh_start_def fetchData_def)
  then have "app_reach ex_host None ex_polled"
    unfolding ex_polled_def by (rule app_reach.step [OF app_reach.start app_step.fetched])
  then show ?thesis
    unfolding ex_at_def by (rule app_reach.step) (rule app_step.user, simp add: app_tree_def App_tree_can)
qed

lemma ex_query_page: "app_page (ex_at View_query) = Some (Pg_query (qc_init (Some ex_catalog), []))"
  by code_simp

lemma ex_query_boundary: "sh_boundary (app_shell (ex_at View_query)) = None"
  by code_simp

lemma ex_crashed_reach: "app_reach ex_host None ex_crashed"
proof -
  let ?pg = "Pg_query (qc_init (Some ex_catalog), [])"
  have "\<exists>n. qc_render (qc_init (Some ex_catalog)) = Inr n \<and> user_can n (Qc_execute False)"
    using qc_can_init by (simp add: qc_can_def)
  then have "user_can (app_tree ex_host 0 (ex_at View_query)) (App_pg (Ev_query (Qc_execute False)))"
    by (auto simp: app_tree_def App_tree_can ex_query_page ex_query_boundary page_tree_def user_can_map)
  then have run: "app_reach ex_host None ex_running"
    unfolding ex_running_def by (rule app_reach.step [OF ex_at_reach app_step.user])
  have pg: "app_page ex_running = Some (Pg_query ex_console)" by code_simp
  have "\<exists>pg'. page_answer ex_host 0 ex_no_documents (Pg_query ex_console) = Some pg'"
    by (simp add: page_answer_def ex_no_documents_def try_reply_def ex_console_def do_event_def case_prod_beta
        qc_init_def handleExecute_def ex_catalog_def first_name_def ex_object_def Let_def)
  then obtain pg' where ans: "page_answer ex_host 0 ex_no_documents (Pg_query ex_console) = Some pg'" by blast
  have "page_refreshes 0 (Pg_query ex_console) = False" by (simp add: page_refreshes_def)
  then show ?thesis
    using app_step.answer [OF pg ans] unfolding ex_crashed_def pg option.sel ans by (intro app_reach.step [OF run]) simp
qed

theorem studio_pages_run_alone_witness: "page_ok ex_host (Pg_query (qc_init (Some ex_catalog), []))"
  using studio_pages_run_alone [OF ex_at_reach [of View_query]] by (simp add: ex_query_page)

theorem studio_page_agrees_witness:
  "page_synced (app_shell (ex_at View_query)) (Pg_query (qc_init (Some ex_catalog), []))"
  using studio_page_agrees [OF ex_at_reach [of View_query]] by (simp add: ex_query_page)

theorem studio_selection_listed_witness:
  "cv_selectedCollection (fst ex_open) \<in> co_name ` set (shell_collections (app_shell (ex_at View_collections)))"
proof -
  have "app_page (ex_at View_collections) = Some (Pg_collections ex_open)" by code_simp
  moreover have "cv_selectedCollection (fst ex_open) = ''a''" by code_simp
  ultimately show ?thesis using studio_selection_listed [OF ex_at_reach] by fastforce
qed


theorem studio_comes_to_rest_witness:
  "\<exists>n pg'. n \<le> 1 \<and> page_answers ex_host n (Pg_collections ex_open) pg' \<and> page_pending pg' = 0 \<and> \<not> page_busy pg'"
proof -
  have "app_page (ex_at View_collections) = Some (Pg_collections ex_open)" by code_simp
  moreover have "page_load (Pg_collections ex_open) = 1" by code_simp
  ultimately show ?thesis using studio_comes_to_rest [OF ex_at_reach] by metis
qed

end
