(* ===== verification/Telemetry.thy ===== *)
theory Telemetry
  imports Ui
begin

text \<open>
  The observability dashboard (\<open>dashboard/frontend/src\<close>): the interfaces of \<open>types.ts\<close>, the
  chart of \<open>components/Sparkline.tsx\<close> and \<open>App.tsx\<close> with its event stream, its history buffers and its
  panels.  An event source is a number; the browser delivers events only for sources that are
  not closed.
\<close>

section \<open>Interfaces\<close>

record PeerStatus =
  peer_addr :: string
  peer_status :: string
  peer_latency_us :: int
  peer_is_local :: bool

record ClusterStatus =
  cl_enabled :: bool
  cl_node_id :: string
  cl_addr :: string
  cl_tls_enabled :: bool
  cl_mtls_enforced :: bool
  cl_auth_enforced :: bool
  cl_total_nodes :: int
  cl_virtual_nodes :: int
  cl_active_conns :: int
  cl_peers :: "PeerStatus list option"

record RealtimeTelemetry =
  tm_timestamp :: int
  tm_page_count :: int
  tm_allocated_bytes :: int
  tm_cache_hits :: int
  tm_cache_misses :: int
  tm_cache_hit_rate :: rat
  tm_last_lsn :: int
  tm_last_txn_id :: int
  tm_read_only :: bool
  tm_uptime_seconds :: int
  tm_qps :: rat
  tm_read_iops :: rat
  tm_write_iops :: rat
  tm_queue_count :: int
  tm_queue_ready_tasks :: int
  tm_queue_inflight_tasks :: int
  tm_queue_dlq_tasks :: int
  tm_pubsub_events_count :: int
  tm_pubsub_delivered_count :: "int option"
  tm_pubsub_active_topics :: "int option"
  tm_pubsub_active_subs :: "int option"
  tm_latency_p50_us :: "rat option"
  tm_latency_p99_us :: "rat option"
  tm_cluster :: "ClusterStatus option"

section \<open>Sparkline\<close>

definition list_min :: "rat list \<Rightarrow> rat" where
  "list_min xs = foldr min xs (hd xs)"

definition list_max :: "rat list \<Rightarrow> rat \<Rightarrow> rat" where
  "list_max xs z = foldr max xs z"

record spark_props =
  sk_data :: "rat list"
  sk_color :: string
  sk_fillColor :: string
  sk_height :: rat
  sk_width :: rat
  sk_min :: "rat option"
  sk_max :: "rat option"

definition sparkline :: "rat list \<Rightarrow> string \<Rightarrow> string \<Rightarrow> spark_props" where
  "sparkline xs color fillColor =
     \<lparr>sk_data = xs, sk_color = color, sk_fillColor = fillColor, sk_height = 50, sk_width = 240, sk_min = None, sk_max = None\<rparr>"

definition spark_min :: "spark_props \<Rightarrow> rat" where
  "spark_min p = (case sk_min p of Some m \<Rightarrow> m | None \<Rightarrow> list_min (sk_data p))"

definition spark_max :: "spark_props \<Rightarrow> rat" where
  "spark_max p = (case sk_max p of Some m \<Rightarrow> m | None \<Rightarrow> list_max (sk_data p) (spark_min p + 1))"

definition spark_range :: "spark_props \<Rightarrow> rat" where
  "spark_range p = (if spark_max p - spark_min p = 0 then 1 else spark_max p - spark_min p)"

definition spark_point :: "spark_props \<Rightarrow> nat \<Rightarrow> rat \<Rightarrow> rat \<times> rat" where
  "spark_point p i val =
     (of_nat i / (of_nat (length (sk_data p)) - 1) * sk_width p,
      sk_height p - (val - spark_min p) / spark_range p * (sk_height p - 8) - 4)"

definition spark_points :: "spark_props \<Rightarrow> (rat \<times> rat) list" where
  "spark_points p = map (\<lambda>(i, v). spark_point p i v) (enumerate 0 (sk_data p))"

definition point_string :: "rat \<times> rat \<Rightarrow> string" where
  "point_string q = toFixed 1 (fst q) @ '','' @ toFixed 1 (snd q)"

definition num :: "rat \<Rightarrow> string" where
  "num x = num_to_string (Fin x)"

definition Sparkline :: "spark_props \<Rightarrow> 'e node" where
  "Sparkline p =
     (if length (sk_data p) < 2 then El ''div'' [] [Txt ''Collecting samples...'']
      else
        (let points = join '' L '' (map point_string (spark_points p));
             pathD = ''M '' @ points;
             fillD = ''M 0,'' @ num (sk_height p) @ '' L '' @ points @ '' L '' @ num (sk_width p) @ '','' @ num (sk_height p) @ '' Z''
         in El ''svg'' [Attr ''viewBox'' (''0 0 '' @ num (sk_width p) @ '' '' @ num (sk_height p))]
              ((if sk_fillColor p \<noteq> [] then [El ''path'' [Attr ''d'' fillD, Attr ''fill'' (sk_fillColor p)] []] else []) @
               [El ''path'' [Attr ''d'' pathD, Attr ''fill'' ''none'', Attr ''stroke'' (sk_color p), Attr ''strokeWidth'' ''2'',
                  Attr ''strokeLinecap'' ''round'', Attr ''strokeLinejoin'' ''round''] []])))"

lemma list_min_le: "v \<in> set xs \<Longrightarrow> list_min xs \<le> v"
proof -
  have "v \<in> set xs \<Longrightarrow> foldr min xs z \<le> v" for z
    by (induction xs) (auto simp: min_le_iff_disj)
  then show "v \<in> set xs \<Longrightarrow> list_min xs \<le> v" by (simp add: list_min_def)
qed

lemma list_max_ge: "v \<in> set xs \<Longrightarrow> v \<le> list_max xs z" "z \<le> list_max xs z"
  by (induction xs) (auto simp: list_max_def le_max_iff_disj)

lemma spark_range_pos:
  assumes "sk_min p = None \<and> sk_max p = None \<or> spark_min p < spark_max p"
  shows "0 < spark_range p \<and> spark_range p = spark_max p - spark_min p"
proof -
  have "spark_min p < spark_max p"
    using assms list_max_ge(2) [where xs = "sk_data p" and z = "spark_min p + 1"] by (auto simp: spark_max_def)
  then show ?thesis by (simp add: spark_range_def)
qed

lemma unit_scale: "0 \<le> q \<Longrightarrow> q \<le> 1 \<Longrightarrow> 0 \<le> h \<Longrightarrow> 0 \<le> q * h \<and> q * h \<le> h" for q h :: rat
  by (simp add: mult_left_le_one_le)

text \<open>
  C13.  The chart stays inside its box: every point of a line of two or more samples lies within
  the width and at least 4 from the upper and the lower edge, when the scale is the automatic one,
  or when a given scale holds all the samples.
\<close>

theorem sparkline_in_box:
  assumes "2 \<le> length (sk_data p)" and "8 \<le> sk_height p" and "0 \<le> sk_width p"
    and "sk_min p = None \<and> sk_max p = None \<or> (spark_min p < spark_max p \<and> (\<forall>v \<in> set (sk_data p). spark_min p \<le> v \<and> v \<le> spark_max p))"
    and "i < length (sk_data p)"
  shows "let (x, y) = spark_points p ! i in 0 \<le> x \<and> x \<le> sk_width p \<and> 4 \<le> y \<and> y \<le> sk_height p - 4"
proof -
  let ?n = "of_nat (length (sk_data p)) - 1 :: rat" and ?v = "sk_data p ! i" and ?h = "sk_height p - 8"
  have pt: "spark_points p ! i = spark_point p i ?v"
    using assms(5) by (simp add: spark_points_def nth_enumerate_eq)
  have n: "0 < ?n" using assms(1) by (simp add: of_nat_diff [symmetric])
  have "of_nat i \<le> ?n" using assms(5) by (simp add: le_diff_eq of_nat_Suc [symmetric] Suc_le_eq del: of_nat_Suc)
  then have "0 \<le> of_nat i / ?n" "of_nat i / ?n \<le> 1" using n by (simp_all add: divide_simps)
  then have x: "0 \<le> of_nat i / ?n * sk_width p \<and> of_nat i / ?n * sk_width p \<le> sk_width p"
    using assms(3) by (rule unit_scale)
  have v: "spark_min p \<le> ?v" "?v \<le> spark_max p"
    using assms(4,5) list_min_le [of ?v "sk_data p"] list_max_ge(1) [of ?v "sk_data p"]
    by (auto simp: spark_min_def spark_max_def)
  have r: "0 < spark_range p" "spark_range p = spark_max p - spark_min p" using spark_range_pos assms(4) by auto
  define q where "q = (?v - spark_min p) / spark_range p"
  have "0 \<le> q" "q \<le> 1" using v r by (simp_all add: q_def divide_simps)
  then have "0 \<le> q * ?h \<and> q * ?h \<le> ?h" using assms(2) by (intro unit_scale) simp_all
  with x show ?thesis unfolding pt spark_point_def q_def [symmetric] by simp
qed

theorem sparkline_in_box_witness:
  "let (x, y) = spark_points (sparkline [3, 7, 5] ''c'' ''f'') ! 1 in 0 \<le> x \<and> x \<le> 240 \<and> 4 \<le> y \<and> y \<le> 46"
  using sparkline_in_box [of "sparkline [3, 7, 5] ''c'' ''f''" 1] by (simp add: sparkline_def)

section \<open>State and handlers of the dashboard\<close>

datatype Tab = Overview | Engine | Queues | Cluster | Prometheus

record probe_result =
  pr_p50 :: rat
  pr_p99 :: rat
  pr_ops :: rat

record da_state =
  da_dark :: bool
  da_activeTab :: Tab
  da_telemetry :: "RealtimeTelemetry option"
  da_connected :: bool
  da_copied :: bool
  da_benchmarking :: bool
  da_benchmarkResult :: "probe_result option"
  da_qpsHistory :: "rat list"
  da_cacheHitHistory :: "rat list"
  da_allocatedMbHistory :: "rat list"
  da_queueReadyHistory :: "rat list"
  da_pubsubHistory :: "rat list"
  da_eventSource :: "nat option"
  da_open :: "nat list"
  da_nextSource :: nat
  da_mounted :: bool
  da_clipboard :: "string option"

definition da_init :: da_state where
  "da_init =
     \<lparr>da_dark = True, da_activeTab = Overview, da_telemetry = None, da_connected = False, da_copied = False,
      da_benchmarking = False, da_benchmarkResult = None, da_qpsHistory = [], da_cacheHitHistory = [],
      da_allocatedMbHistory = [], da_queueReadyHistory = [], da_pubsubHistory = [], da_eventSource = None, da_open = [],
      da_nextSource = 0, da_mounted = True, da_clipboard = None\<rparr>"

definition connectSSE :: "da_state \<Rightarrow> da_state" where
  "connectSSE s =
     s\<lparr>da_eventSource := Some (da_nextSource s), da_open := da_open s @ [da_nextSource s], da_nextSource := Suc (da_nextSource s)\<rparr>"

definition close_source :: "da_state \<Rightarrow> da_state" where
  "close_source s =
     (case da_eventSource s of None \<Rightarrow> s | Some i \<Rightarrow> s\<lparr>da_open := filter (\<lambda>j. j \<noteq> i) (da_open s)\<rparr>)"

text \<open>\<open>[...prev.slice(-29), x]\<close>\<close>

definition push_history :: "rat list \<Rightarrow> rat \<Rightarrow> rat list" where
  "push_history prev x = last_n 29 prev @ [x]"

definition onmessage :: "RealtimeTelemetry outcome \<Rightarrow> da_state \<Rightarrow> da_state" where
  "onmessage r s =
     (case r of
        Inl _ \<Rightarrow> s
      | Inr d \<Rightarrow>
          (let sizeMB = of_int (tm_page_count d * 16) / 1024; hitRate = tm_cache_hit_rate d * 100
           in s\<lparr>da_telemetry := Some d,
                da_qpsHistory := push_history (da_qpsHistory s) (tm_qps d),
                da_cacheHitHistory := push_history (da_cacheHitHistory s) hitRate,
                da_allocatedMbHistory := push_history (da_allocatedMbHistory s) sizeMB,
                da_queueReadyHistory := push_history (da_queueReadyHistory s) (of_int (tm_queue_ready_tasks d)),
                da_pubsubHistory := push_history (da_pubsubHistory s) (of_int (tm_pubsub_events_count d))\<rparr>))"

datatype da_pending = Da_reconnect | Da_probing | Da_uncopy

datatype da_reply = Da_tick | Da_probed "probe_result outcome"

fun da_fit :: "da_pending \<Rightarrow> da_reply \<Rightarrow> bool" where
  "da_fit Da_reconnect Da_tick = True"
| "da_fit Da_uncopy Da_tick = True"
| "da_fit Da_probing (Da_probed _) = True"
| "da_fit _ _ = False"

datatype da_event =
    Da_onopen nat
  | Da_onmessage nat "RealtimeTelemetry outcome"
  | Da_onerror nat
  | Da_unmount
  | Da_setTab Tab
  | Da_toggleTheme
  | Da_probe
  | Da_dismiss
  | Da_copy

definition onerror :: "da_state \<Rightarrow> da_state \<times> da_pending list" where
  "onerror s = (close_source (s\<lparr>da_connected := False\<rparr>), [Da_reconnect])"

definition runBenchmarkProbe :: "da_state \<Rightarrow> da_state \<times> da_pending list" where
  "runBenchmarkProbe s = (s\<lparr>da_benchmarking := True\<rparr>, [Da_probing])"

definition runBenchmarkProbe_done :: "probe_result outcome \<Rightarrow> da_state \<Rightarrow> da_state" where
  "runBenchmarkProbe_done r s =
     (case r of
        Inr d \<Rightarrow> s\<lparr>da_benchmarkResult := Some d, da_benchmarking := False\<rparr>
      | Inl _ \<Rightarrow> s\<lparr>da_benchmarking := False\<rparr>)"

definition da_handleCopyMetrics :: "string \<Rightarrow> da_state \<Rightarrow> da_state \<times> da_pending list" where
  "da_handleCopyMetrics origin s = (s\<lparr>da_clipboard := Some (origin @ ''/metrics''), da_copied := True\<rparr>, [Da_uncopy])"

definition da_start :: "da_state \<times> da_pending list" where
  "da_start = (connectSSE da_init, [])"

fun da_handle :: "string \<Rightarrow> da_event \<Rightarrow> da_state \<Rightarrow> da_state \<times> da_pending list" where
  "da_handle origin (Da_onopen _) s = (s\<lparr>da_connected := True\<rparr>, [])"
| "da_handle origin (Da_onmessage _ r) s = (onmessage r s, [])"
| "da_handle origin (Da_onerror _) s = onerror s"
| "da_handle origin Da_unmount s = ((close_source s)\<lparr>da_mounted := False\<rparr>, [])"
| "da_handle origin (Da_setTab t) s = (s\<lparr>da_activeTab := t\<rparr>, [])"
| "da_handle origin Da_toggleTheme s = (s\<lparr>da_dark := \<not> da_dark s\<rparr>, [])"
| "da_handle origin Da_probe s = runBenchmarkProbe s"
| "da_handle origin Da_dismiss s = (s\<lparr>da_benchmarkResult := None\<rparr>, [])"
| "da_handle origin Da_copy s = da_handleCopyMetrics origin s"

fun da_resume :: "da_pending \<Rightarrow> da_reply \<Rightarrow> da_state \<Rightarrow> da_state \<times> da_pending list" where
  "da_resume Da_reconnect Da_tick s = (connectSSE s, [])"
| "da_resume Da_uncopy Da_tick s = (s\<lparr>da_copied := False\<rparr>, [])"
| "da_resume Da_probing (Da_probed r) s = (runBenchmarkProbe_done r s, [])"
| "da_resume _ _ s = (s, [])"

section \<open>What the dashboard derives\<close>

definition tm_stat :: "(RealtimeTelemetry \<Rightarrow> int) \<Rightarrow> da_state \<Rightarrow> int" where
  "tm_stat f s = (case da_telemetry s of None \<Rightarrow> 0 | Some t \<Rightarrow> f t)"

definition tm_opt :: "(RealtimeTelemetry \<Rightarrow> int option) \<Rightarrow> da_state \<Rightarrow> int" where
  "tm_opt f s = (case Option.bind (da_telemetry s) f of None \<Rightarrow> 0 | Some n \<Rightarrow> n)"

definition da_qps :: "da_state \<Rightarrow> rat" where
  "da_qps s = (case da_telemetry s of None \<Rightarrow> 0 | Some t \<Rightarrow> tm_qps t)"

definition da_sizeMB :: "da_state \<Rightarrow> string" where
  "da_sizeMB s = toFixed 2 (of_int (tm_stat tm_page_count s * 16) / 1024)"

definition da_hitRate :: "da_state \<Rightarrow> string" where
  "da_hitRate s = (case da_telemetry s of Some t \<Rightarrow> toFixed 1 (tm_cache_hit_rate t * 100) | None \<Rightarrow> ''100.0'')"

definition da_cluster :: "da_state \<Rightarrow> ClusterStatus option" where
  "da_cluster s = Option.bind (da_telemetry s) tm_cluster"

definition clusterPeers :: "da_state \<Rightarrow> PeerStatus list" where
  "clusterPeers s = or_list (Option.bind (da_cluster s) cl_peers)"

definition is_online :: "PeerStatus \<Rightarrow> bool" where
  "is_online p = str_includes (peer_status p) ''online''"

definition onlinePeers :: "da_state \<Rightarrow> int" where
  "onlinePeers s = int (length (filter is_online (clusterPeers s)))"

definition unreachablePeers :: "da_state \<Rightarrow> int" where
  "unreachablePeers s = int (length (clusterPeers s)) - onlinePeers s"

definition cluster_on :: "da_state \<Rightarrow> bool" where
  "cluster_on s = (case da_cluster s of None \<Rightarrow> False | Some c \<Rightarrow> cl_enabled c)"

definition clusterHealth :: "da_state \<Rightarrow> string" where
  "clusterHealth s =
     (if \<not> cluster_on s then ''Standalone'' else if unreachablePeers s > 0 then ''Degraded'' else ''Healthy'')"

definition clusterHealthClass :: "da_state \<Rightarrow> string" where
  "clusterHealthClass s =
     (if clusterHealth s = ''Healthy'' then ''text-emerald-400 bg-emerald-500/10 border-emerald-500/20''
      else if clusterHealth s = ''Degraded'' then ''text-amber-400 bg-amber-500/10 border-amber-500/20''
      else ''text-zinc-400 bg-zinc-800 border-zinc-700'')"

section \<open>Rendering\<close>

text \<open>\<open>localeNum\<close> stands for \<open>toLocaleString\<close> of a number, \<open>origin\<close> and \<open>host\<close> for the address of the page.\<close>

definition dot :: string where
  "dot = [CHR 0xC2, CHR 0xB7]"

definition micro :: string where
  "micro = [CHR 0xC2, CHR 0xB5] @ ''s''"

definition da_header :: "da_state \<Rightarrow> da_event node" where
  "da_header s =
     El ''header'' []
       [El ''div'' []
          [El ''div'' [] [El ''Activity'' [] []],
           El ''div'' []
             [El ''div'' []
                [El ''span'' [] [Txt ''CoCoDB Observability''], El ''span'' [] [Txt ''Live Telemetry''],
                 (case da_cluster s of
                    Some c \<Rightarrow> if cl_enabled c then El ''span'' [] [El ''span'' [] [], Txt (''Cluster Active ('' @ int_to_string (cl_total_nodes c) @ '' Nodes)'')]
                              else El ''span'' [] [Txt ''Standalone Node'']
                  | None \<Rightarrow> El ''span'' [] [Txt ''Standalone Node''])],
              El ''p'' [] [Txt ''Real-time kernel analytics, cluster mesh health, and Prometheus telemetry'']]],
        El ''div'' []
          [El ''div'' [] [El ''span'' [Attr ''className'' (if da_connected s then ''bg-emerald-500'' else ''bg-rose-500'')] [],
             El ''span'' [] [Txt (if da_connected s then ''SSE 500ms Live'' else ''Reconnecting...'')]],
           El ''button'' [OnClick Da_probe, Disabled (da_benchmarking s)]
             [El ''Zap'' [Attr ''className'' (if da_benchmarking s then ''animate-spin'' else [])] [],
              El ''span'' [] [Txt (if da_benchmarking s then ''Probing...'' else ''Synthetic Probe'')]],
           El ''button'' [OnClick Da_toggleTheme, Attr ''title'' ''Toggle theme''] [if da_dark s then El ''Sun'' [] [] else El ''Moon'' [] []]]]"

definition da_tab :: "da_state \<Rightarrow> Tab \<Rightarrow> da_event node list \<Rightarrow> da_event node" where
  "da_tab s t cs = El ''button'' [OnClick (Da_setTab t), Attr ''className'' (if da_activeTab s = t then ''active'' else ''inactive'')] cs"

definition da_tabs :: "da_state \<Rightarrow> da_event node" where
  "da_tabs s =
     El ''div'' []
       [da_tab s Overview [Txt ''Metrics Overview''],
        da_tab s Cluster [El ''Network'' [] [], El ''span'' [] [Txt ''Cluster Topology & Health'']],
        da_tab s Engine [Txt ''Storage & 16-Partition Cache''],
        da_tab s Queues [Txt ''Task Queues & Pub/Sub''],
        da_tab s Prometheus [Txt ''Prometheus Exporter (/metrics)'']]"

definition da_probeBanner :: "(rat \<Rightarrow> string) \<Rightarrow> da_state \<Rightarrow> da_event node list" where
  "da_probeBanner localeNum s =
     (case da_benchmarkResult s of
        None \<Rightarrow> []
      | Some r \<Rightarrow>
          [El ''div'' []
             [El ''div'' [] [El ''Flame'' [] [],
                El ''div'' [] [El ''span'' [] [Txt ''Synthetic Benchmark Probe Result: ''],
                  El ''span'' [] [Txt (localeNum (pr_ops r) @ '' ops in 1 sec '' @ dot @ '' P50 Latency: '' @ num (pr_p50 r) @ '' '' @ micro @
                    '' '' @ dot @ '' P99 Latency: '' @ num (pr_p99 r) @ '' '' @ micro)]]],
              El ''button'' [OnClick Da_dismiss] [Txt ''Dismiss'']]])"

definition da_cards :: "(rat \<Rightarrow> string) \<Rightarrow> da_state \<Rightarrow> da_event node" where
  "da_cards localeNum s =
     El ''div'' []
       [El ''div'' []
          [El ''div'' [] [El ''span'' [] [Txt ''Operations Throughput''], El ''Activity'' [] []],
           El ''div'' [] [El ''span'' [] [Txt (localeNum (da_qps s))], El ''span'' [] [Txt ''ops/sec'']],
           El ''div'' [] [Sparkline (sparkline (da_qpsHistory s) ''#10b981'' ''rgba(16, 185, 129, 0.15)'')],
           El ''div'' [] [Txt ''Live rate calculated over 500ms delta'']],
        El ''div'' []
          [El ''div'' [] [El ''span'' [] [Txt ''16-Partition LRU Hit Rate''], El ''Cpu'' [] []],
           El ''div'' [] [El ''span'' [] [Txt (da_hitRate s @ ''%'')], El ''span'' [] [Txt ''ratio'']],
           El ''div'' [] [Sparkline ((sparkline (da_cacheHitHistory s) ''#14b8a6'' ''rgba(20, 184, 166, 0.15)'')\<lparr>sk_min := Some 0, sk_max := Some 100\<rparr>)],
           El ''div'' [] [Txt (localeNum (of_int (tm_stat tm_cache_hits s)) @ '' hits / '' @ localeNum (of_int (tm_stat tm_cache_misses s)) @ '' misses'')]],
        El ''div'' []
          [El ''div'' [] [El ''span'' [] [Txt ''Allocated Storage''], El ''HardDrive'' [] []],
           El ''div'' [] [El ''span'' [] [Txt (da_sizeMB s)], El ''span'' [] [Txt ''MB'']],
           El ''div'' [] [Sparkline (sparkline (da_allocatedMbHistory s) ''#0ea5e9'' ''rgba(14, 165, 233, 0.15)'')],
           El ''div'' [] [Txt (localeNum (of_int (tm_stat tm_page_count s)) @ '' pages '' @ [CHR 0xC3, CHR 0x97] @ '' 16 KiB Slotted'')]],
        El ''div'' []
          [El ''div'' [] [El ''span'' [] [Txt ''WAL Commit Sequence''], El ''Layers'' [] []],
           El ''div'' [] [El ''span'' [] [Txt (''#'' @ int_to_string (tm_stat tm_last_lsn s))], El ''span'' [] [Txt ''LSN'']],
           El ''div'' [] [El ''span'' [] [Txt ''Crash-Safe:''], El ''span'' [] [Txt ''Dual Meta A/B'']],
           El ''div'' [] [Txt (''Txn ID #'' @ int_to_string (tm_stat tm_last_txn_id s))]]]"

definition da_figure :: "string \<Rightarrow> string \<Rightarrow> da_event node" where
  "da_figure label v = El ''div'' [] [El ''div'' [] [Txt label], El ''div'' [] [Txt v]]"

definition da_clusterCard :: "da_state \<Rightarrow> da_event node" where
  "da_clusterCard s =
     El ''button'' [Attr ''type'' ''button'', OnClick (Da_setTab Cluster)]
       (El ''div'' [] [El ''div'' [] [El ''Network'' [] [], El ''h2'' [] [Txt ''Live Cluster Status'']],
          El ''span'' [Attr ''className'' (clusterHealthClass s)] [Txt (clusterHealth s)]] #
        (case da_cluster s of
           Some c \<Rightarrow>
             if cl_enabled c then
               [El ''div'' []
                  [da_figure ''Nodes'' (int_to_string (cl_total_nodes c)), da_figure ''Online'' (int_to_string (onlinePeers s)),
                   da_figure ''Unavailable'' (int_to_string (unreachablePeers s))],
                El ''div'' [] [El ''span'' [] [Txt (cl_node_id c @ '' '' @ dot @ '' '' @ cl_addr c)],
                  El ''span'' [] [Txt (''View topology '' @ [CHR 0xE2, CHR 0x86, CHR 0x92])]]]
             else [El ''div'' [] [El ''ServerIcon'' [] [], El ''div'' [] [El ''div'' [] [Txt ''Embedded standalone node''],
                     El ''div'' [] [Txt ''Start a cluster node to monitor peer health here.'']]]]
         | None \<Rightarrow> [El ''div'' [] [El ''ServerIcon'' [] [], El ''div'' [] [El ''div'' [] [Txt ''Embedded standalone node''],
                     El ''div'' [] [Txt ''Start a cluster node to monitor peer health here.'']]]]))"

definition da_overview :: "da_state \<Rightarrow> da_event node" where
  "da_overview s =
     El ''div'' []
       [El ''div'' []
          [El ''div'' [] [El ''div'' [] [El ''Package'' [] [], El ''h2'' [] [Txt ''Transactional Task Queues'']],
             El ''span'' [] [Txt (int_to_string (tm_stat tm_queue_count s) @ '' Queues Active'')]],
           El ''div'' []
             [da_figure ''Ready Tasks'' (int_to_string (tm_stat tm_queue_ready_tasks s)),
              da_figure ''In-Flight Leased'' (int_to_string (tm_stat tm_queue_inflight_tasks s)),
              da_figure ''Dead-Letter DLQ'' (int_to_string (tm_stat tm_queue_dlq_tasks s))],
           El ''div'' [] [Sparkline (sparkline (da_queueReadyHistory s) ''#10b981'' ''rgba(16, 185, 129, 0.1)'')]],
        El ''div'' []
          [El ''div'' [] [El ''div'' [] [El ''Radio'' [] [], El ''h2'' [] [Txt ''Pub/Sub Event Broker Telemetry'']],
             El ''span'' [] [Txt (int_to_string (tm_opt tm_pubsub_active_topics s) @ '' Topics Active'')]],
           El ''div'' []
             [da_figure ''Published Events'' (int_to_string (tm_stat tm_pubsub_events_count s)),
              da_figure ''Delivered to Subs'' (int_to_string (tm_opt tm_pubsub_delivered_count s))],
           El ''div'' [] [Sparkline (sparkline (da_pubsubHistory s) ''#38bdf8'' ''rgba(56, 189, 248, 0.1)'')]],
        da_clusterCard s]"

definition da_peer :: "nat \<Rightarrow> PeerStatus \<Rightarrow> da_event node" where
  "da_peer idx p =
     El ''div'' [Attr ''key'' (nat_to_string idx)]
       [El ''div'' []
          [El ''div'' [Attr ''className'' (if is_online p then ''bg-emerald-400'' else ''bg-rose-500'')] [],
           El ''div'' []
             [El ''div'' [] (El ''span'' [] [Txt (peer_addr p)] # (if peer_is_local p then [El ''span'' [] [Txt ''SELF'']] else [])),
              El ''div'' [] [Txt (''Shard Partition Token Range: Virtual Slots '' @ nat_to_string (idx * 256) @ '' - '' @
                nat_to_string ((idx + 1) * 256 - 1))]]],
        El ''div'' []
          (El ''div'' [] [El ''div'' [] [Txt ''Status''],
             El ''div'' [Attr ''className'' (if is_online p then ''text-emerald-400'' else ''text-rose-400'')] [Txt (peer_status p)]] #
           (if peer_is_local p then []
            else [El ''div'' [] [El ''div'' [] [Txt ''Ping RTT''],
                    El ''div'' [] [Txt (if 0 \<le> peer_latency_us p then int_to_string (peer_latency_us p) @ '' '' @ micro else ''timeout'')]]]))]"

definition da_standalone :: "da_event node" where
  "da_standalone =
     El ''div'' []
       [El ''Network'' [] [], El ''h3'' [] [Txt ''Standalone Node Mode''],
        El ''p'' [] [Txt (''This database instance is currently running in embedded standalone mode. To enable multi-node clustering '' @
          ''with mTLS 1.3 and cross-node deduplication:'')],
        El ''pre'' []
          [Txt (''node, err := cluster.StartNode(db, '' @ [CHR 0x22] @ ''127.0.0.1:9001'' @ [CHR 0x22] @ '',''), El ''br'' [] [],
           Txt (''  cluster.WithSecret('' @ [CHR 0x22] @ ''my_token'' @ [CHR 0x22] @ ''),''), El ''br'' [] [],
           Txt (''  cluster.WithPeers('' @ [CHR 0x22] @ ''127.0.0.1:9002'' @ [CHR 0x22] @ '', '' @ [CHR 0x22] @ ''127.0.0.1:9003'' @ [CHR 0x22] @ ''),''),
           El ''br'' [] [], Txt '')'']]"

definition da_clusterPanel :: "da_state \<Rightarrow> da_event node" where
  "da_clusterPanel s =
     El ''div'' []
       (case da_cluster s of
          None \<Rightarrow> [da_standalone]
        | Some c \<Rightarrow>
            if \<not> cl_enabled c then [da_standalone]
            else
              [El ''div'' []
                 [El ''div'' [] [El ''div'' [] [El ''ServerIcon'' [] [], El ''span'' [] [Txt ''Local Node Identity'']],
                    El ''div'' [] [Txt (cl_node_id c)], El ''div'' [] [Txt (cl_addr c)]],
                  El ''div'' [] [El ''div'' [] [El ''Lock'' [] [], El ''span'' [] [Txt ''Wire Security'']],
                    El ''div'' [] [Txt (if cl_mtls_enforced c then ''mTLS 1.3 Active'' else if cl_tls_enabled c then ''TLS 1.3'' else ''Plain TCP'')],
                    El ''div'' [] [Txt (if cl_auth_enforced c then ''Token Auth Enforced'' else ''No Auth'')]],
                  El ''div'' [] [El ''div'' [] [El ''Globe'' [] [], El ''span'' [] [Txt ''Consistent Hash Ring'']],
                    El ''div'' [] [Txt (int_to_string (cl_total_nodes c) @ '' Physical Nodes'')],
                    El ''div'' [] [Txt (int_to_string (cl_virtual_nodes c) @ '' Virtual Tokens / Node'')]],
                  El ''div'' [] [El ''div'' [] [El ''Activity'' [] [], El ''span'' [] [Txt ''RPC Socket Connections'']],
                    El ''div'' [] [Txt (int_to_string (cl_active_conns c) @ '' Active Sockets'')],
                    El ''div'' [] [Txt ''Zero-copy binary frame multiplexing'']]],
               El ''div'' []
                 [El ''div'' [] [El ''div'' [] [El ''Network'' [] [], El ''h2'' [] [Txt ''Cluster Peer Node Mesh'']],
                    El ''span'' [] [Txt ''Auto-Forwarding Deduplication Enabled'']],
                  El ''div'' []
                    (if clusterPeers s \<noteq> [] then map (\<lambda>(i, p). da_peer i p) (enumerate 0 (clusterPeers s))
                     else [El ''div'' [] [Txt ''No cluster peers configured.'']])]])"

definition da_engine :: "da_state \<Rightarrow> da_event node" where
  "da_engine s =
     El ''div'' []
       [El ''div'' [] [El ''div'' [] [El ''ShieldCheck'' [] [], El ''span'' [] [Txt ''Dual Meta Pages Crash-Safety'']],
          El ''p'' [] [Txt (''Alternating Meta Page 0 and Meta Page 1 ensure complete atomic commits. Even on sudden power loss, the '' @
            ''database rolls back to the last valid meta snapshot with zero corruption.'')],
          El ''div'' [] [Txt ''Status: Verified Healthy'']],
        El ''div'' [] [El ''div'' [] [El ''Lock'' [] [], El ''span'' [] [Txt ''Hardware CRC32C Checksums'']],
          El ''p'' [] [Txt (''Every single 16 KiB slotted page header contains a Castagnoli CRC32C checksum validated using CPU SSE4.2 '' @
            ''instructions on read.'')],
          El ''div'' [] [Txt ''Integrity: 100% Page Match'']],
        El ''div'' [] [El ''div'' [] [El ''Cpu'' [] [], El ''span'' [] [Txt ''16-Partition Stripped LRU'']],
          El ''p'' [] [Txt (''Sharded into 16 independent mutex stripes to eliminate CPU cache lock contention under multi-threaded '' @
            ''parallel reader workloads.'')],
          El ''div'' [] [Txt (''Hit Rate: '' @ da_hitRate s @ ''%'')]]]"

definition da_prometheus :: "string \<Rightarrow> da_state \<Rightarrow> da_event node" where
  "da_prometheus host s =
     El ''div'' []
       [El ''div'' []
          [El ''div'' [] [El ''h2'' [] [Txt ''Prometheus & OpenTelemetry Scrape Target''],
             El ''p'' [] [Txt ''Compatible with Prometheus, Grafana Agent, and Datadog scrape jobs'']],
           El ''div'' []
             [El ''button'' [OnClick Da_copy]
                [if da_copied s then El ''Check'' [] [] else El ''Copy'' [] [],
                 El ''span'' [] [Txt (if da_copied s then ''Copied URL'' else ''Copy /metrics URL'')]],
              El ''a'' [Attr ''href'' ''/metrics'', Attr ''target'' ''_blank'', Attr ''rel'' ''noreferrer'']
                [El ''span'' [] [Txt ''Open Raw /metrics''], El ''ExternalLink'' [] []]]],
        El ''div'' []
          [El ''div'' [] [Txt ''# prometheus.yml scrape config example:''],
           El ''div'' [] [Txt ''scrape_configs:'', El ''br'' [] [], Txt (''  - job_name: '' @ [CHR 39] @ ''cocodb'' @ [CHR 39]), El ''br'' [] [],
             Txt ''    static_configs:'', El ''br'' [] [], Txt (''      - targets: ['' @ [CHR 39] @ host @ [CHR 39] @ '']'')]]]"

definition da_panels :: "string \<Rightarrow> da_state \<Rightarrow> da_event node list" where
  "da_panels host s =
     (if da_activeTab s = Overview then [da_overview s] else []) @ (if da_activeTab s = Cluster then [da_clusterPanel s] else []) @
     (if da_activeTab s = Engine then [da_engine s] else []) @ (if da_activeTab s = Prometheus then [da_prometheus host s] else [])"

definition da_render :: "(rat \<Rightarrow> string) \<Rightarrow> string \<Rightarrow> da_state \<Rightarrow> da_event node" where
  "da_render localeNum host s =
     El ''div'' []
       [da_header s, El ''main'' [] ([da_tabs s] @ da_probeBanner localeNum s @ [da_cards localeNum s] @ da_panels host s)]"

text \<open>
  The environment: the browser raises stream events for the sources that are not closed, the
  user acts on the tree while the page is mounted.
\<close>

definition da_can :: "(rat \<Rightarrow> string) \<Rightarrow> string \<Rightarrow> da_state \<Rightarrow> da_event \<Rightarrow> bool" where
  "da_can localeNum host s e =
     (case e of
        Da_onopen i \<Rightarrow> i \<in> set (da_open s)
      | Da_onmessage i _ \<Rightarrow> i \<in> set (da_open s)
      | Da_onerror i \<Rightarrow> i \<in> set (da_open s)
      | Da_unmount \<Rightarrow> da_mounted s
      | _ \<Rightarrow> da_mounted s \<and> user_can (da_render localeNum host s) e)"

abbreviation da_reach :: "(rat \<Rightarrow> string) \<Rightarrow> string \<Rightarrow> string \<Rightarrow> da_state \<times> da_pending list \<Rightarrow> bool" where
  "da_reach nf host origin \<equiv> view_reach da_start (da_can nf host) (da_handle origin) da_fit da_resume"

section \<open>Histories\<close>

lemma push_history_last: "push_history (last_n 30 xs) x = last_n 30 (xs @ [x])"
proof -
  have "length xs - (length xs - 30 + 29) + (length xs - 30) = length xs - 29" by arith
  then have "last_n 29 (last_n 30 xs) = last_n 29 xs" by (simp add: last_n_def)
  then show ?thesis using last_n_append_single [of 29 xs x] by (simp add: push_history_def)
qed

definition arrived :: "RealtimeTelemetry outcome list \<Rightarrow> RealtimeTelemetry list" where
  "arrived ms = List.map_filter (\<lambda>m. case m of Inr d \<Rightarrow> Some d | Inl _ \<Rightarrow> None) ms"

lemma arrived_snoc: "arrived (ms @ [m]) = arrived ms @ (case m of Inr d \<Rightarrow> [d] | Inl _ \<Rightarrow> [])"
  by (simp add: arrived_def List.map_filter_simps split: sum.splits)

text \<open>
  C10.  After any sequence of stream messages, each of the five charts holds the values of the
  last thirty messages that could be read, in order, and the page shows the last of them; a
  message that cannot be read leaves no gap.
\<close>

theorem histories_are_last_thirty:
  "let s = fold onmessage ms da_init; ds = arrived ms
   in da_qpsHistory s = last_n 30 (map tm_qps ds)
    \<and> da_cacheHitHistory s = last_n 30 (map (\<lambda>d. tm_cache_hit_rate d * 100) ds)
    \<and> da_allocatedMbHistory s = last_n 30 (map (\<lambda>d. of_int (tm_page_count d * 16) / 1024) ds)
    \<and> da_queueReadyHistory s = last_n 30 (map (\<lambda>d. of_int (tm_queue_ready_tasks d)) ds)
    \<and> da_pubsubHistory s = last_n 30 (map (\<lambda>d. of_int (tm_pubsub_events_count d)) ds)
    \<and> da_telemetry s = (if ds = [] then None else Some (last ds))"
proof (induction ms rule: rev_induct)
  case Nil
  then show ?case by (simp add: da_init_def arrived_def List.map_filter_simps last_n_def)
next
  case (snoc m ms)
  then show ?case
    by (cases m) (simp_all add: Let_def arrived_snoc onmessage_def push_history_last)
qed

section \<open>The event stream\<close>

definition stream_inv :: "da_state \<Rightarrow> da_pending list \<Rightarrow> bool" where
  "stream_inv s q =
     (da_mounted s \<longrightarrow>
        length (da_open s) + count_list q Da_reconnect = 1 \<and> (\<forall>i \<in> set (da_open s). da_eventSource s = Some i)
        \<and> (da_connected s \<longrightarrow> da_open s \<noteq> []))"

lemma onmessage_keeps [simp]:
  "da_open (onmessage r s) = da_open s" "da_mounted (onmessage r s) = da_mounted s"
  "da_eventSource (onmessage r s) = da_eventSource s" "da_connected (onmessage r s) = da_connected s"
  "da_benchmarking (onmessage r s) = da_benchmarking s"
  by (cases r; simp add: onmessage_def Let_def)+

lemma close_source_open [simp]:
  "da_open (close_source s) = (case da_eventSource s of None \<Rightarrow> da_open s | Some i \<Rightarrow> filter (\<lambda>j. j \<noteq> i) (da_open s))"
  "da_mounted (close_source s) = da_mounted s" "da_connected (close_source s) = da_connected s"
  "da_eventSource (close_source s) = da_eventSource s" "da_benchmarking (close_source s) = da_benchmarking s"
  by (simp_all add: close_source_def split: option.splits)

lemma stream_inv_same:
  assumes "stream_inv s q" and "da_open s' = da_open s" and "da_mounted s' = da_mounted s"
    and "da_eventSource s' = da_eventSource s" and "da_connected s' = da_connected s" and "count_list q' Da_reconnect = count_list q Da_reconnect"
  shows "stream_inv s' q'"
  using assms by (simp add: stream_inv_def)

lemma stream_inv_error:
  assumes "stream_inv s q" and "i \<in> set (da_open s)"
  shows "stream_inv (fst (onerror s)) (q @ snd (onerror s))"
proof (cases "da_mounted s")
  case True
  then have "length (da_open s) = 1" "count_list q Da_reconnect = 0" "da_eventSource s = Some i"
    using assms by (auto simp: stream_inv_def split: if_splits) (cases "da_open s"; simp)+
  then have "da_open s = [i]" using assms(2) by (cases "da_open s") auto
  with True show ?thesis
    using \<open>count_list q Da_reconnect = 0\<close> \<open>da_eventSource s = Some i\<close> by (simp add: stream_inv_def onerror_def)
qed (simp add: stream_inv_def onerror_def)

interpretation da_stream: view_invariant da_start "da_can nf host" "da_handle origin" da_fit da_resume stream_inv
proof unfold_locales
  show "stream_inv (fst da_start) (snd da_start)"
    by (simp add: stream_inv_def da_start_def connectSSE_def da_init_def)
next
  fix s q e
  assume inv: "stream_inv s q" and can: "da_can nf host s e"
  show "stream_inv (fst (da_handle origin e s)) (q @ snd (da_handle origin e s))"
  proof (cases e)
    case (Da_onopen i)
    then show ?thesis using inv can by (auto simp: stream_inv_def da_can_def)
  next
    case (Da_onerror i)
    then show ?thesis using stream_inv_error [OF inv, of i] can by (simp add: da_can_def)
  next
    case Da_unmount
    then show ?thesis by (simp add: stream_inv_def)
  qed (auto intro!: stream_inv_same [OF inv] simp: runBenchmarkProbe_def da_handleCopyMetrics_def)
next
  fix s q1 p q2 r
  assume inv: "stream_inv s (q1 @ p # q2)" and "da_fit p r"
  then show "stream_inv (fst (da_resume p r s)) (q1 @ q2 @ snd (da_resume p r s))"
  proof (cases "(p, r)" rule: da_fit.cases)
    case 1
    then show ?thesis using inv by (simp add: stream_inv_def connectSSE_def)
  next
    case 2
    then show ?thesis using inv by (auto intro!: stream_inv_same [OF inv])
  next
    case (3 x)
    then show ?thesis using inv by (auto intro!: stream_inv_same [OF inv] simp: runBenchmarkProbe_done_def split: sum.splits)
  qed auto
qed

text \<open>
  C8.  While the dashboard is mounted it has either exactly one event stream or exactly one
  scheduled reconnection, never both, never two streams and never neither: an error always leads
  to a new attempt. It says \<open>Live\<close> only while a stream is open.
\<close>

theorem dashboard_stream_or_reconnect:
  assumes "da_reach nf host origin (s, q)" and "da_mounted s"
  shows "(da_open s = [] \<and> count_list q Da_reconnect = 1 \<and> \<not> da_connected s)
     \<or> ((\<exists>i. da_open s = [i] \<and> da_eventSource s = Some i) \<and> count_list q Da_reconnect = 0)"
proof -
  have "stream_inv s q" using da_stream.reach_inv [OF assms(1)] by simp
  with assms(2) show ?thesis by (cases "da_open s") (auto simp: stream_inv_def)
qed

lemma da_can_error: "da_can nf host (fst da_start) (Da_onerror 0)"
  by (simp add: da_can_def da_start_def connectSSE_def da_init_def)

definition ex_broken :: "da_state \<times> da_pending list" where
  "ex_broken = do_event (da_handle []) (Da_onerror 0) da_start"

lemma ex_broken_reach: "da_reach nf host [] ex_broken"
  unfolding ex_broken_def by (rule reach_do_event, rule view_reach.mount, rule da_can_error)

lemma ex_broken_state:
  "da_open (fst ex_broken) = []" "snd ex_broken = [Da_reconnect]" "da_mounted (fst ex_broken)" "da_eventSource (fst ex_broken) = Some 0"
  by (simp_all add: ex_broken_def do_event_def da_start_def connectSSE_def da_init_def onerror_def)

theorem dashboard_stream_or_reconnect_witness:
  "count_list (snd ex_broken) Da_reconnect = 1 \<and> \<not> da_connected (fst ex_broken)"
proof -
  have "da_reach (\<lambda>_. []) [] [] (fst ex_broken, snd ex_broken)" using ex_broken_reach by simp
  from dashboard_stream_or_reconnect [OF this] show ?thesis by (simp add: ex_broken_state)
qed

text \<open>
  Leaving the page does not cancel a scheduled reconnection: there is a run in which the page is
  left after a stream error and a stream is opened afterwards that nothing closes.
\<close>

theorem dashboard_stream_outlives_page:
  "\<exists>s. da_reach nf host [] (s, []) \<and> \<not> da_mounted s \<and> da_open s \<noteq> []"
proof -
  let ?left = "do_event (da_handle []) Da_unmount ex_broken"
  have "da_reach nf host [] ?left"
    by (rule reach_do_event [OF ex_broken_reach]) (simp add: da_can_def ex_broken_state)
  moreover have q: "snd ?left = [Da_reconnect]" "\<not> da_mounted (fst ?left)"
    by (simp_all add: do_event_def ex_broken_state case_prod_beta)
  ultimately have "da_reach nf host [] (do_reply da_resume 0 Da_tick ?left)"
    by (intro reach_do_reply) simp_all
  moreover have "snd (do_reply da_resume 0 Da_tick ?left) = []" "\<not> da_mounted (fst (do_reply da_resume 0 Da_tick ?left))"
    "da_open (fst (do_reply da_resume 0 Da_tick ?left)) \<noteq> []"
    using q by (simp_all add: do_reply_def connectSSE_def)
  ultimately show ?thesis using reach_pair by blast
qed

section \<open>The probe and the panels\<close>

lemma Sparkline_inert [simp]: "\<not> user_can (Sparkline p) e"
  by (simp add: Sparkline_def Let_def)

lemma da_header_can: "user_can (da_header s) e \<longleftrightarrow> (\<not> da_benchmarking s \<and> e = Da_probe) \<or> e = Da_toggleTheme"
  by (auto simp: da_header_def has_button_def split: option.splits)

lemma da_tabs_can: "user_can (da_tabs s) e \<longleftrightarrow> (\<exists>t. e = Da_setTab t)"
proof -
  have "e = Da_setTab t \<Longrightarrow> user_can (da_tabs s) e" for t by (cases t) (simp_all add: da_tabs_def da_tab_def)
  then show ?thesis by (auto simp: da_tabs_def da_tab_def)
qed

lemma da_probeBanner_can: "c \<in> set (da_probeBanner nf s) \<Longrightarrow> user_can c e \<Longrightarrow> e = Da_dismiss"
  by (auto simp: da_probeBanner_def split: option.splits)

lemma da_cards_inert: "\<not> user_can (da_cards nf s) e"
  by (simp add: da_cards_def)

lemma da_overview_can: "user_can (da_overview s) e \<Longrightarrow> e = Da_setTab Cluster"
  by (auto simp: da_overview_def da_clusterCard_def da_figure_def split: option.splits if_splits)

lemma da_peer_inert: "\<not> user_can (da_peer i p) e"
  by (simp add: da_peer_def)

lemma da_clusterPanel_inert: "\<not> user_can (da_clusterPanel s) e"
  by (auto simp: da_clusterPanel_def da_standalone_def da_peer_inert split: option.splits if_splits prod.splits)

lemma da_engine_inert: "\<not> user_can (da_engine s) e"
  by (simp add: da_engine_def)

lemma da_prometheus_can: "user_can (da_prometheus host s) e \<longleftrightarrow> e = Da_copy"
  by (auto simp: da_prometheus_def)

lemma da_panels_can: "c \<in> set (da_panels host s) \<Longrightarrow> user_can c e \<Longrightarrow> e = Da_setTab Cluster \<or> e = Da_copy"
  by (auto simp: da_panels_def da_clusterPanel_inert da_engine_inert da_prometheus_can dest: da_overview_can split: if_splits)

lemma da_can_probe: "da_can nf host s Da_probe \<Longrightarrow> \<not> da_benchmarking s"
  by (auto simp: da_can_def da_render_def da_header_can da_tabs_can da_cards_inert dest: da_probeBanner_can da_panels_can)

interpretation da_probe: single_flight da_start "da_can nf host" "da_handle origin" da_fit da_resume da_benchmarking "(=) Da_probing"
proof unfold_locales
  fix s e
  assume "da_can nf host s e"
  then show "(da_benchmarking (fst (da_handle origin e s)) = da_benchmarking s \<and> tracked_count ((=) Da_probing) (snd (da_handle origin e s)) = 0)
      \<or> (\<not> da_benchmarking s \<and> da_benchmarking (fst (da_handle origin e s)) \<and> tracked_count ((=) Da_probing) (snd (da_handle origin e s)) = 1)"
    using da_can_probe [of nf host s] by (cases e) (auto simp: onerror_def runBenchmarkProbe_def da_handleCopyMetrics_def)
next
  fix s p r
  assume "da_fit p r" and "Da_probing = p"
  then show "\<not> da_benchmarking (fst (da_resume p r s)) \<and> tracked_count ((=) Da_probing) (snd (da_resume p r s)) = 0"
    by (cases "(p, r)" rule: da_fit.cases) (auto simp: runBenchmarkProbe_done_def split: sum.splits)
next
  fix s p r
  assume "da_fit p r" and "Da_probing \<noteq> p"
  then show "da_benchmarking (fst (da_resume p r s)) = da_benchmarking s \<and> tracked_count ((=) Da_probing) (snd (da_resume p r s)) = 0"
    by (cases "(p, r)" rule: da_fit.cases) (auto simp: connectSSE_def)
qed (simp add: da_start_def connectSSE_def da_init_def)

text \<open>
  The synthetic load probe never runs twice at a time: in every run of the dashboard, whatever the
  stream does, at most one probe is in flight and the flag says whether one is.
\<close>

theorem dashboard_probe_single_flight:
  assumes "da_reach nf host origin (s, q)"
  shows "length (filter ((=) Da_probing) q) = (if da_benchmarking s then 1 else 0)"
  using da_probe.flight_count [OF assms] by (simp add: tracked_count_def)

theorem dashboard_probe_single_flight_witness:
  "length (filter ((=) Da_probing) (snd ex_broken)) = (if da_benchmarking (fst ex_broken) then 1 else 0)"
proof -
  have "da_reach (\<lambda>_. []) [] [] (fst ex_broken, snd ex_broken)" using ex_broken_reach by simp
  then show ?thesis by (rule dashboard_probe_single_flight)
qed

text \<open>
  Of the five tabs that can be clicked in every state, exactly one shows nothing: the tab for task
  queues and publish/subscribe has no panel.
\<close>

theorem queues_tab_has_no_panel:
  "user_can (da_render nf host s) (Da_setTab t)
     \<and> (da_panels host (fst (da_handle origin (Da_setTab t) s)) = [] \<longleftrightarrow> t = Queues)"
  by (cases t) (simp_all add: da_render_def da_tabs_can da_panels_def)

text \<open>
  C31.  The cluster badge says what the peer table says: it is \<open>Degraded\<close> exactly
  when the cluster is enabled and some peer's status is not an online one, and the two counts on
  the card are the numbers of peers with and without such a status.
\<close>

theorem clusterHealth_spec:
  "(clusterHealth s = ''Degraded'' \<longleftrightarrow> cluster_on s \<and> (\<exists>p \<in> set (clusterPeers s). \<not> is_online p))
     \<and> (clusterHealth s = ''Standalone'' \<longleftrightarrow> \<not> cluster_on s)
     \<and> onlinePeers s + unreachablePeers s = int (length (clusterPeers s))
     \<and> unreachablePeers s = int (length (filter (\<lambda>p. \<not> is_online p) (clusterPeers s)))"
proof -
  have u: "unreachablePeers s = int (length (filter (\<lambda>p. \<not> is_online p) (clusterPeers s)))"
    using sum_length_filter_compl [of is_online "clusterPeers s"] by (simp add: unreachablePeers_def onlinePeers_def)
  then have "0 < unreachablePeers s \<longleftrightarrow> (\<exists>p \<in> set (clusterPeers s). \<not> is_online p)"
    by (simp add: filter_empty_conv)
  with u show ?thesis by (auto simp: clusterHealth_def unreachablePeers_def)
qed

end
