(* ===== verification/Spec2Isabelle.thy ===== *)
theory Spec2Isabelle
  imports Studio_App Telemetry
begin

text \<open>
  CoCoDB is an embedded multi-model database with two web front ends, written in TypeScript with
  React: the Studio (\<open>studio/frontend/src\<close>), an administration console of ten pages, and the
  telemetry dashboard (\<open>dashboard/frontend/src\<close>).  This development models both front ends,
  their HTTP client included, as executable functions and proves what makes them correct.

  \<^bold>\<open>The program and how its parts interact.\<close>
  The Studio's \<open>App.tsx\<close> holds the current view, the statistics and the catalog, polls the server
  every five seconds, and mounts the page of the current view inside an error boundary.  It passes the
  catalog and the statistics down as properties; a page calls back to navigate and to refresh the
  catalog.  Every page keeps its own state, calls the client of \<open>api.ts\<close>, and continues when the
  promise settles.  The dashboard is a page of its own: a server-sent event stream that reconnects
  after an error, five history buffers, a load probe and five tabs.

  \<^bold>\<open>How a component is modelled.\<close>
  The state of a component (its \<open>useState\<close> and \<open>useRef\<close> cells and the properties it reads) is a
  record.  A handler is a function on that record that also returns the continuations it leaves: an
  \<open>async\<close> function is cut at each \<open>await\<close>, and the part after it is a function of its own (suffix
  \<open>_done\<close>) that receives the reply.  A continuation carries what its closure captured, the state
  of the render it was made in where the source reads it later.  The effects that follow a render are
  part of the handling of the event that caused it (\<open>cv_commit\<close>, \<open>bv_commit\<close>, \<open>tv_commit\<close>,
  \<open>sp_sync\<close>).  What the component renders is a tree of elements with their handlers and their
  \<open>disabled\<close> attributes (theory \<open>Ui\<close>), and the events a user can raise are those the tree
  offers.  A run of a component is a sequence of such events, timers, new properties and replies, the
  replies in any order (\<open>view_reach\<close>).

  \<^bold>\<open>Theories.\<close>
  \<^item> \<open>Prelude\<close>, \<open>Json\<close>, \<open>Json_Laws\<close>: the values and library functions of the language the
    sources use: strings, numbers and their conversions, \<open>JSON.parse\<close> and \<open>JSON.stringify\<close>.
    \<open>Json_Laws\<close> shows that the parser's fuel is enough for every text and that what is printed
    is read back.
  \<^item> \<open>Date_Time\<close>: the calendar, \<open>toISOString\<close>, the date field and \<open>toLocalInput\<close>.
  \<^item> \<open>Ui\<close>: rendered trees, runs of a component, and the interfaces the components share, as locales:
    \<open>view_invariant\<close>; \<open>single_flight\<close> (a flag that locks what starts an operation),
    \<open>backed_flag\<close> (a flag that is up only while a reply is due) and \<open>latest_wins\<close> (numbered requests of which
    only the newest may write), which are sublocales of it; \<open>prop_view\<close> (the copy of a parent's property);
    \<open>drains\<close> (replies run out).  Every page interprets the ones it follows.
  \<^item> \<open>Api\<close>: \<open>api.ts\<close> and \<open>types.ts\<close>: every endpoint as the request it sends, and the reading of the answer.
  \<^item> \<open>Collections_View\<close>, \<open>Query_Console\<close>, \<open>Playgrounds\<close> (vector and full-text search),
    \<open>Maintenance_View\<close>, \<open>Buckets_View\<close>, \<open>Messaging_Views\<close> (queues and pub/sub),
    \<open>TimeSeries_View\<close>, \<open>Overview_View\<close>: one page of \<open>views/\<close> each, with the prefixes \<open>cv\<close>, \<open>qc\<close>,
    \<open>vp\<close>, \<open>sp\<close>, \<open>mv\<close>, \<open>bv\<close>, \<open>qv\<close>, \<open>ps\<close>, \<open>tv\<close>, \<open>dv\<close>.
  \<^item> \<open>Shell\<close>: \<open>components/\<close> and the own state of \<open>App.tsx\<close>, prefix \<open>sh\<close>.
  \<^item> \<open>Studio_App\<close>: the composition, prefixes \<open>page\<close> and \<open>app\<close>.
  \<^item> \<open>Telemetry\<close>: the dashboard, prefix \<open>da\<close>, and its \<open>Sparkline\<close>.

  \<^bold>\<open>What is shown.\<close>
  For the whole Studio: every page runs as it does alone (a refinement, by which the properties of the pages
  carry over), the page on display is the one of the current view and agrees with the shell's catalog, the
  pages come to rest when the replies have arrived and then no loading flag is up, and the error
  boundary's panel stays until Retry.  For the pages: the newest request wins, one operation at a time,
  requests are addressed to the selection on display, selections are listed, forms report what they refuse, an
  edited document survives the round trip through the editor.  For the client: requests decode to
  their arguments, and answers are read as data or as an error.  For the dashboard: the stream
  or its reconnection is always there, the histories are the last thirty samples, the chart stays in its
  box.  Several theorems show behaviour that is not what the code means to do; the
  text before each says so.

  \<^bold>\<open>Idealisations.\<close>
  A string is the list of the bytes of its UTF-8 encoding.  A number is NaN, an infinity or an exact
  rational: rounding to a double is not modelled, overflow to an infinity is.  The functions of the host
  that depend on its locale, time zone and address are parameters.  A reply has the type the source declares
  for it, with the lists the server may send as null as options.  A page that is left drops its
  continuations, whose setters do nothing then.  Class names and styles appear only where they depend on the
  state; output to the console does not appear.

  \<^bold>\<open>Fuel.\<close>
  Only the JSON parser and the trimming of white space are bounded, by twice the length of the text plus two
  and by the length of the text; the lemmas \<open>JSON_parse_iff\<close> and \<open>drop_seqs_complete\<close> show
  that more changes nothing.  Every other definition is total.

  \<^bold>\<open>Not modelled.\<close>
  The database engine and the two HTTP servers, written in Go: they are the environment, which may answer anything
  of the declared type.  The compiled bundles under \<open>dist\<close>, generated from the modelled
  sources.  The entry points \<open>main.tsx\<close> and the build configuration, which hold no logic.

  \<^bold>\<open>Next.\<close>
  The routes of \<open>studio/handlers.go\<close> against the addresses of the client, so that the contract between the two is a
  theorem; the queue and the topic matcher behind the messaging pages.
\<close>

end
